(* ===== verification/Prelude.thy ===== *)
theory Prelude
  imports Main "HOL-Library.AList" "HOL-Library.Multiset" "HOL-Library.List_Lexorder" "HOL-Library.Char_ord"
begin

text \<open>
  Shared by every component: Go's fixed-width integers and its clock, the collections of
  simplification and invariant rules, generic lemmas on association lists and sorted lists, and
  the interfaces of state machines. A Go string or byte slice is a list of characters, one per
  byte. A \<open>time.Time\<close> is the number of nanoseconds since the Unix epoch and a
  \<open>time.Duration\<close> a number of nanoseconds, both as integers; where Go rounds, saturates or wraps
  around, the definitions say so.
\<close>

named_theorems op_defs \<open>definitions of the operations of the components\<close>
named_theorems frame_simps \<open>parts of a state an operation leaves alone\<close>

type_synonym bytes = string
type_synonym time = int
type_synonym duration = int

section \<open>Go integers and time\<close>

text \<open>\<open>int\<close> and \<open>int64\<close> arithmetic wraps around at 64 bits, two's complement.\<close>

definition wrap64 :: "int \<Rightarrow> int" where
  "wrap64 x = (x + 2 ^ 63) mod 2 ^ 64 - 2 ^ 63"

abbreviation MaxInt64 :: int where
  "MaxInt64 \<equiv> 9223372036854775807"

abbreviation in_int64 :: "int \<Rightarrow> bool" where
  "in_int64 x \<equiv> - 9223372036854775808 \<le> x \<and> x \<le> MaxInt64"

lemma wrap64_in: "in_int64 (wrap64 x)"
  by (auto simp: wrap64_def)

lemma wrap64_id: "in_int64 x \<Longrightarrow> wrap64 x = x"
  by (simp add: wrap64_def)

lemma wrap64_Max: "wrap64 (MaxInt64 + 1) = - 9223372036854775808"
  by (simp add: wrap64_def)

text \<open>\<open>Time.Sub\<close> saturates at the largest and smallest duration.\<close>

definition timeSub :: "time \<Rightarrow> time \<Rightarrow> duration" where
  "timeSub t u = max (- 9223372036854775808) (min MaxInt64 (t - u))"

text \<open>\<open>Time.Unix\<close> rounds to whole seconds downwards; \<open>time.Unix(s, 0)\<close> goes back.\<close>

abbreviation nsPerSec :: int where
  "nsPerSec \<equiv> 1000000000"

definition unixSec :: "time \<Rightarrow> int" where
  "unixSec t = t div nsPerSec"

definition timeUnix :: "int \<Rightarrow> time" where
  "timeUnix s = s * nsPerSec"

text \<open>The zero \<open>time.Time\<close> is midnight of January 1st of the year 1.\<close>

definition zeroTime :: time where
  "zeroTime = - 62135596800 * nsPerSec"

definition Second :: duration where "Second = nsPerSec"
definition Minute :: duration where "Minute = 60 * nsPerSec"
definition Hour :: duration where "Hour = 3600 * nsPerSec"

lemma unixSec_timeUnix [simp]: "unixSec (timeUnix s) = s"
  by (simp add: unixSec_def timeUnix_def)

lemma unixSec_bounds: "timeUnix (unixSec t) \<le> t" "t < timeUnix (unixSec t + 1)"
  by (simp_all add: unixSec_def timeUnix_def)

lemma unixSec_mono: "t \<le> u \<Longrightarrow> unixSec t \<le> unixSec u"
  by (simp add: unixSec_def zdiv_mono1)

lemma unixSec_zeroTime: "unixSec zeroTime = - 62135596800"
  by (simp add: unixSec_def zeroTime_def)

lemma timeSub_gt_iff:
  "r < MaxInt64 \<Longrightarrow> - 9223372036854775808 \<le> r \<Longrightarrow> r < timeSub t u \<longleftrightarrow> r < t - u"
  by (auto simp: timeSub_def)

section \<open>Association lists with one entry per key\<close>

abbreviation keys_distinct :: "('k \<times> 'v) list \<Rightarrow> bool" where
  "keys_distinct al \<equiv> distinct (map fst al)"

lemma map_of_update [simp]: "map_of (AList.update k v al) = (map_of al)(k \<mapsto> v)"
  by (rule ext) (simp add: update_conv')

lemma map_of_delete [simp]: "map_of (AList.delete k al) = (map_of al)(k := None)"
  by (rule ext) (simp add: delete_conv')

lemma keys_distinct_update: "keys_distinct al \<Longrightarrow> keys_distinct (AList.update k v al)"
  by (rule distinct_update)

lemma keys_distinct_delete: "keys_distinct al \<Longrightarrow> keys_distinct (AList.delete k al)"
  by (rule distinct_delete)

lemma mem_keys_iff: "k \<in> fst ` set al \<longleftrightarrow> map_of al k \<noteq> None"
  by (metis map_of_eq_None_iff)

section \<open>Counting in a list\<close>

lemma length_filter_update:
  "k < length xs \<Longrightarrow>
     length (filter P (xs[k := y])) + (if P (xs ! k) then 1 else 0) = length (filter P xs) + (if P y then 1 else 0)"
proof (induction xs arbitrary: k)
  case (Cons x xs)
  show ?case
  proof (cases k)
    case (Suc j)
    then show ?thesis using Cons by (simp split: if_splits)
  qed simp
qed simp

section \<open>State machines\<close>

text \<open>
  A step relation with an invariant: it holds initially and every step keeps it, so it holds in
  every reachable state.
\<close>

locale step_system =
  fixes start :: "'s \<Rightarrow> bool" and stp :: "'s \<Rightarrow> 's \<Rightarrow> bool" and inv :: "'s \<Rightarrow> bool"
  assumes start_inv: "start s \<Longrightarrow> inv s"
    and stp_inv: "stp s t \<Longrightarrow> inv s \<Longrightarrow> inv t"
begin

lemma steps_inv: "stp\<^sup>*\<^sup>* s t \<Longrightarrow> inv s \<Longrightarrow> inv t"
  by (induction rule: rtranclp_induct) (auto intro: stp_inv)

lemma reachable_inv: "start s \<Longrightarrow> stp\<^sup>*\<^sup>* s t \<Longrightarrow> inv t"
  by (blast intro: steps_inv start_inv)

end

text \<open>
  A machine driven by events: a step function from a state and an event, and its runs. It is a
  step system whose steps are the events.
\<close>

fun run :: "('s \<Rightarrow> 'e \<Rightarrow> 's) \<Rightarrow> 's \<Rightarrow> 'e list \<Rightarrow> 's" where
  "run f s [] = s"
| "run f s (e # es) = run f (f s e) es"

lemma run_append: "run f s (xs @ ys) = run f (run f s xs) ys"
  by (induction xs arbitrary: s) auto

lemma run_steps: "list_all P es \<Longrightarrow> (\<lambda>s t. \<exists>e. P e \<and> t = f s e)\<^sup>*\<^sup>* s (run f s es)"
  by (induction es arbitrary: s) (auto intro: converse_rtranclp_into_rtranclp)

locale event_system =
  fixes start :: "'s \<Rightarrow> bool" and react :: "'s \<Rightarrow> 'e \<Rightarrow> 's" and inv :: "'s \<Rightarrow> bool"
  assumes start_inv: "start s \<Longrightarrow> inv s"
    and react_inv: "inv s \<Longrightarrow> inv (react s e)"

sublocale event_system \<subseteq> steps: step_system start "\<lambda>s t. \<exists>e. t = react s e" inv
  by unfold_locales (auto intro: start_inv react_inv)

context event_system begin

lemma run_inv: "inv s \<Longrightarrow> inv (run react s es)"
  by (induction es arbitrary: s) (auto intro: react_inv)

lemma run_start_inv: "start s \<Longrightarrow> inv (run react s es)"
  by (blast intro: run_inv start_inv)

end

end
