(* ===== verification/GoStrings.thy ===== *)
theory GoStrings
  imports Prelude "HOL-Library.Sublist"
begin

text \<open>
  The functions of Go's \<open>strings\<close>, \<open>bytes\<close>, \<open>strconv\<close> and \<open>fmt\<close> packages that the program
  calls, on byte strings: splitting and joining at one byte, trimming, decimal numbers.
\<close>

section \<open>Split and join\<close>

text \<open>\<open>strings.Split\<close> and \<open>bytes.Split\<close> with a separator of one byte.\<close>

fun splitOn :: "'a \<Rightarrow> 'a list \<Rightarrow> 'a list list" where
  "splitOn c [] = [[]]"
| "splitOn c (x # xs) =
     (if x = c then [] # splitOn c xs
      else (case splitOn c xs of [] \<Rightarrow> [[x]] | y # ys \<Rightarrow> (x # y) # ys))"

fun joinWith :: "'a \<Rightarrow> 'a list list \<Rightarrow> 'a list" where
  "joinWith c [] = []"
| "joinWith c [x] = x"
| "joinWith c (x # y # ys) = x @ c # joinWith c (y # ys)"

lemma splitOn_not_Nil [simp]: "splitOn c xs \<noteq> []"
  by (cases xs) (auto split: list.splits)

lemma joinWith_Cons: "ys \<noteq> [] \<Longrightarrow> joinWith c (x # ys) = x @ c # joinWith c ys"
  by (cases ys) auto

lemma joinWith_hd: "joinWith c ((x # a) # as) = x # joinWith c (a # as)"
  by (cases as) auto

lemma joinWith_snoc: "xs \<noteq> [] \<Longrightarrow> joinWith c (xs @ [x]) = joinWith c xs @ c # x"
  by (induction xs rule: induct_list012) (auto simp: joinWith_Cons)

lemma join_split: "joinWith c (splitOn c xs) = xs"
proof (induction xs)
  case (Cons x xs)
  then show ?case
    by (cases "splitOn c xs") (auto simp: joinWith_Cons joinWith_hd)
qed simp

lemma splitOn_free: "c \<notin> set xs \<Longrightarrow> splitOn c xs = [xs]"
  by (induction xs) auto

lemma splitOn_append: "c \<notin> set xs \<Longrightarrow> splitOn c (xs @ c # ys) = xs # splitOn c ys"
  by (induction xs) auto

lemma splitOn_last: "c \<notin> set ys \<Longrightarrow> splitOn c (xs @ c # ys) = splitOn c xs @ [ys]"
proof (induction xs)
  case (Cons x xs)
  then show ?case by (cases "splitOn c xs") auto
qed (simp add: splitOn_free)

lemma split_join: "xs \<noteq> [] \<Longrightarrow> \<forall>x \<in> set xs. c \<notin> set x \<Longrightarrow> splitOn c (joinWith c xs) = xs"
proof (induction xs)
  case (Cons x xs)
  then show ?case by (cases xs) (auto simp: splitOn_free splitOn_append)
qed simp

lemma splitOn_parts_free: "p \<in> set (splitOn c xs) \<Longrightarrow> c \<notin> set p"
proof (induction xs arbitrary: p)
  case (Cons x xs)
  then show ?case by (cases "splitOn c xs") (auto split: if_splits)
qed simp

lemma length_splitOn: "length (splitOn c xs) = Suc (count_list xs c)"
proof (induction xs)
  case (Cons x xs)
  then show ?case by (cases "splitOn c xs") auto
qed simp

lemma splitOn_inj: "splitOn c xs = splitOn c ys \<longleftrightarrow> xs = ys"
  by (metis join_split)

section \<open>Trimming and suffixes\<close>

text \<open>\<open>strings.Trim(s, cutset)\<close> for a cut set of ASCII characters.\<close>

definition trimSet :: "string \<Rightarrow> string \<Rightarrow> string" where
  "trimSet cs s =
     rev (dropWhile (\<lambda>c. c \<in> set cs) (rev (dropWhile (\<lambda>c. c \<in> set cs) s)))"

definition trimSuffix :: "string \<Rightarrow> string \<Rightarrow> string" where
  "trimSuffix suf s = (if suffix suf s then take (length s - length suf) s else s)"

lemma trimSuffix_append [simp]: "trimSuffix suf (s @ suf) = s"
  by (simp add: trimSuffix_def suffix_def)

text \<open>
  \<open>strings.TrimSpace\<close> strips the characters of \<open>unicode.IsSpace\<close> at both ends. Each is given by
  its UTF-8 bytes: a string starts (ends) with the character exactly when these bytes are a prefix
  (suffix) of it.
\<close>

definition spaceSeqs :: "string list" where
  "spaceSeqs =
     map (map (\<lambda>n::nat. char_of n))
       ([[9], [10], [11], [12], [13], [32], [194, 133], [194, 160], [225, 154, 128],
         [226, 128, 168], [226, 128, 169], [226, 128, 175], [226, 129, 159], [227, 128, 128]]
        @ map (\<lambda>k. [226, 128, 128 + k]) [0..<11])"

function dropSeqs :: "string list \<Rightarrow> string \<Rightarrow> string" where
  "dropSeqs qs s =
     (case find (\<lambda>q. q \<noteq> [] \<and> prefix q s) qs of
        None \<Rightarrow> s
      | Some q \<Rightarrow> dropSeqs qs (drop (length q) s))"
  by pat_completeness auto
termination
proof (relation "measure (\<lambda>(qs, s). length s)", goal_cases)
  case (2 qs s q)
  then have "q \<noteq> []" "prefix q s" by (auto simp: find_Some_iff)
  then show ?case by (cases s) (auto simp: prefix_def)
qed simp

declare dropSeqs.simps [simp del]

definition trimSpace :: "string \<Rightarrow> string" where
  "trimSpace s = rev (dropSeqs (map rev spaceSeqs) (rev (dropSeqs spaceSeqs s)))"

lemma dropSeqs_suffix: "suffix (dropSeqs qs s) s"
proof (induction qs s rule: dropSeqs.induct)
  case (1 qs s)
  show ?case
  proof (cases "find (\<lambda>q. q \<noteq> [] \<and> prefix q s) qs")
    case (Some q)
    then have "suffix (dropSeqs qs (drop (length q) s)) (drop (length q) s)" by (rule "1.IH")
    then have "suffix (dropSeqs qs (drop (length q) s)) s"
      using suffix_drop suffix_order.trans by blast
    with Some show ?thesis by (simp add: dropSeqs.simps [of qs s])
  qed (simp add: dropSeqs.simps [of qs s])
qed

lemma dropSeqs_stop: "q \<in> set qs \<Longrightarrow> q \<noteq> [] \<Longrightarrow> \<not> prefix q (dropSeqs qs s)"
proof (induction qs s rule: dropSeqs.induct)
  case (1 qs s)
  show ?case
  proof (cases "find (\<lambda>q. q \<noteq> [] \<and> prefix q s) qs")
    case None
    then have "dropSeqs qs s = s" by (simp add: dropSeqs.simps [of qs s])
    with None show ?thesis using "1.prems" by (auto simp: find_None_iff)
  next
    case (Some p)
    then show ?thesis using "1.IH" [OF Some] "1.prems" by (simp add: dropSeqs.simps [of qs s])
  qed
qed

lemma dropSeqs_id: "\<forall>q \<in> set qs. q \<noteq> [] \<longrightarrow> \<not> prefix q s \<Longrightarrow> dropSeqs qs s = s"
  by (subst dropSeqs.simps) (auto split: option.split simp: find_Some_iff)

text \<open>A string that starts and ends with a visible ASCII character is trimmed already.\<close>

abbreviation visible :: "char \<Rightarrow> bool" where
  "visible c \<equiv> 32 < (of_char c :: nat) \<and> (of_char c :: nat) < 128"

lemma spaceSeqs_ends:
  "q \<in> set spaceSeqs \<Longrightarrow> q \<noteq> [] \<and> \<not> visible (hd q) \<and> \<not> visible (last q)"
  by (auto simp: spaceSeqs_def)

lemma trimSpace_visible:
  assumes "s \<noteq> []" "visible (hd s)" "visible (last s)"
  shows "trimSpace s = s"
proof -
  have "\<not> prefix q s" if "q \<in> set spaceSeqs" for q
    using spaceSeqs_ends [OF that] assms(2) by (cases q) (auto simp: prefix_def)
  then have l: "dropSeqs spaceSeqs s = s" by (intro dropSeqs_id) blast
  have "\<not> prefix (rev q) (rev s)" if "q \<in> set spaceSeqs" for q
  proof
    assume "prefix (rev q) (rev s)"
    moreover have "rev q \<noteq> []" "\<not> visible (hd (rev q))" using spaceSeqs_ends [OF that] by (simp_all add: hd_rev)
    moreover have "hd (rev s) = last s" using assms(1) by (simp add: hd_rev)
    ultimately show False using assms(3) by (cases "rev q") (auto simp: prefix_def)
  qed
  then have "dropSeqs (map rev spaceSeqs) (rev s) = rev s" by (intro dropSeqs_id, simp only: set_map ball_simps) blast
  then show ?thesis by (simp add: trimSpace_def l)
qed

section \<open>Decimal numbers\<close>

definition digitChar :: "nat \<Rightarrow> char" where
  "digitChar d = char_of (48 + d)"

definition isDigit :: "char \<Rightarrow> bool" where
  "isDigit c \<longleftrightarrow> 48 \<le> (of_char c :: nat) \<and> (of_char c :: nat) \<le> 57"

definition digitVal :: "char \<Rightarrow> nat" where
  "digitVal c = of_char c - 48"

fun showNat :: "nat \<Rightarrow> string" where
  "showNat n = (if n < 10 then [digitChar n] else showNat (n div 10) @ [digitChar (n mod 10)])"

declare showNat.simps [simp del]

text \<open>The verb \<open>%d\<close> of \<open>fmt.Sprintf\<close>.\<close>

definition showInt :: "int \<Rightarrow> string" where
  "showInt i = (if i < 0 then CHR ''-'' # showNat (nat (- i)) else showNat (nat i))"

definition readNat :: "string \<Rightarrow> nat" where
  "readNat = foldl (\<lambda>a c. 10 * a + digitVal c) 0"

lemma digitChar_props:
  assumes "d < 10"
  shows "isDigit (digitChar d)" "digitVal (digitChar d) = d"
  using assms by (simp_all add: isDigit_def digitVal_def digitChar_def)

lemma showNat_digits: "\<forall>c \<in> set (showNat n). isDigit c"
proof (induction n rule: showNat.induct)
  case (1 n)
  then show ?case by (subst showNat.simps) (auto simp: digitChar_props)
qed

lemma showNat_not_Nil [simp]: "showNat n \<noteq> []"
  by (subst showNat.simps) simp

lemma readNat_showNat [simp]: "readNat (showNat n) = n"
proof (induction n rule: showNat.induct)
  case (1 n)
  then show ?case
    by (subst showNat.simps) (auto simp: readNat_def digitChar_props)
qed

text \<open>
  \<open>strconv.ParseInt(s, 10, 64)\<close>: an optional sign, then at least one digit and digits only, and
  the value must fit 64 bits. \<open>None\<close> is an error.
\<close>

definition parseDigits :: "string \<Rightarrow> nat option" where
  "parseDigits s = (if s \<noteq> [] \<and> list_all isDigit s then Some (readNat s) else None)"

definition checkInt64 :: "int \<Rightarrow> int option" where
  "checkInt64 i = (if in_int64 i then Some i else None)"

definition parseInt :: "string \<Rightarrow> int option" where
  "parseInt s =
     (case s of
        [] \<Rightarrow> None
      | c # cs \<Rightarrow>
          if c = CHR ''-'' then Option.bind (parseDigits cs) (\<lambda>n. checkInt64 (- int n))
          else if c = CHR ''+'' then Option.bind (parseDigits cs) (\<lambda>n. checkInt64 (int n))
          else Option.bind (parseDigits s) (\<lambda>n. checkInt64 (int n)))"

text \<open>
  \<open>fmt.Sscanf(s, "%d", &i)\<close>: blanks, an optional sign, then the longest run of digits; what
  follows is ignored. \<open>None\<close> leaves the variable as it was. Blanks beyond ASCII are not skipped
  here.
\<close>

definition sscanfD :: "string \<Rightarrow> int option" where
  "sscanfD s =
     (let t = dropWhile (\<lambda>c. c \<in> set [CHR '' '', CHR 0x09, CHR 0x0B, CHR 0x0C, CHR 0x0D]) s
      in case t of
           [] \<Rightarrow> None
         | c # cs \<Rightarrow>
             if c = CHR ''-'' then
               Option.bind (parseDigits (takeWhile isDigit cs)) (\<lambda>n. checkInt64 (- int n))
             else if c = CHR ''+'' then
               Option.bind (parseDigits (takeWhile isDigit cs)) (\<lambda>n. checkInt64 (int n))
             else Option.bind (parseDigits (takeWhile isDigit t)) (\<lambda>n. checkInt64 (int n)))"

lemma parseDigits_showNat [simp]: "parseDigits (showNat n) = Some n"
  using showNat_digits [of n] by (simp add: parseDigits_def list_all_iff)

lemma takeWhile_showNat [simp]: "takeWhile isDigit (showNat n) = showNat n"
  using showNat_digits by (simp add: takeWhile_eq_all_conv)

lemma showNat_hd:
  obtains c cs where "showNat n = c # cs" "isDigit c"
  using showNat_digits [of n] by (cases "showNat n") auto

lemma isDigit_not_blank:
  assumes "isDigit c"
  shows "c \<notin> {CHR ''-'', CHR ''+'', CHR '' '', CHR 0x09, CHR 0x0B, CHR 0x0C, CHR 0x0D}"
  using assms by (auto simp: isDigit_def)

lemma parseInt_showInt: "in_int64 i \<Longrightarrow> parseInt (showInt i) = Some i"
proof (cases "i < 0")
  case True
  moreover assume "in_int64 i"
  ultimately show ?thesis by (simp add: parseInt_def showInt_def checkInt64_def)
next
  case False
  moreover assume "in_int64 i"
  moreover obtain c cs where "showNat (nat i) = c # cs" "isDigit c" by (rule showNat_hd)
  ultimately show ?thesis
    using isDigit_not_blank [of c] parseDigits_showNat [of "nat i"]
    by (simp add: parseInt_def showInt_def checkInt64_def)
qed

lemma sscanfD_showInt: "in_int64 i \<Longrightarrow> sscanfD (showInt i) = Some i"
proof (cases "i < 0")
  case True
  moreover assume "in_int64 i"
  ultimately show ?thesis by (simp add: sscanfD_def showInt_def checkInt64_def)
next
  case False
  moreover assume "in_int64 i"
  moreover obtain c cs where c: "showNat (nat i) = c # cs" "isDigit c" by (rule showNat_hd)
  moreover from c have "takeWhile isDigit (c # cs) = c # cs" "parseDigits (c # cs) = Some (nat i)"
    using takeWhile_showNat [of "nat i"] parseDigits_showNat [of "nat i"] by simp_all
  ultimately show ?thesis
    using isDigit_not_blank [of c]
    by (simp add: sscanfD_def showInt_def checkInt64_def takeWhile_eq_all_conv [THEN iffD2])
qed

lemma parseInt_in: "parseInt s = Some i \<Longrightarrow> in_int64 i"
  by (auto simp: parseInt_def checkInt64_def split: list.splits if_splits Option.bind_splits)

end
