(* ===== verification/Metrics.thy ===== *)
theory Metrics
  imports GoStrings
begin

text \<open>
  \<open>internal/metrics/metrics.go\<close>: the Prometheus collectors the daemon registers and the methods
  that record into them. The Prometheus client is a library outside the repository; the state kept
  here is the list of calls made on its collectors, oldest first, from which the value of a counter
  or a gauge is read off. A duration is observed in nanoseconds, where the code converts it to
  seconds as a floating point number first.
\<close>

section \<open>Collectors\<close>

datatype metric =
    ConnectionsTotal | ConnectionsCurrent | ConnectionDuration
  | TLSHandshakes | TLSHandshakeErrors | CertReloads | CertReloadErrors
  | AuthAttempts | AuthDuration
  | MessagesAccepted | MessagesRejected | MessageSize
  | StageTotal | StageDuration
  | DedupChecks | DedupDuplicates
  | DKIMSigningTotal | DKIMSigningDuration
  | DeliveryAttempts | DeliveryDuration | DeliveryQueue
  | S3UploadTotal | S3UploadDuration
  | ClickHouseEventsTotal | ClickHouseBufferSize
  | RateLimitHits | ErrorsTotal | BytesReceived | BytesSent

datatype collector = Counter | Gauge | Histogram

text \<open>How \<open>New\<close> registers each collector: its kind and the names of its labels.\<close>

fun metricKind :: "metric \<Rightarrow> collector" where
  "metricKind ConnectionsCurrent = Gauge"
| "metricKind DeliveryQueue = Gauge"
| "metricKind ClickHouseBufferSize = Gauge"
| "metricKind ConnectionDuration = Histogram"
| "metricKind AuthDuration = Histogram"
| "metricKind MessageSize = Histogram"
| "metricKind StageDuration = Histogram"
| "metricKind DKIMSigningDuration = Histogram"
| "metricKind DeliveryDuration = Histogram"
| "metricKind S3UploadDuration = Histogram"
| "metricKind _ = Counter"

fun metricLabels :: "metric \<Rightarrow> string list" where
  "metricLabels ConnectionsTotal = [''listener'', ''tls_mode'']"
| "metricLabels ConnectionDuration = [''listener'']"
| "metricLabels AuthAttempts = [''method'', ''result'']"
| "metricLabels AuthDuration = [''method'']"
| "metricLabels MessagesAccepted = [''user'']"
| "metricLabels MessagesRejected = [''reason'']"
| "metricLabels MessageSize = [''user'']"
| "metricLabels StageTotal = [''stage'']"
| "metricLabels StageDuration = [''stage'']"
| "metricLabels DKIMSigningTotal = [''domain'', ''result'']"
| "metricLabels DeliveryAttempts = [''result'']"
| "metricLabels DeliveryDuration = [''mx_domain'']"
| "metricLabels S3UploadTotal = [''status'']"
| "metricLabels ClickHouseEventsTotal = [''status'']"
| "metricLabels RateLimitHits = [''type'', ''identifier'']"
| "metricLabels ErrorsTotal = [''component'', ''error_type'']"
| "metricLabels _ = []"

text \<open>The calls on a collector, with the values given for its labels.\<close>

datatype metric_call =
    Inc metric "string list"
  | Dec metric
  | Add metric int
  | SetTo metric int
  | Observe metric "string list" int

type_synonym metrics = "metric_call list"

text \<open>
  The names and the descriptions under which \<open>New\<close> registers the collectors, and the upper bounds of the
  buckets of a histogram, in thousandths.
\<close>

datatype buckets = NoBuckets | DefBuckets | Buckets "int list"

fun metricName :: "metric \<Rightarrow> string" where
  "metricName ConnectionsTotal = ''smtp_connections_total''"
| "metricName ConnectionsCurrent = ''smtp_connections_current''"
| "metricName ConnectionDuration = ''smtp_connection_duration_seconds''"
| "metricName TLSHandshakes = ''tls_handshakes_total''"
| "metricName TLSHandshakeErrors = ''tls_handshake_errors_total''"
| "metricName CertReloads = ''cert_reloads_total''"
| "metricName CertReloadErrors = ''cert_reload_errors_total''"
| "metricName AuthAttempts = ''smtp_auth_attempts_total''"
| "metricName AuthDuration = ''smtp_auth_duration_seconds''"
| "metricName MessagesAccepted = ''smtp_messages_accepted_total''"
| "metricName MessagesRejected = ''smtp_messages_rejected_total''"
| "metricName MessageSize = ''smtp_message_size_bytes''"
| "metricName StageTotal = ''pipeline_stage_total''"
| "metricName StageDuration = ''pipeline_stage_duration_seconds''"
| "metricName DedupChecks = ''dedup_checks_total''"
| "metricName DedupDuplicates = ''dedup_duplicates_total''"
| "metricName DKIMSigningTotal = ''dkim_signing_total''"
| "metricName DKIMSigningDuration = ''dkim_signing_duration_seconds''"
| "metricName DeliveryAttempts = ''delivery_attempts_total''"
| "metricName DeliveryDuration = ''delivery_duration_seconds''"
| "metricName DeliveryQueue = ''delivery_queue_length''"
| "metricName S3UploadTotal = ''s3_upload_total''"
| "metricName S3UploadDuration = ''s3_upload_duration_seconds''"
| "metricName ClickHouseEventsTotal = ''clickhouse_events_total''"
| "metricName ClickHouseBufferSize = ''clickhouse_buffer_size''"
| "metricName RateLimitHits = ''rate_limit_hits_total''"
| "metricName ErrorsTotal = ''errors_total''"
| "metricName BytesReceived = ''bytes_received_total''"
| "metricName BytesSent = ''bytes_sent_total''"

fun metricHelp :: "metric \<Rightarrow> string" where
  "metricHelp ConnectionsTotal = ''Total number of SMTP connections''"
| "metricHelp ConnectionsCurrent = ''Current number of active SMTP connections''"
| "metricHelp ConnectionDuration = ''SMTP connection duration in seconds''"
| "metricHelp TLSHandshakes = ''Total number of TLS handshakes''"
| "metricHelp TLSHandshakeErrors = ''Total number of TLS handshake errors''"
| "metricHelp CertReloads = ''Total number of certificate reloads''"
| "metricHelp CertReloadErrors = ''Total number of certificate reload errors''"
| "metricHelp AuthAttempts = ''Total number of authentication attempts''"
| "metricHelp AuthDuration = ''Authentication duration in seconds''"
| "metricHelp MessagesAccepted = ''Total number of messages accepted''"
| "metricHelp MessagesRejected = ''Total number of messages rejected''"
| "metricHelp MessageSize = ''Size of accepted messages in bytes''"
| "metricHelp StageTotal = ''Total number of messages processed through each pipeline stage''"
| "metricHelp StageDuration = ''Duration of each pipeline stage in seconds''"
| "metricHelp DedupChecks = ''Total number of deduplication checks performed''"
| "metricHelp DedupDuplicates = ''Total number of duplicate messages detected''"
| "metricHelp DKIMSigningTotal = ''Total number of DKIM signing operations''"
| "metricHelp DKIMSigningDuration = ''DKIM signing duration in seconds''"
| "metricHelp DeliveryAttempts = ''Total number of delivery attempts''"
| "metricHelp DeliveryDuration = ''Delivery duration in seconds''"
| "metricHelp DeliveryQueue = ''Current number of messages in delivery queue''"
| "metricHelp S3UploadTotal = ''Total number of S3 upload attempts''"
| "metricHelp S3UploadDuration = ''S3 upload duration in seconds''"
| "metricHelp ClickHouseEventsTotal = ''Total number of events sent to ClickHouse''"
| "metricHelp ClickHouseBufferSize = ''Current size of ClickHouse event buffer''"
| "metricHelp RateLimitHits = ''Total number of rate limit hits''"
| "metricHelp ErrorsTotal = ''Total number of errors by type''"
| "metricHelp BytesReceived = ''Total bytes received from clients''"
| "metricHelp BytesSent = ''Total bytes sent to recipients''"

fun metricBuckets :: "metric \<Rightarrow> buckets" where
  "metricBuckets ConnectionDuration = DefBuckets"
| "metricBuckets AuthDuration = Buckets [1, 5, 10, 25, 50, 100, 250, 500, 1000, 2500]"
| "metricBuckets MessageSize = Buckets [1024000, 10240000, 102400000, 1048576000, 10485760000, 52428800000]"
| "metricBuckets StageDuration = Buckets [1, 5, 10, 50, 100, 500, 1000, 5000, 10000]"
| "metricBuckets DKIMSigningDuration = Buckets [1, 5, 10, 50, 100]"
| "metricBuckets DeliveryDuration = Buckets [100, 500, 1000, 2000, 5000, 10000, 30000, 60000]"
| "metricBuckets S3UploadDuration = Buckets [100, 500, 1000, 2000, 5000, 10000, 30000]"
| "metricBuckets _ = NoBuckets"

definition allMetrics :: "metric list" where
  "allMetrics =
     [ConnectionsTotal, ConnectionsCurrent, ConnectionDuration, TLSHandshakes,
      TLSHandshakeErrors, CertReloads, CertReloadErrors, AuthAttempts, AuthDuration,
      MessagesAccepted, MessagesRejected, MessageSize, StageTotal, StageDuration,
      DedupChecks, DedupDuplicates, DKIMSigningTotal, DKIMSigningDuration, DeliveryAttempts,
      DeliveryDuration, DeliveryQueue, S3UploadTotal, S3UploadDuration,
      ClickHouseEventsTotal, ClickHouseBufferSize, RateLimitHits, ErrorsTotal,
      BytesReceived, BytesSent]"

text \<open>
  Registering: the registry is the list of the names taken; a name that is taken makes the client
  library panic (\<open>None\<close>).
\<close>

fun registerAll :: "metric list \<Rightarrow> string list \<Rightarrow> string list option" where
  "registerAll [] reg = Some reg"
| "registerAll (m # ms) reg =
     (if metricName m \<in> set reg then None else registerAll ms (reg @ [metricName m]))"

definition NewMetrics :: "string list \<Rightarrow> (metrics \<times> string list) option" where
  "NewMetrics reg = map_option (\<lambda>reg'. ([], reg')) (registerAll allMetrics reg)"

section \<open>The recording methods\<close>

definition RecordConnection :: "string \<Rightarrow> string \<Rightarrow> metrics \<Rightarrow> metrics" where
  "RecordConnection listener tlsMode ms =
     ms @ [Inc ConnectionsTotal [listener, tlsMode], Inc ConnectionsCurrent []]"

definition RecordConnectionClose :: "string \<Rightarrow> duration \<Rightarrow> metrics \<Rightarrow> metrics" where
  "RecordConnectionClose listener d ms =
     ms @ [Dec ConnectionsCurrent, Observe ConnectionDuration [listener] d]"

definition RecordAuthAttempt :: "string \<Rightarrow> string \<Rightarrow> duration \<Rightarrow> metrics \<Rightarrow> metrics" where
  "RecordAuthAttempt method result d ms =
     ms @ [Inc AuthAttempts [method, result], Observe AuthDuration [method] d]"

definition RecordMessageAccepted :: "string \<Rightarrow> int \<Rightarrow> metrics \<Rightarrow> metrics" where
  "RecordMessageAccepted user sz ms =
     ms @ [Inc MessagesAccepted [user], Observe MessageSize [user] sz, Add BytesReceived sz]"

definition RecordMessageRejected :: "string \<Rightarrow> metrics \<Rightarrow> metrics" where
  "RecordMessageRejected reason ms = ms @ [Inc MessagesRejected [reason]]"

definition RecordStage :: "string \<Rightarrow> duration \<Rightarrow> metrics \<Rightarrow> metrics" where
  "RecordStage stage d ms = ms @ [Inc StageTotal [stage], Observe StageDuration [stage] d]"

definition RecordDedupCheck :: "bool \<Rightarrow> metrics \<Rightarrow> metrics" where
  "RecordDedupCheck isDuplicate ms =
     (let ms1 = ms @ [Inc DedupChecks []]
      in if isDuplicate then ms1 @ [Inc DedupDuplicates []] else ms1)"

definition RecordDKIMSigning :: "string \<Rightarrow> string \<Rightarrow> duration \<Rightarrow> metrics \<Rightarrow> metrics" where
  "RecordDKIMSigning dmn result d ms =
     ms @ [Inc DKIMSigningTotal [dmn, result], Observe DKIMSigningDuration [] d]"

definition RecordDelivery :: "string \<Rightarrow> string \<Rightarrow> duration \<Rightarrow> metrics \<Rightarrow> metrics" where
  "RecordDelivery result mxDomain d ms =
     ms @ [Inc DeliveryAttempts [result], Observe DeliveryDuration [mxDomain] d]"

definition RecordS3Upload :: "string \<Rightarrow> duration \<Rightarrow> metrics \<Rightarrow> metrics" where
  "RecordS3Upload status d ms = ms @ [Inc S3UploadTotal [status], Observe S3UploadDuration [] d]"

definition RecordClickHouseEvent :: "string \<Rightarrow> metrics \<Rightarrow> metrics" where
  "RecordClickHouseEvent status ms = ms @ [Inc ClickHouseEventsTotal [status]]"

definition RecordRateLimitHit :: "string \<Rightarrow> string \<Rightarrow> metrics \<Rightarrow> metrics" where
  "RecordRateLimitHit limitType ident ms = ms @ [Inc RateLimitHits [limitType, ident]]"

definition RecordError :: "string \<Rightarrow> string \<Rightarrow> metrics \<Rightarrow> metrics" where
  "RecordError cmp errorType ms = ms @ [Inc ErrorsTotal [cmp, errorType]]"

definition SetDeliveryQueueSize :: "int \<Rightarrow> metrics \<Rightarrow> metrics" where
  "SetDeliveryQueueSize sz ms = ms @ [SetTo DeliveryQueue sz]"

definition SetClickHouseBufferSize :: "int \<Rightarrow> metrics \<Rightarrow> metrics" where
  "SetClickHouseBufferSize sz ms = ms @ [SetTo ClickHouseBufferSize sz]"

lemmas record_defs =
  RecordConnection_def RecordConnectionClose_def RecordAuthAttempt_def RecordMessageAccepted_def
  RecordMessageRejected_def RecordStage_def RecordDedupCheck_def RecordDKIMSigning_def
  RecordDelivery_def RecordS3Upload_def RecordClickHouseEvent_def RecordRateLimitHit_def
  RecordError_def SetDeliveryQueueSize_def SetClickHouseBufferSize_def

section \<open>What a call needs, and the values it leaves\<close>

text \<open>
  The client library panics when a collector is given another number of label values than it was
  registered with, and when a counter is decreased. A well-formed call does neither.
\<close>

fun call_ok :: "metric_call \<Rightarrow> bool" where
  "call_ok (Inc m ls) \<longleftrightarrow> metricKind m \<noteq> Histogram \<and> length ls = length (metricLabels m)"
| "call_ok (Dec m) \<longleftrightarrow> metricKind m = Gauge \<and> metricLabels m = []"
| "call_ok (Add m n) \<longleftrightarrow> metricLabels m = [] \<and> (metricKind m = Counter \<and> 0 \<le> n \<or> metricKind m = Gauge)"
| "call_ok (SetTo m n) \<longleftrightarrow> metricKind m = Gauge \<and> metricLabels m = []"
| "call_ok (Observe m ls v) \<longleftrightarrow> metricKind m = Histogram \<and> length ls = length (metricLabels m)"

definition metrics_ok :: "metrics \<Rightarrow> bool" where
  "metrics_ok ms \<longleftrightarrow> list_all call_ok ms"

lemma metrics_ok_append [simp]: "metrics_ok (ms @ ns) \<longleftrightarrow> metrics_ok ms \<and> list_all call_ok ns"
  by (simp add: metrics_ok_def)

definition counterVal :: "metrics \<Rightarrow> metric \<Rightarrow> string list \<Rightarrow> nat" where
  "counterVal ms m ls = count_list ms (Inc m ls)"

fun gaugeStep :: "metric \<Rightarrow> int \<Rightarrow> metric_call \<Rightarrow> int" where
  "gaugeStep g v (Inc m ls) = (if m = g then v + 1 else v)"
| "gaugeStep g v (Dec m) = (if m = g then v - 1 else v)"
| "gaugeStep g v (Add m n) = (if m = g then v + n else v)"
| "gaugeStep g v (SetTo m n) = (if m = g then n else v)"
| "gaugeStep g v (Observe m ls n) = v"

definition gaugeVal :: "metrics \<Rightarrow> metric \<Rightarrow> int" where
  "gaugeVal ms g = foldl (gaugeStep g) 0 ms"

lemma counterVal_append [simp]:
  "counterVal (ms @ ns) m ls = counterVal ms m ls + count_list ns (Inc m ls)"
  by (simp add: counterVal_def)

lemma gaugeVal_append [simp]: "gaugeVal (ms @ ns) g = foldl (gaugeStep g) (gaugeVal ms g) ns"
  by (simp add: gaugeVal_def)

text \<open>
  The recording methods as one type of events, and the machine that runs them.
\<close>

datatype record_op =
    R_Connection string string | R_ConnectionClose string duration
  | R_AuthAttempt string string duration | R_MessageAccepted string int
  | R_MessageRejected string | R_Stage string duration | R_DedupCheck bool
  | R_DKIMSigning string string duration | R_Delivery string string duration
  | R_S3Upload string duration | R_ClickHouseEvent string | R_RateLimitHit string string
  | R_Error string string | R_DeliveryQueueSize int | R_ClickHouseBufferSize int

fun recordOp :: "record_op \<Rightarrow> metrics \<Rightarrow> metrics" where
  "recordOp (R_Connection l t) = RecordConnection l t"
| "recordOp (R_ConnectionClose l d) = RecordConnectionClose l d"
| "recordOp (R_AuthAttempt m r d) = RecordAuthAttempt m r d"
| "recordOp (R_MessageAccepted u n) = RecordMessageAccepted u n"
| "recordOp (R_MessageRejected r) = RecordMessageRejected r"
| "recordOp (R_Stage s d) = RecordStage s d"
| "recordOp (R_DedupCheck b) = RecordDedupCheck b"
| "recordOp (R_DKIMSigning dm r d) = RecordDKIMSigning dm r d"
| "recordOp (R_Delivery r mx d) = RecordDelivery r mx d"
| "recordOp (R_S3Upload s d) = RecordS3Upload s d"
| "recordOp (R_ClickHouseEvent s) = RecordClickHouseEvent s"
| "recordOp (R_RateLimitHit t i) = RecordRateLimitHit t i"
| "recordOp (R_Error c e) = RecordError c e"
| "recordOp (R_DeliveryQueueSize n) = SetDeliveryQueueSize n"
| "recordOp (R_ClickHouseBufferSize n) = SetClickHouseBufferSize n"

fun size_nonneg :: "record_op \<Rightarrow> bool" where
  "size_nonneg (R_MessageAccepted u n) \<longleftrightarrow> 0 \<le> n"
| "size_nonneg _ \<longleftrightarrow> True"

lemma record_ok: "metrics_ok ms \<Longrightarrow> size_nonneg r \<Longrightarrow> metrics_ok (recordOp r ms)"
  by (cases r) (simp_all add: record_defs Let_def)

lemma dedup_counts: "counterVal ms DedupDuplicates [] \<le> counterVal ms DedupChecks [] \<Longrightarrow>
  counterVal (recordOp r ms) DedupDuplicates [] \<le> counterVal (recordOp r ms) DedupChecks []"
  by (cases r) (simp_all add: record_defs Let_def)

section \<open>Properties\<close>

lemma registerAll_distinct:
  "distinct (reg @ map metricName ms) \<Longrightarrow> registerAll ms reg = Some (reg @ map metricName ms)"
  by (induction ms arbitrary: reg) auto

lemma allMetrics_all: "set allMetrics = UNIV"
proof -
  have "m \<in> set allMetrics" for m by (cases m) (simp_all add: allMetrics_def)
  then show ?thesis by blast
qed

lemma metricNames_distinct: "distinct (map metricName allMetrics)"
  by (simp add: allMetrics_def)

lemma NewMetrics_fresh: "NewMetrics [] = Some ([], map metricName allMetrics)"
  using registerAll_distinct [of "[]" allMetrics] metricNames_distinct by (simp add: NewMetrics_def)

lemma NewMetrics_again: "NewMetrics (map metricName allMetrics) = None"
  by (simp add: NewMetrics_def allMetrics_def)

text \<open>C40: On a fresh registry the collectors are created: their names are different, so that none is refused, and
  all of them are registered. Whatever is recorded then, in any order, uses each collector as it was
  registered: with as many values as it has labels, counters only increased and only histograms
  observed; and there are never more duplicates than checks. The sizes of messages must not be
  negative.\<close>

theorem metrics_typed:
  assumes "list_all size_nonneg rs"
  shows "case NewMetrics [] of
      None \<Rightarrow> False
    | Some (ms, reg) \<Rightarrow>
        distinct reg \<and> set reg = range metricName \<and> inj metricName \<and>
        metrics_ok (run (\<lambda>ms r. recordOp r ms) ms rs) \<and>
        counterVal (run (\<lambda>ms r. recordOp r ms) ms rs) DedupDuplicates [] \<le>
          counterVal (run (\<lambda>ms r. recordOp r ms) ms rs) DedupChecks []"
proof -
  have "list_all size_nonneg rs \<Longrightarrow> metrics_ok ms \<Longrightarrow>
      metrics_ok (run (\<lambda>ms r. recordOp r ms) ms rs)" for ms
    by (induction rs arbitrary: ms) (auto intro: record_ok)
  moreover have "counterVal ms DedupDuplicates [] \<le> counterVal ms DedupChecks [] \<Longrightarrow>
      counterVal (run (\<lambda>ms r. recordOp r ms) ms rs) DedupDuplicates [] \<le>
        counterVal (run (\<lambda>ms r. recordOp r ms) ms rs) DedupChecks []" for ms
    by (induction rs arbitrary: ms) (auto intro: dedup_counts)
  moreover have "inj metricName"
    using metricNames_distinct by (metis allMetrics_all distinct_map)
  ultimately show ?thesis
    using assms allMetrics_all metricNames_distinct by (simp add: NewMetrics_fresh metrics_ok_def counterVal_def)
qed

theorem metrics_typed_witness:
  "case NewMetrics [] of
     None \<Rightarrow> False
   | Some (ms, reg) \<Rightarrow>
       metrics_ok (run (\<lambda>ms r. recordOp r ms) ms [R_Connection ''25'' ''tls'', R_MessageAccepted ''u'' 5, R_DedupCheck True])"
  using metrics_typed [of "[R_Connection ''25'' ''tls'', R_MessageAccepted ''u'' 5, R_DedupCheck True]"]
  by (simp add: NewMetrics_fresh)

end
