(* ===== verification/RedisClient.thy ===== *)
theory RedisClient
  imports Metrics "HOL-Library.Sublist"
begin

text \<open>
  The Redis server, a service outside the repository: a parameter \<open>R\<close> of every definition that uses
  it. It takes the commands of one pipeline and its state to the replies and the next state; a
  single command is a pipeline of one. What the program relies on is stated as predicates on \<open>R\<close>
  that describe the documented commands, and a small server in memory shows they can hold.
\<close>

section \<open>Commands and replies\<close>

datatype redis_cmd =
    CGet string | CSet string string duration | CIncr string | CIncrBy string int
  | CExpire string duration | CDel "string list" | CKeys string | CExists string

datatype redis_error = RedisDown | RedisFailed

text \<open>\<open>RNil\<close> is the reply the client library turns into the error \<open>redis.Nil\<close>.\<close>

datatype reply = RErr redis_error | RNil | ROk | RInt int | RStr string | RStrs "string list"

type_synonym 'r redis = "redis_cmd list \<Rightarrow> 'r \<Rightarrow> reply list \<times> 'r"

definition redis1 :: "'r redis \<Rightarrow> redis_cmd \<Rightarrow> 'r \<Rightarrow> reply \<times> 'r" where
  "redis1 R c r = (case R [c] r of (x # _, r') \<Rightarrow> (x, r') | ([], r') \<Rightarrow> (RErr RedisFailed, r'))"

text \<open>The error \<open>Pipeline.Exec\<close> returns: the first of the commands' errors.\<close>

fun firstErr :: "reply list \<Rightarrow> reply option" where
  "firstErr [] = None"
| "firstErr (RErr e # rs) = Some (RErr e)"
| "firstErr (RNil # rs) = Some RNil"
| "firstErr (_ # rs) = firstErr rs"

text \<open>The part of the program's state every component shares: Redis and the metrics.\<close>

record 'r world =
  rds :: 'r
  mets :: metrics

definition record_metric :: "(metrics \<Rightarrow> metrics) \<Rightarrow> ('r, 'z) world_scheme \<Rightarrow> ('r, 'z) world_scheme" where
  "record_metric f w = w\<lparr>mets := f (mets w)\<rparr>"

definition set_rds :: "'r \<Rightarrow> ('r, 'z) world_scheme \<Rightarrow> ('r, 'z) world_scheme" where
  "set_rds r w = w\<lparr>rds := r\<rparr>"

lemma world_simps [simp]:
  "rds (record_metric f w) = rds w" "mets (record_metric f w) = f (mets w)"
  "rds (set_rds r w) = r" "mets (set_rds r w) = mets w"
  by (simp_all add: record_metric_def set_rds_def)

section \<open>What the program relies on\<close>

text \<open>
  \<open>val r k\<close> is the number under the key \<open>k\<close>, 0 when there is none. A server that answers: \<open>INCR\<close>
  adds one, \<open>INCRBY\<close> adds its argument, both tell the new value and leave the other keys, \<open>EXPIRE\<close> changes no
  value, \<open>GET\<close> tells the value as decimal digits or says that there is none. Keys do not expire
  between the commands considered (the expiry of a counter is the end of its window).
\<close>

definition redis_counts :: "'r redis \<Rightarrow> ('r \<Rightarrow> string \<Rightarrow> int) \<Rightarrow> bool" where
  "redis_counts R val \<longleftrightarrow>
     (\<forall>k d r. \<exists>x r'. R [CIncr k, CExpire k d] r = ([RInt (val r k + 1), RInt x], r') \<and>
        val r' = (val r)(k := val r k + 1)) \<and>
     (\<forall>k n d r. \<exists>x r'. R [CIncrBy k n, CExpire k d] r = ([RInt (val r k + n), RInt x], r') \<and>
        val r' = (val r)(k := val r k + n)) \<and>
     (\<forall>k r. (fst (redis1 R (CGet k) r) = RStr (showInt (val r k)) \<or>
             fst (redis1 R (CGet k) r) = RNil \<and> val r k = 0) \<and>
        val (snd (redis1 R (CGet k) r)) = val r)"

text \<open>A server that cannot be reached answers every command with an error and does nothing.\<close>

definition redis_down :: "'r redis \<Rightarrow> bool" where
  "redis_down R \<longleftrightarrow> (\<forall>cs r. R cs r = (map (\<lambda>_. RErr RedisDown) cs, r))"

text \<open>
  The patterns of \<open>KEYS\<close> as far as they use the star and the question mark; a pattern with a bracket
  or a backslash means something else.
\<close>

fun globMatch :: "string \<Rightarrow> string \<Rightarrow> bool" where
  "globMatch [] s \<longleftrightarrow> s = []"
| "globMatch (c # p) s \<longleftrightarrow>
     (if c = CHR ''*'' then
        globMatch p s \<or> (case s of [] \<Rightarrow> False | x # t \<Rightarrow> globMatch (c # p) t)
      else
        (case s of [] \<Rightarrow> False | x # t \<Rightarrow> (c = CHR ''?'' \<or> c = x) \<and> globMatch p t))"

declare globMatch.simps [simp del]

definition simpleGlob :: "string \<Rightarrow> bool" where
  "simpleGlob p \<longleftrightarrow> CHR ''['' \<notin> set p \<and> CHR 0x5C \<notin> set p"

text \<open>
  \<open>look r k\<close> is the string under the key \<open>k\<close>. A server that answers: \<open>SET\<close>, \<open>GET\<close>, \<open>DEL\<close>,
  \<open>EXISTS\<close> and \<open>KEYS\<close> as documented.
\<close>

definition redis_stores :: "'r redis \<Rightarrow> ('r \<Rightarrow> string \<Rightarrow> string option) \<Rightarrow> bool" where
  "redis_stores R look \<longleftrightarrow>
     (\<forall>k v d r. fst (redis1 R (CSet k v d) r) = ROk \<and>
        look (snd (redis1 R (CSet k v d) r)) = (look r)(k \<mapsto> v)) \<and>
     (\<forall>k r. fst (redis1 R (CGet k) r) = (case look r k of None \<Rightarrow> RNil | Some v \<Rightarrow> RStr v) \<and>
        look (snd (redis1 R (CGet k) r)) = look r) \<and>
     (\<forall>ks r. (\<exists>n. fst (redis1 R (CDel ks) r) = RInt n) \<and>
        look (snd (redis1 R (CDel ks) r)) = (\<lambda>k. if k \<in> set ks then None else look r k)) \<and>
     (\<forall>k r. fst (redis1 R (CExists k) r) = RInt (if look r k = None then 0 else 1) \<and>
        look (snd (redis1 R (CExists k) r)) = look r) \<and>
     (\<forall>p r. simpleGlob p \<longrightarrow>
        (\<exists>ks. fst (redis1 R (CKeys p) r) = RStrs ks \<and> set ks = {k. look r k \<noteq> None \<and> globMatch p k}) \<and>
        look (snd (redis1 R (CKeys p) r)) = look r)"

section \<open>A server in memory\<close>

text \<open>
  Strings under keys and no expiry; a counter is the number its string denotes.
\<close>

type_synonym mem_redis = "(string \<times> string) list"

definition memInt :: "mem_redis \<Rightarrow> string \<Rightarrow> int" where
  "memInt r k = (case map_of r k of None \<Rightarrow> 0 | Some v \<Rightarrow> (case sscanfD v of None \<Rightarrow> 0 | Some i \<Rightarrow> i))"

fun mem1 :: "redis_cmd \<Rightarrow> mem_redis \<Rightarrow> reply \<times> mem_redis" where
  "mem1 (CGet k) r = ((case map_of r k of None \<Rightarrow> RNil | Some v \<Rightarrow> RStr v), r)"
| "mem1 (CSet k v d) r = (ROk, AList.update k v r)"
| "mem1 (CIncr k) r = (RInt (memInt r k + 1), AList.update k (showInt (memInt r k + 1)) r)"
| "mem1 (CIncrBy k n) r = (RInt (memInt r k + n), AList.update k (showInt (memInt r k + n)) r)"
| "mem1 (CExpire k d) r = (RInt (if map_of r k = None then 0 else 1), r)"
| "mem1 (CDel ks) r =
     (RInt (int (length (filter (\<lambda>k. map_of r k \<noteq> None) (remdups ks)))), fold AList.delete ks r)"
| "mem1 (CKeys p) r = (RStrs (filter (globMatch p) (remdups (map fst r))), r)"
| "mem1 (CExists k) r = (RInt (if map_of r k = None then 0 else 1), r)"

fun memRedis :: "mem_redis redis" where
  "memRedis [] r = ([], r)"
| "memRedis (c # cs) r =
     (case mem1 c r of (x, r1) \<Rightarrow> (case memRedis cs r1 of (xs, r2) \<Rightarrow> (x # xs, r2)))"

definition downRedis :: "'r redis" where
  "downRedis cs r = (map (\<lambda>_. RErr RedisDown) cs, r)"

lemma redis_down_downRedis [simp]: "redis_down downRedis"
  by (simp add: redis_down_def downRedis_def)

lemma redis1_memRedis [simp]: "redis1 memRedis c r = mem1 c r"
  by (cases "mem1 c r") (simp add: redis1_def)

lemma redis_down_redis1: "redis_down R \<Longrightarrow> redis1 R c r = (RErr RedisDown, r)"
  by (simp add: redis_down_def redis1_def)

lemma map_of_fold_delete: "map_of (fold AList.delete ks r) k = (if k \<in> set ks then None else map_of r k)"
  by (induction ks arbitrary: r) auto

lemma redis_stores_keys:
  assumes "redis_stores R look" "simpleGlob p"
  obtains ks r' where "redis1 R (CKeys p) r = (RStrs ks, r')"
    "set ks = {k. look r k \<noteq> None \<and> globMatch p k}" "look r' = look r"
proof -
  have "(\<exists>ks. fst (redis1 R (CKeys p) r) = RStrs ks \<and> set ks = {k. look r k \<noteq> None \<and> globMatch p k}) \<and>
      look (snd (redis1 R (CKeys p) r)) = look r"
    using assms unfolding redis_stores_def by blast
  then show ?thesis using that by (cases "redis1 R (CKeys p) r") auto
qed

lemma redis_stores_del:
  assumes "redis_stores R look"
  obtains n r' where "redis1 R (CDel ks) r = (RInt n, r')"
    "look r' = (\<lambda>k. if k \<in> set ks then None else look r k)"
proof -
  have "(\<exists>n. fst (redis1 R (CDel ks) r) = RInt n) \<and>
      look (snd (redis1 R (CDel ks) r)) = (\<lambda>k. if k \<in> set ks then None else look r k)"
    using assms unfolding redis_stores_def by blast
  then show ?thesis using that by (cases "redis1 R (CDel ks) r") auto
qed

lemma redis_stores_memRedis: "redis_stores memRedis map_of"
  by (auto simp: redis_stores_def map_of_fold_delete mem_keys_iff)

text \<open>A pattern that ends in its only star.\<close>

lemma globMatch_star: "globMatch ''*'' s"
  by (induction s) (simp_all add: globMatch.simps)

lemma globMatch_prefix:
  "CHR ''*'' \<notin> set q \<Longrightarrow> CHR ''?'' \<notin> set q \<Longrightarrow> globMatch (q @ ''*'') s \<longleftrightarrow> prefix q s"
proof (induction q arbitrary: s)
  case Nil
  then show ?case using globMatch_star by simp
next
  case (Cons c q)
  then show ?case by (cases s) (auto simp: globMatch.simps(2) [of c])
qed

lemma globMatch_starI: "globMatch p t \<Longrightarrow> globMatch (CHR ''*'' # p) (u @ t)"
proof (induction u)
  case Nil
  then show ?case by (cases t) (simp_all add: globMatch.simps)
next
  case (Cons x u)
  then show ?case by (simp add: globMatch.simps(2) [of "CHR ''*''"])
qed

text \<open>A server that counts with unbounded integers, for the laws of counting.\<close>

type_synonym count_redis = "(string \<times> int) list"

definition cval :: "count_redis \<Rightarrow> string \<Rightarrow> int" where
  "cval r k = (case map_of r k of None \<Rightarrow> 0 | Some i \<Rightarrow> i)"

fun countRedis :: "count_redis redis" where
  "countRedis [] r = ([], r)"
| "countRedis (CIncr k # cs) r =
     (case countRedis cs (AList.update k (cval r k + 1) r) of
        (xs, r') \<Rightarrow> (RInt (cval r k + 1) # xs, r'))"
| "countRedis (CIncrBy k n # cs) r =
     (case countRedis cs (AList.update k (cval r k + n) r) of
        (xs, r') \<Rightarrow> (RInt (cval r k + n) # xs, r'))"
| "countRedis (CGet k # cs) r =
     (case countRedis cs r of
        (xs, r') \<Rightarrow> ((case map_of r k of None \<Rightarrow> RNil | Some i \<Rightarrow> RStr (showInt i)) # xs, r'))"
| "countRedis (CExpire k d # cs) r =
     (case countRedis cs r of (xs, r') \<Rightarrow> (RInt (if map_of r k = None then 0 else 1) # xs, r'))"
| "countRedis (_ # cs) r = (case countRedis cs r of (xs, r') \<Rightarrow> (RErr RedisFailed # xs, r'))"

lemma cval_update: "cval (AList.update k i r) = (cval r)(k := i)"
  by (rule ext) (simp add: cval_def)

lemma redis_counts_countRedis: "redis_counts countRedis cval"
  by (auto simp: redis_counts_def cval_update redis1_def split: option.split)
    (auto simp: cval_def split: option.splits)

lemma redis_counts_hit:
  assumes "redis_counts R val"
  obtains x r' where "R [CIncr k, CExpire k d] r = ([RInt (val r k + 1), RInt x], r')"
    "val r' = (val r)(k := val r k + 1)"
  using assms unfolding redis_counts_def by blast

lemma redis_counts_hitBy:
  assumes "redis_counts R val"
  obtains x r' where "R [CIncrBy k n, CExpire k d] r = ([RInt (val r k + n), RInt x], r')"
    "val r' = (val r)(k := val r k + n)"
  using assms unfolding redis_counts_def by blast

lemma redis_counts_get:
  assumes "redis_counts R val" "redis1 R (CGet k) r = (x, r')"
  shows "(x = RStr (showInt (val r k)) \<or> x = RNil \<and> val r k = 0) \<and> val r' = val r"
  using assms unfolding redis_counts_def by (metis fst_conv snd_conv)

end
