(* ===== verification/RateLimit.thy ===== *)
theory RateLimit
  imports RedisClient
begin

text \<open>
  \<open>internal/ratelimit/ratelimit.go\<close>: limits per user, per IP address and for the whole daemon.
  Counters are kept in Redis, in memory when Redis fails. Logging is left out; the mutexes make each
  operation (but not two of them) one step, except where \<open>CheckIPConnection\<close> lets go of the lock
  (see \<open>ConnectionCounter\<close>).
\<close>

section \<open>The limiter\<close>

record bucket =
  bcount :: int
  resetTime :: time

record limits =
  userMessagesPerHour :: int
  userRecipientsPerHour :: int
  ipConnectionsPerMinute :: int
  ipFailedAuthPerHour :: int
  globalMessagesPerSecond :: int
  globalConcurrentConns :: int

text \<open>\<open>localBuckets\<close> is a Go map: a list of its entries in the order in which a loop visits them.\<close>

record Limiter =
  limitsOf :: limits
  localBuckets :: "(string \<times> bucket) list"
  currentConnections :: int

record 'r lworld = "'r world" +
  limiter :: Limiter

definition NewLimiter :: "limits \<Rightarrow> Limiter" where
  "NewLimiter c = \<lparr>limitsOf = c, localBuckets = [], currentConnections = 0\<rparr>"

datatype limit_error =
    GlobalConnectionLimit | IPConnectionRate string | FailedAuthRate string | MessageRate string
  | RecipientRate string | GlobalMessageRate

section \<open>Counting\<close>

definition checkRedisLimit ::
  "'r redis \<Rightarrow> string \<Rightarrow> int \<Rightarrow> duration \<Rightarrow> 'r \<Rightarrow> (reply + bool) \<times> 'r" where
  "checkRedisLimit R key limit window r =
     (case R [CIncr key, CExpire key window] r of
        (rs, r') \<Rightarrow>
          (case firstErr rs of
             Some e \<Rightarrow> (Inl e, r')
           | None \<Rightarrow>
               (case rs of
                  RInt c # _ \<Rightarrow> (Inr (c \<le> limit), r')
                | _ \<Rightarrow> (Inl (RErr RedisFailed), r'))))"

definition freshBucket :: "time \<Rightarrow> duration \<Rightarrow> bucket" where
  "freshBucket now window = \<lparr>bcount = 0, resetTime = now + window\<rparr>"

definition currentBucket :: "time \<Rightarrow> duration \<Rightarrow> bucket option \<Rightarrow> bucket" where
  "currentBucket now window b =
     (case b of
        None \<Rightarrow> freshBucket now window
      | Some b \<Rightarrow> if resetTime b < now then freshBucket now window else b)"

definition checkLocalLimit ::
  "time \<Rightarrow> string \<Rightarrow> int \<Rightarrow> duration \<Rightarrow> Limiter \<Rightarrow> bool \<times> Limiter" where
  "checkLocalLimit now key limit window l =
     (let b = currentBucket now window (map_of (localBuckets l) key);
          b' = b\<lparr>bcount := wrap64 (bcount b + 1)\<rparr>
      in (bcount b' \<le> limit, l\<lparr>localBuckets := AList.update key b' (localBuckets l)\<rparr>))"

definition cleanupLocalBuckets :: "time \<Rightarrow> Limiter \<Rightarrow> Limiter" where
  "cleanupLocalBuckets now l =
     l\<lparr>localBuckets := filter (\<lambda>(k, b). \<not> resetTime b + 5 * Minute < now) (localBuckets l)\<rparr>"

text \<open>\<open>StartCleanupWorker\<close>: every five minutes, until it is told to stop.\<close>

datatype limit_tick = LimitTick time | LimitStop

fun limitCleanupWorker :: "limit_tick list \<Rightarrow> Limiter \<Rightarrow> Limiter" where
  "limitCleanupWorker [] l = l"
| "limitCleanupWorker (LimitStop # ts) l = l"
| "limitCleanupWorker (LimitTick now # ts) l = limitCleanupWorker ts (cleanupLocalBuckets now l)"

text \<open>Redis first; the count in memory when Redis gives an error.\<close>

definition checkLimit ::
  "'r redis \<Rightarrow> time \<Rightarrow> string \<Rightarrow> int \<Rightarrow> duration \<Rightarrow> ('r, 'z) lworld_scheme \<Rightarrow>
   bool \<times> ('r, 'z) lworld_scheme" where
  "checkLimit R now key limit window w =
     (case checkRedisLimit R key limit window (rds w) of
        (Inr allowed, r') \<Rightarrow> (allowed, w\<lparr>rds := r'\<rparr>)
      | (Inl e, r') \<Rightarrow>
          (case checkLocalLimit now key limit window (limiter w) of
             (allowed, l') \<Rightarrow> (allowed, w\<lparr>rds := r', limiter := l'\<rparr>)))"

section \<open>The checks\<close>

definition ipConnKey :: "string \<Rightarrow> string" where "ipConnKey ip = ''ratelimit:ip:conn:'' @ ip"
definition ipAuthKey :: "string \<Rightarrow> string" where "ipAuthKey ip = ''ratelimit:ip:auth:'' @ ip"
definition userMsgKey :: "string \<Rightarrow> string" where "userMsgKey u = ''ratelimit:user:msg:'' @ u"
definition userRcptKey :: "string \<Rightarrow> string" where "userRcptKey u = ''ratelimit:user:rcpt:'' @ u"
definition globalMsgKey :: string where "globalMsgKey = ''ratelimit:global:msg''"

definition CheckIPConnection ::
  "'r redis \<Rightarrow> time \<Rightarrow> string \<Rightarrow> ('r, 'z) lworld_scheme \<Rightarrow>
   limit_error option \<times> ('r, 'z) lworld_scheme" where
  "CheckIPConnection R now ip w =
     (if globalConcurrentConns (limitsOf (limiter w)) \<le> currentConnections (limiter w) then
        (Some GlobalConnectionLimit,
         record_metric (RecordRateLimitHit ''global'' ''concurrent_connections'') w)
      else
        (case checkLimit R now (ipConnKey ip) (ipConnectionsPerMinute (limitsOf (limiter w))) Minute w of
           (True, w') \<Rightarrow> (None, w')
         | (False, w') \<Rightarrow>
             (Some (IPConnectionRate ip), record_metric (RecordRateLimitHit ''ip'' ip) w')))"

definition IncrementConnection :: "Limiter \<Rightarrow> Limiter" where
  "IncrementConnection l = l\<lparr>currentConnections := wrap64 (currentConnections l + 1)\<rparr>"

definition DecrementConnection :: "Limiter \<Rightarrow> Limiter" where
  "DecrementConnection l = l\<lparr>currentConnections := wrap64 (currentConnections l - 1)\<rparr>"

definition GetCurrentConnections :: "Limiter \<Rightarrow> int" where
  "GetCurrentConnections l = currentConnections l"

definition CheckIPFailedAuth ::
  "'r redis \<Rightarrow> time \<Rightarrow> string \<Rightarrow> ('r, 'z) lworld_scheme \<Rightarrow>
   limit_error option \<times> ('r, 'z) lworld_scheme" where
  "CheckIPFailedAuth R now ip w =
     (case checkLimit R now (ipAuthKey ip) (ipFailedAuthPerHour (limitsOf (limiter w))) Hour w of
        (True, w') \<Rightarrow> (None, w')
      | (False, w') \<Rightarrow>
          (Some (FailedAuthRate ip), record_metric (RecordRateLimitHit ''ip_auth'' ip) w'))"

definition CheckUserMessages ::
  "'r redis \<Rightarrow> time \<Rightarrow> string \<Rightarrow> ('r, 'z) lworld_scheme \<Rightarrow>
   limit_error option \<times> ('r, 'z) lworld_scheme" where
  "CheckUserMessages R now user w =
     (case checkLimit R now (userMsgKey user) (userMessagesPerHour (limitsOf (limiter w))) Hour w of
        (True, w') \<Rightarrow> (None, w')
      | (False, w') \<Rightarrow>
          (Some (MessageRate user), record_metric (RecordRateLimitHit ''user_messages'' user) w'))"

definition CheckGlobalMessages ::
  "'r redis \<Rightarrow> time \<Rightarrow> ('r, 'z) lworld_scheme \<Rightarrow>
   limit_error option \<times> ('r, 'z) lworld_scheme" where
  "CheckGlobalMessages R now w =
     (case checkLimit R now globalMsgKey (globalMessagesPerSecond (limitsOf (limiter w))) Second w of
        (True, w') \<Rightarrow> (None, w')
      | (False, w') \<Rightarrow>
          (Some GlobalMessageRate, record_metric (RecordRateLimitHit ''global'' ''messages'') w'))"

text \<open>
  The recipients are counted in Redis only, read first and added after, in two round trips without
  a lock: other calls come in between (see \<open>RecipientCounter\<close>). That adding fails is only logged.
\<close>

definition currentCount :: "reply \<Rightarrow> int" where
  "currentCount x = (case x of RStr s \<Rightarrow> (case sscanfD s of None \<Rightarrow> 0 | Some i \<Rightarrow> i) | _ \<Rightarrow> 0)"

definition recipientRead ::
  "'r redis \<Rightarrow> string \<Rightarrow> int \<Rightarrow> ('r, 'z) lworld_scheme \<Rightarrow>
   limit_error option \<times> ('r, 'z) lworld_scheme" where
  "recipientRead R user cnt w =
     (case redis1 R (CGet (userRcptKey user)) (rds w) of
        (x, r1) \<Rightarrow>
          if userRecipientsPerHour (limitsOf (limiter w)) < wrap64 (currentCount x + cnt) then
            (Some (RecipientRate user),
             record_metric (RecordRateLimitHit ''user_recipients'' user) (w\<lparr>rds := r1\<rparr>))
          else (None, w\<lparr>rds := r1\<rparr>))"

definition recipientAdd :: "'r redis \<Rightarrow> string \<Rightarrow> int \<Rightarrow> ('r, 'z) lworld_scheme \<Rightarrow> ('r, 'z) lworld_scheme" where
  "recipientAdd R user cnt w =
     w\<lparr>rds := snd (R [CIncrBy (userRcptKey user) cnt, CExpire (userRcptKey user) Hour] (rds w))\<rparr>"

definition CheckUserRecipients ::
  "'r redis \<Rightarrow> string \<Rightarrow> int \<Rightarrow> ('r, 'z) lworld_scheme \<Rightarrow>
   limit_error option \<times> ('r, 'z) lworld_scheme" where
  "CheckUserRecipients R user cnt w =
     (case recipientRead R user cnt w of
        (Some e, w1) \<Rightarrow> (Some e, w1)
      | (None, w1) \<Rightarrow> (None, recipientAdd R user cnt w1))"

lemmas recipient_defs = CheckUserRecipients_def recipientRead_def recipientAdd_def

lemmas limit_check_defs =
  CheckIPConnection_def CheckIPFailedAuth_def CheckUserMessages_def CheckGlobalMessages_def
  recipient_defs

end
