(* ===== verification/RateLimitLaws.thy ===== *)
theory RateLimitLaws
  imports RateLimit
begin

text \<open>
  What the limits guarantee: the number of calls a window lets through, with the counters in memory
  and in Redis; that cleaning up expired counters changes no answer; what each check leaves alone.
\<close>

section \<open>Frames\<close>

lemma checkLocalLimit_frame:
  "checkLocalLimit now k n d l = (a, l') \<Longrightarrow>
     currentConnections l' = currentConnections l \<and> limitsOf l' = limitsOf l"
  by (auto simp: checkLocalLimit_def Let_def)

lemma checkLimit_frame:
  "checkLimit R now k n d w = (a, w') \<Longrightarrow>
     currentConnections (limiter w') = currentConnections (limiter w) \<and>
     limitsOf (limiter w') = limitsOf (limiter w) \<and> mets w' = mets w \<and> lworld.more w' = lworld.more w"
  by (auto simp: checkLimit_def split: prod.splits sum.splits dest!: checkLocalLimit_frame)

lemma limiter_record_metric [simp]:
  "limiter (record_metric f w) = limiter w" "lworld.more (record_metric f w) = lworld.more w"
  by (simp_all add: record_metric_def)

definition check_frame :: "('r, 'z) lworld_scheme \<Rightarrow> ('r, 'z) lworld_scheme \<Rightarrow> bool" where
  "check_frame w w' \<longleftrightarrow>
     currentConnections (limiter w') = currentConnections (limiter w) \<and>
     limitsOf (limiter w') = limitsOf (limiter w) \<and> lworld.more w' = lworld.more w"

lemma CheckIPConnection_frame: "CheckIPConnection R now ip w = (e, w') \<Longrightarrow> check_frame w w'"
  by (auto simp: CheckIPConnection_def check_frame_def split: prod.splits bool.splits if_splits
      dest!: checkLimit_frame)

lemma CheckIPFailedAuth_frame: "CheckIPFailedAuth R now ip w = (e, w') \<Longrightarrow> check_frame w w'"
  by (auto simp: CheckIPFailedAuth_def check_frame_def split: prod.splits bool.splits
      dest!: checkLimit_frame)

lemma CheckUserMessages_frame: "CheckUserMessages R now u w = (e, w') \<Longrightarrow> check_frame w w'"
  by (auto simp: CheckUserMessages_def check_frame_def split: prod.splits bool.splits
      dest!: checkLimit_frame)

lemma CheckGlobalMessages_frame: "CheckGlobalMessages R now w = (e, w') \<Longrightarrow> check_frame w w'"
  by (auto simp: CheckGlobalMessages_def check_frame_def split: prod.splits bool.splits
      dest!: checkLimit_frame)

lemma CheckUserRecipients_frame: "CheckUserRecipients R u n w = (e, w') \<Longrightarrow> check_frame w w'"
  by (auto simp: recipient_defs check_frame_def split: prod.splits if_splits)

section \<open>The counters in memory\<close>

text \<open>The answers of a list of calls for one key, at the given times.\<close>

fun localCalls :: "string \<Rightarrow> int \<Rightarrow> duration \<Rightarrow> time list \<Rightarrow> Limiter \<Rightarrow> bool list" where
  "localCalls k n d [] l = []"
| "localCalls k n d (t # ts) l =
     (case checkLocalLimit t k n d l of (a, l') \<Rightarrow> a # localCalls k n d ts l')"

lemma localCalls_window:
  assumes "map_of (localBuckets l) k = Some b" "\<forall>t \<in> set ts. t \<le> resetTime b"
    and "0 \<le> bcount b" "bcount b + int (length ts) \<le> MaxInt64"
  shows "localCalls k n d ts l = map (\<lambda>i. bcount b + int i + 1 \<le> n) [0..<length ts]"
  using assms
proof (induction ts arbitrary: l b)
  case (Cons t ts)
  define b' where "b' = b\<lparr>bcount := bcount b + 1\<rparr>"
  define l' where "l' = l\<lparr>localBuckets := AList.update k b' (localBuckets l)\<rparr>"
  have "checkLocalLimit t k n d l = (bcount b + 1 \<le> n, l')"
    using Cons.prems by (simp add: checkLocalLimit_def currentBucket_def b'_def l'_def wrap64_id)
  moreover have "localCalls k n d ts l' = map (\<lambda>i. bcount b' + int i + 1 \<le> n) [0..<length ts]"
    by (rule Cons.IH) (use Cons.prems in \<open>auto simp: l'_def b'_def\<close>)
  moreover have "map (\<lambda>i. bcount b' + int i + 1 \<le> n) [0..<length ts] =
      map (\<lambda>i. bcount b + int i + 1 \<le> n) (map Suc [0..<length ts])"
    by (simp add: b'_def algebra_simps)
  ultimately show ?case by (simp add: upt_conv_Cons map_Suc_upt del: upt_Suc)
qed simp

text \<open>A key whose window has ended, or that was never used.\<close>

definition noWindow :: "time \<Rightarrow> string \<Rightarrow> Limiter \<Rightarrow> bool" where
  "noWindow t k l = (case map_of (localBuckets l) k of None \<Rightarrow> True | Some b \<Rightarrow> resetTime b < t)"

lemma localCalls_fresh:
  assumes "noWindow t k l" "\<forall>u \<in> set ts. u \<le> t + d" "int (length ts) < MaxInt64"
  shows "localCalls k n d (t # ts) l = map (\<lambda>i. int i + 1 \<le> n) [0..<length (t # ts)]"
proof -
  define b where "b = \<lparr>bcount = 1, resetTime = t + d\<rparr>"
  define l' where "l' = l\<lparr>localBuckets := AList.update k b (localBuckets l)\<rparr>"
  have "checkLocalLimit t k n d l = (1 \<le> n, l')"
    using assms(1)
    by (auto simp: checkLocalLimit_def currentBucket_def b_def l'_def wrap64_id freshBucket_def
        noWindow_def split: option.splits)
  moreover have "localCalls k n d ts l' = map (\<lambda>i. bcount b + int i + 1 \<le> n) [0..<length ts]"
    by (rule localCalls_window) (use assms in \<open>auto simp: l'_def b_def\<close>)
  moreover have "map (\<lambda>i. bcount b + int i + 1 \<le> n) [0..<length ts] =
      map (\<lambda>i. int i + 1 \<le> n) (map Suc [0..<length ts])"
    by (simp add: b_def algebra_simps)
  ultimately show ?thesis by (simp add: upt_conv_Cons map_Suc_upt del: upt_Suc)
qed

definition allowedCount :: "bool list \<Rightarrow> nat" where
  "allowedCount as = length (filter id as)"

lemma allowedCount_simps [simp]:
  "allowedCount [] = 0" "allowedCount (a # as) = (if a then 1 else 0) + allowedCount as"
  "allowedCount (as @ bs) = allowedCount as + allowedCount bs"
  by (simp_all add: allowedCount_def)

lemma allowedCount_window: "0 \<le> c \<Longrightarrow> allowedCount (map (\<lambda>i. c + int i + 1 \<le> n) [0..<m]) \<le> nat n"
proof -
  assume "0 \<le> c"
  have "allowedCount (map (\<lambda>i. c + int i + 1 \<le> n) [0..<m]) = card {i. i < m \<and> c + int i + 1 \<le> n}"
    by (simp add: allowedCount_def filter_map comp_def distinct_length_filter Collect_conj_eq [symmetric]
        conj_commute Int_def)
  also have "\<dots> \<le> card {..<nat n}" by (rule card_mono) (use \<open>0 \<le> c\<close> in auto)
  finally show ?thesis by simp
qed

text \<open>No counter is negative.\<close>

definition bucketsOK :: "Limiter \<Rightarrow> bool" where
  "bucketsOK l \<longleftrightarrow> (\<forall>k b. map_of (localBuckets l) k = Some b \<longrightarrow> 0 \<le> bcount b)"

lemma localCalls_split:
  assumes "map_of (localBuckets l) k = Some b" "0 \<le> bcount b"
    and "bcount b + int (length ts) \<le> MaxInt64" "\<forall>u \<in> set ts. s \<le> u \<and> u \<le> s + d"
  shows "allowedCount (localCalls k n d ts l) \<le> nat (n - bcount b) + nat n"
  using assms
proof (induction ts arbitrary: l b)
  case (Cons t ts)
  show ?case
  proof (cases "resetTime b < t")
    case True
    have "localCalls k n d (t # ts) l = map (\<lambda>i. 0 + int i + 1 \<le> n) [0..<length (t # ts)]"
      using localCalls_fresh [of t k l ts d n] Cons.prems True by (force simp: noWindow_def)
    then show ?thesis
      using allowedCount_window [of 0 n "length (t # ts)"] by simp
  next
    case False
    define b' where "b' = b\<lparr>bcount := bcount b + 1\<rparr>"
    define l' where "l' = l\<lparr>localBuckets := AList.update k b' (localBuckets l)\<rparr>"
    have "checkLocalLimit t k n d l = (bcount b + 1 \<le> n, l')"
      using Cons.prems False
      by (simp add: checkLocalLimit_def currentBucket_def b'_def l'_def wrap64_id)
    moreover have "allowedCount (localCalls k n d ts l') \<le> nat (n - bcount b') + nat n"
      by (rule Cons.IH) (use Cons.prems in \<open>auto simp: l'_def b'_def\<close>)
    ultimately show ?thesis by (simp add: b'_def) arith
  qed
qed simp

text \<open>In any span of time of the length of the window: at most twice the limit.\<close>

lemma localCalls_burst:
  assumes "bucketsOK l" "\<forall>b. map_of (localBuckets l) k = Some b \<longrightarrow> bcount b + int (length ts) \<le> MaxInt64"
    and "int (length ts) \<le> MaxInt64" "\<forall>u \<in> set ts. s \<le> u \<and> u \<le> s + d"
  shows "allowedCount (localCalls k n d ts l) \<le> 2 * nat n"
proof (cases "map_of (localBuckets l) k")
  case (Some b)
  then have "0 \<le> bcount b" using assms(1) by (auto simp: bucketsOK_def)
  then show ?thesis
    using localCalls_split [OF Some, of ts s d n] assms Some by simp
next
  case None
  show ?thesis
  proof (cases ts)
    case (Cons t us)
    have "localCalls k n d ts l = map (\<lambda>i. 0 + int i + 1 \<le> n) [0..<length ts]"
      unfolding Cons using localCalls_fresh [of t k l us d n] assms None Cons
      by (force simp: noWindow_def)
    then show ?thesis using allowedCount_window [of 0 n "length ts"] by simp
  qed simp
qed

section \<open>Cleaning up\<close>

text \<open>
  The operations on the counters in memory, as events: the answers of the checks, in order.
\<close>

datatype local_event = LocalCheck time string int duration | LocalCleanup time

fun eventTime :: "local_event \<Rightarrow> time" where
  "eventTime (LocalCheck t k n d) = t"
| "eventTime (LocalCleanup t) = t"

fun isCheck :: "local_event \<Rightarrow> bool" where
  "isCheck (LocalCheck t k n d) \<longleftrightarrow> True"
| "isCheck (LocalCleanup t) \<longleftrightarrow> False"

fun localRun :: "local_event list \<Rightarrow> Limiter \<Rightarrow> bool list" where
  "localRun [] l = []"
| "localRun (LocalCheck t k n d # es) l =
     (case checkLocalLimit t k n d l of (a, l') \<Rightarrow> a # localRun es l')"
| "localRun (LocalCleanup t # es) l = localRun es (cleanupLocalBuckets t l)"

text \<open>Two limiters that give the same answers from a time on.\<close>

definition sameFrom :: "time \<Rightarrow> Limiter \<Rightarrow> Limiter \<Rightarrow> bool" where
  "sameFrom t l l' \<longleftrightarrow>
     (\<forall>k. map_of (localBuckets l) k = map_of (localBuckets l') k \<or> noWindow t k l \<and> noWindow t k l')"

lemma noWindow_mono: "noWindow t k l \<Longrightarrow> t \<le> u \<Longrightarrow> noWindow u k l"
  by (auto simp: noWindow_def split: option.splits)

lemma sameFrom_bucket:
  "sameFrom t l l' \<Longrightarrow> t \<le> u \<Longrightarrow>
     currentBucket u d (map_of (localBuckets l) k) = currentBucket u d (map_of (localBuckets l') k)"
  by (auto simp: sameFrom_def currentBucket_def noWindow_def split: option.splits dest!: spec [of _ k])

lemma sameFrom_check:
  assumes "sameFrom t l l'" "t \<le> u"
  shows "fst (checkLocalLimit u k n d l) = fst (checkLocalLimit u k n d l')"
    and "sameFrom u (snd (checkLocalLimit u k n d l)) (snd (checkLocalLimit u k n d l'))"
  using sameFrom_bucket [OF assms, of d k] assms noWindow_mono [OF _ assms(2)]
  by (auto simp: checkLocalLimit_def Let_def sameFrom_def noWindow_def)

lemma map_of_filter_key:
  "keys_distinct al \<Longrightarrow>
     map_of (filter (\<lambda>(k, b). P b) al) k =
       (case map_of al k of None \<Rightarrow> None | Some b \<Rightarrow> if P b then Some b else None)"
  by (induction al) (auto simp: map_of_eq_None_iff split: option.splits if_splits intro: rev_image_eqI)

definition bucketsDistinct :: "Limiter \<Rightarrow> bool" where
  "bucketsDistinct l \<longleftrightarrow> keys_distinct (localBuckets l)"

lemma cleanup_bucket:
  assumes "bucketsDistinct l"
  shows "map_of (localBuckets (cleanupLocalBuckets u l)) k =
    (case map_of (localBuckets l) k of
       None \<Rightarrow> None | Some b \<Rightarrow> if resetTime b + 5 * Minute < u then None else Some b)"
  using map_of_filter_key [of "localBuckets l" "\<lambda>b. \<not> resetTime b + 5 * Minute < u" k] assms
  by (simp add: cleanupLocalBuckets_def bucketsDistinct_def split: option.splits)

lemma sameFrom_cleanup:
  assumes "sameFrom t l l'" "t \<le> u" "bucketsDistinct l"
  shows "sameFrom u (cleanupLocalBuckets u l) l'"
proof -
  have keep: "noWindow u k l \<Longrightarrow> noWindow u k (cleanupLocalBuckets u l)" for k
    by (auto simp: noWindow_def cleanup_bucket [OF assms(3)] split: option.splits)
  have "map_of (localBuckets (cleanupLocalBuckets u l)) k = map_of (localBuckets l) k \<or>
      noWindow u k l" for k
    by (auto simp: noWindow_def cleanup_bucket [OF assms(3)] Minute_def split: option.splits)
  moreover have "noWindow u k l \<longleftrightarrow> noWindow u k l'" if "map_of (localBuckets l) k = map_of (localBuckets l') k" for k
    using that by (simp add: noWindow_def)
  ultimately show ?thesis
    using assms(1) noWindow_mono [OF _ assms(2)] keep unfolding sameFrom_def by metis
qed

lemma bucketsDistinct_check: "bucketsDistinct l \<Longrightarrow> bucketsDistinct (snd (checkLocalLimit t k n d l))"
  by (simp add: bucketsDistinct_def checkLocalLimit_def Let_def keys_distinct_update)

lemma bucketsDistinct_cleanup: "bucketsDistinct l \<Longrightarrow> bucketsDistinct (cleanupLocalBuckets t l)"
  by (simp add: bucketsDistinct_def cleanupLocalBuckets_def distinct_map_filter)

lemma localRun_cleanup:
  assumes "sameFrom t l l'" "bucketsDistinct l" "sorted (t # map eventTime es)"
  shows "localRun es l = localRun (filter isCheck es) l'"
  using assms
proof (induction es arbitrary: t l l')
  case (Cons e es)
  show ?case
  proof (cases e)
    case (LocalCheck u k n d)
    then show ?thesis
      using sameFrom_check [OF Cons.prems(1), of u k n d] Cons.prems(2,3)
        Cons.IH [of u "snd (checkLocalLimit u k n d l)" "snd (checkLocalLimit u k n d l')"]
        bucketsDistinct_check [of l u k n d]
      by (simp add: case_prod_beta)
  next
    case (LocalCleanup u)
    then show ?thesis
      using sameFrom_cleanup [OF Cons.prems(1), of u] bucketsDistinct_cleanup [of l u]
        Cons.IH [of u "cleanupLocalBuckets u l" l'] Cons.prems(2,3) by simp
  qed
qed simp

section \<open>The counters in Redis\<close>

fun checkCalls ::
  "'r redis \<Rightarrow> string \<Rightarrow> int \<Rightarrow> duration \<Rightarrow> time list \<Rightarrow> ('r, 'z) lworld_scheme \<Rightarrow> bool list" where
  "checkCalls R k n d [] w = []"
| "checkCalls R k n d (t # ts) w =
     (case checkLimit R t k n d w of (a, w') \<Rightarrow> a # checkCalls R k n d ts w')"

lemma checkLimit_counts:
  assumes "redis_counts R val"
  shows "\<exists>r'. checkLimit R now k n d w = (val (rds w) k + 1 \<le> n, w\<lparr>rds := r'\<rparr>) \<and>
    val r' = (val (rds w))(k := val (rds w) k + 1)"
proof -
  obtain x r' where r: "R [CIncr k, CExpire k d] (rds w) = ([RInt (val (rds w) k + 1), RInt x], r')"
    "val r' = (val (rds w))(k := val (rds w) k + 1)"
    by (rule redis_counts_hit [OF assms])
  then show ?thesis by (auto simp: checkLimit_def checkRedisLimit_def)
qed

lemma checkCalls_redis:
  assumes "redis_counts R val"
  shows "checkCalls R k n d ts w = map (\<lambda>i. val (rds w) k + int i + 1 \<le> n) [0..<length ts]"
proof (induction ts arbitrary: w)
  case (Cons t ts)
  obtain r' where r: "checkLimit R t k n d w = (val (rds w) k + 1 \<le> n, w\<lparr>rds := r'\<rparr>)"
    "val r' = (val (rds w))(k := val (rds w) k + 1)"
    using checkLimit_counts [OF assms] by blast
  have "map (\<lambda>i. val (rds w) k + 1 + int i + 1 \<le> n) [0..<length ts] =
      map (\<lambda>i. val (rds w) k + int i + 1 \<le> n) (map Suc [0..<length ts])"
    by (simp add: algebra_simps)
  then show ?case
    using Cons.IH [of "w\<lparr>rds := r'\<rparr>"] r by (simp add: upt_conv_Cons map_Suc_upt del: upt_Suc)
qed simp

text \<open>When Redis cannot be reached, the check is the one in memory.\<close>

lemma checkLimit_down:
  "redis_down R \<Longrightarrow> checkLimit R now k n d w =
     (case checkLocalLimit now k n d (limiter w) of (a, l') \<Rightarrow> (a, w\<lparr>limiter := l'\<rparr>))"
  by (simp add: checkLimit_def checkRedisLimit_def redis_down_def split: prod.split)

lemma checkCalls_down:
  "redis_down R \<Longrightarrow> checkCalls R k n d ts w = localCalls k n d ts (limiter w)"
  by (induction ts arbitrary: w) (auto simp: checkLimit_down split: prod.split)

section \<open>Recipients\<close>

fun recipientCalls ::
  "'r redis \<Rightarrow> (string \<times> int) list \<Rightarrow> ('r, 'z) lworld_scheme \<Rightarrow> bool list \<times> ('r, 'z) lworld_scheme" where
  "recipientCalls R [] w = ([], w)"
| "recipientCalls R ((u, n) # cs) w =
     (case CheckUserRecipients R u n w of
        (e, w1) \<Rightarrow> (case recipientCalls R cs w1 of (as, w2) \<Rightarrow> ((e = None) # as, w2)))"

lemma userRcptKey_inj [simp]: "userRcptKey u = userRcptKey v \<longleftrightarrow> u = v"
  by (simp add: userRcptKey_def)

text \<open>The keys of the other limits are different ones.\<close>

lemma rcptKey_neq [simp]:
  "ipConnKey a \<noteq> userRcptKey u" "ipAuthKey a \<noteq> userRcptKey u" "userMsgKey a \<noteq> userRcptKey u"
  "globalMsgKey \<noteq> userRcptKey u"
  by (simp_all add: ipConnKey_def ipAuthKey_def userMsgKey_def globalMsgKey_def userRcptKey_def)

lemmas rcptKey_neq' [simp] = rcptKey_neq [symmetric]

lemma recipientRead_passes:
  assumes "redis_counts R val" "recipientRead R u n w = (None, w')"
    and "0 \<le> val (rds w) (userRcptKey u)" "0 \<le> n" "val (rds w) (userRcptKey u) + n \<le> MaxInt64"
  shows "val (rds w) (userRcptKey u) + n \<le> userRecipientsPerHour (limitsOf (limiter w))"
proof -
  let ?k = "userRcptKey u"
  obtain x r1 where g: "redis1 R (CGet ?k) (rds w) = (x, r1)" by fastforce
  have x: "x = RStr (showInt (val (rds w) ?k)) \<or> x = RNil \<and> val (rds w) ?k = 0"
    using redis_counts_get [OF assms(1) g] by auto
  have "currentCount x = val (rds w) ?k"
    using x assms(3,4,5) sscanfD_showInt [of "val (rds w) ?k"] by (auto simp: currentCount_def)
  moreover have "wrap64 (val (rds w) ?k + n) = val (rds w) ?k + n"
    using assms(3,4,5) by (intro wrap64_id) simp
  ultimately show ?thesis
    using assms(2) g by (auto simp: recipientRead_def split: if_splits)
qed

lemma recipientRead_frame:
  assumes "redis_counts R val" "recipientRead R u n w = (e, w')"
  shows "val (rds w') = val (rds w) \<and> limiter w' = limiter w"
proof -
  obtain x r1 where g: "redis1 R (CGet (userRcptKey u)) (rds w) = (x, r1)" by fastforce
  then show ?thesis
    using redis_counts_get [OF assms(1) g] assms(2) by (auto simp: recipientRead_def split: if_splits)
qed

lemma recipientAdd_counts:
  assumes "redis_counts R val"
  shows "val (rds (recipientAdd R u n w)) = (val (rds w))(userRcptKey u := val (rds w) (userRcptKey u) + n) \<and>
    limiter (recipientAdd R u n w) = limiter w"
proof -
  obtain y r2 where "R [CIncrBy (userRcptKey u) n, CExpire (userRcptKey u) Hour] (rds w) =
      ([RInt (val (rds w) (userRcptKey u) + n), RInt y], r2)"
    "val r2 = (val (rds w))(userRcptKey u := val (rds w) (userRcptKey u) + n)"
    by (rule redis_counts_hitBy [OF assms])
  then show ?thesis by (simp add: recipientAdd_def)
qed

text \<open>The other checks count under their own key.\<close>

lemma checkLimit_other_key:
  assumes "redis_counts R val" "checkLimit R now k n d w = (a, w')" "k' \<noteq> k"
  shows "val (rds w') k' = val (rds w) k'"
proof -
  obtain x r' where "R [CIncr k, CExpire k d] (rds w) = ([RInt (val (rds w) k + 1), RInt x], r')"
    "val r' = (val (rds w))(k := val (rds w) k + 1)"
    by (rule redis_counts_hit [OF assms(1)])
  then show ?thesis using assms(2,3) by (auto simp: checkLimit_def checkRedisLimit_def)
qed

text \<open>When Redis cannot be reached the recipients are not limited beyond one message.\<close>

lemma CheckUserRecipients_down:
  "redis_down R \<Longrightarrow> in_int64 n \<Longrightarrow> CheckUserRecipients R u n w =
     (if userRecipientsPerHour (limitsOf (limiter w)) < n
      then (Some (RecipientRate u), record_metric (RecordRateLimitHit ''user_recipients'' u) w)
      else (None, w))"
  by (simp add: recipient_defs redis_down_redis1 currentCount_def wrap64_id)
    (simp add: redis_down_def)

end
