(* ===== verification/ConnectionCounter.thy ===== *)
theory ConnectionCounter
  imports RateLimitLaws
begin

text \<open>
  The bound on concurrent connections, under any interleaving. A new connection is checked
  (\<open>CheckIPConnection\<close>) and counted (\<open>IncrementConnection\<close>) in two steps, and other connections
  make theirs in between; it is counted down when it ends (\<open>DecrementConnection\<close>).
\<close>

section \<open>The protocol of a connection\<close>

datatype phase = Arriving | Admitted | Refused | Opened | Ended

text \<open>
  \<open>chk\<close> is the check of a new connection, \<open>oth\<close> any other check, \<open>inc\<close> and \<open>dec\<close> count.
\<close>

inductive conn_step ::
  "('o \<Rightarrow> 's \<Rightarrow> 'e option \<times> 's) \<Rightarrow> ('p \<Rightarrow> 's \<Rightarrow> 'e option \<times> 's) \<Rightarrow> ('s \<Rightarrow> 's) \<Rightarrow> ('s \<Rightarrow> 's) \<Rightarrow>
   's \<times> phase list \<Rightarrow> 's \<times> phase list \<Rightarrow> bool"
  for chk oth inc dec where
  arrive: "conn_step chk oth inc dec (s, ps) (s, ps @ [Arriving])"
| admit: "i < length ps \<Longrightarrow> ps ! i = Arriving \<Longrightarrow> chk x s = (None, s') \<Longrightarrow>
    conn_step chk oth inc dec (s, ps) (s', ps[i := Admitted])"
| refuse: "i < length ps \<Longrightarrow> ps ! i = Arriving \<Longrightarrow> chk x s = (Some e, s') \<Longrightarrow>
    conn_step chk oth inc dec (s, ps) (s', ps[i := Refused])"
| opened: "i < length ps \<Longrightarrow> ps ! i = Admitted \<Longrightarrow>
    conn_step chk oth inc dec (s, ps) (inc s, ps[i := Opened])"
| ended: "i < length ps \<Longrightarrow> ps ! i = Opened \<Longrightarrow>
    conn_step chk oth inc dec (s, ps) (dec s, ps[i := Ended])"
| other: "oth y s = (e, s') \<Longrightarrow> conn_step chk oth inc dec (s, ps) (s', ps)"

inductive_cases conn_stepE: "conn_step chk oth inc dec (s, ps) (s', ps')"

lemma count_list_update:
  "i < length ps \<Longrightarrow>
     int (count_list (ps[i := a]) b) =
     int (count_list ps b) + (if a = b then 1 else 0) - (if ps ! i = b then 1 else 0)"
proof (induction ps arbitrary: i)
  case (Cons p ps)
  show ?case
  proof (cases i)
    case (Suc j)
    then show ?thesis using Cons.IH [of j] Cons.prems by auto
  qed auto
qed simp

lemma wrap64_add: "wrap64 (wrap64 x + y) = wrap64 (x + y)"
proof -
  have "wrap64 x + y + 2 ^ 63 = (x + 2 ^ 63) mod 2 ^ 64 + y" by (simp add: wrap64_def)
  then have "(wrap64 x + y + 2 ^ 63) mod 2 ^ 64 = (x + 2 ^ 63 + y) mod 2 ^ 64"
    by (simp only: mod_add_left_eq)
  then show ?thesis unfolding wrap64_def [of "wrap64 x + y"] wrap64_def [of "x + y"]
    by (simp only: ac_simps)
qed

lemma wrap64_diff: "wrap64 (wrap64 x - y) = wrap64 (x - y)"
  using wrap64_add [of x "- y"] by simp

section \<open>What the check and the counter promise\<close>

locale connection_limits =
  fixes conns :: "'s \<Rightarrow> int" and cap :: "'s \<Rightarrow> int"
    and chk :: "'o \<Rightarrow> 's \<Rightarrow> 'e option \<times> 's" and oth :: "'p \<Rightarrow> 's \<Rightarrow> 'e option \<times> 's"
    and inc :: "'s \<Rightarrow> 's" and dec :: "'s \<Rightarrow> 's"
  assumes check_passes: "chk x s = (None, s') \<Longrightarrow> conns s < cap s"
    and check_frame: "chk x s = (r, s') \<Longrightarrow> conns s' = conns s \<and> cap s' = cap s"
    and other_frame: "oth y s = (r, s') \<Longrightarrow> conns s' = conns s \<and> cap s' = cap s"
    and inc_conns: "conns (inc s) = wrap64 (conns s + 1) \<and> cap (inc s) = cap s"
    and dec_conns: "conns (dec s) = wrap64 (conns s - 1) \<and> cap (dec s) = cap s"
begin

lemma step_counts:
  assumes "conn_step chk oth inc dec st st'" "conns (fst st) = wrap64 (int (count_list (snd st) Opened))"
  shows "conns (fst st') = wrap64 (int (count_list (snd st') Opened)) \<and> cap (fst st') = cap (fst st)"
  using assms(1)
proof cases
  case (admit i ps x s s')
  then show ?thesis using assms(2) check_frame [OF admit(5)] by (simp add: count_list_update)
next
  case (refuse i ps x s e s')
  then show ?thesis using assms(2) check_frame [OF refuse(5)] by (simp add: count_list_update)
next
  case (opened i ps s)
  then show ?thesis using assms(2) inc_conns [of s] by (simp add: count_list_update wrap64_add)
next
  case (ended i ps s)
  then show ?thesis
    using assms(2) dec_conns [of s] wrap64_diff [of "int (count_list ps Opened)" 1]
    by (simp add: count_list_update)
next
  case (other y s e s')
  then show ?thesis using assms(2) other_frame [OF other(3)] by simp
qed (use assms(2) in simp)

end

sublocale connection_limits \<subseteq>
  counting: step_system "\<lambda>st. conns (fst st) = 0 \<and> snd st = []" "conn_step chk oth inc dec"
    "\<lambda>st. conns (fst st) = wrap64 (int (count_list (snd st) Opened))"
proof unfold_locales
  fix st :: "'s \<times> phase list" assume "conns (fst st) = 0 \<and> snd st = []"
  then show "conns (fst st) = wrap64 (int (count_list (snd st) Opened))" by (simp add: wrap64_def)
next
  fix st st' :: "'s \<times> phase list"
  assume "conn_step chk oth inc dec st st'" "conns (fst st) = wrap64 (int (count_list (snd st) Opened))"
  then show "conns (fst st') = wrap64 (int (count_list (snd st') Opened))" by (simp add: step_counts)
qed

text \<open>
  With at most \<open>k\<close> connections between the check and the count at any time, the bound is exceeded
  by at most \<open>k - 1\<close>.
\<close>

locale bounded_race = connection_limits conns cap chk oth inc dec
  for conns :: "'s \<Rightarrow> int" and cap :: "'s \<Rightarrow> int"
    and chk :: "'o \<Rightarrow> 's \<Rightarrow> 'e option \<times> 's" and oth :: "'p \<Rightarrow> 's \<Rightarrow> 'e option \<times> 's"
    and inc :: "'s \<Rightarrow> 's" and dec :: "'s \<Rightarrow> 's" +
  fixes cap0 :: int and k :: nat
begin

definition race_inv :: "'s \<times> phase list \<Rightarrow> bool" where
  "race_inv st \<longleftrightarrow>
     1 \<le> cap0 \<and> cap0 + int k \<le> MaxInt64 \<and> conns (fst st) = wrap64 (int (count_list (snd st) Opened)) \<and> cap (fst st) = cap0 \<and>
     int (count_list (snd st) Opened) + int (count_list (snd st) Admitted) \<le> cap0 + int k - 1"

lemma race_step:
  assumes "conn_step chk oth inc dec st st'" "count_list (snd st') Admitted \<le> k" "race_inv st"
  shows "race_inv st'"
proof -
  have inv: "conns (fst st) = wrap64 (int (count_list (snd st) Opened))" "cap (fst st) = cap0"
    "int (count_list (snd st) Opened) + int (count_list (snd st) Admitted) \<le> cap0 + int k - 1"
    "1 \<le> cap0" "cap0 + int k \<le> MaxInt64"
    using assms(3) by (simp_all add: race_inv_def)
  note cnt = step_counts [OF assms(1) inv(1)]
  have eq: "conns (fst st) = int (count_list (snd st) Opened)"
    using inv(1,3,4,5) by (simp add: wrap64_id)
  have "int (count_list (snd st') Opened) + int (count_list (snd st') Admitted) \<le> cap0 + int k - 1"
    using assms(1)
  proof cases
    case (admit i ps x s s')
    then show ?thesis
      using check_passes [OF admit(5)] inv eq of_nat_mono [OF assms(2), where 'a = int]
      by (simp add: count_list_update)
  qed (use inv(3) in \<open>simp_all add: count_list_update\<close>)
  then show ?thesis using cnt inv(2,4,5) by (simp add: race_inv_def)
qed

end

sublocale bounded_race \<subseteq>
  racing: step_system
    "\<lambda>st. conns (fst st) = 0 \<and> cap (fst st) = cap0 \<and> snd st = [] \<and>
       1 \<le> cap0 \<and> 1 \<le> k \<and> cap0 + int k \<le> MaxInt64"
    "\<lambda>st st'. conn_step chk oth inc dec st st' \<and> count_list (snd st') Admitted \<le> k" race_inv
proof unfold_locales
  fix st :: "'s \<times> phase list" assume "conns (fst st) = 0 \<and> cap (fst st) = cap0 \<and> snd st = [] \<and>
    1 \<le> cap0 \<and> 1 \<le> k \<and> cap0 + int k \<le> MaxInt64"
  then show "race_inv st" by (simp add: race_inv_def wrap64_def)
next
  fix st st' :: "'s \<times> phase list" assume "conn_step chk oth inc dec st st' \<and> count_list (snd st') Admitted \<le> k" "race_inv st"
  then show "race_inv st'" by (blast intro: race_step)
qed

section \<open>The limiter provides it\<close>

text \<open>The other checks of the limiter, with their arguments.\<close>

datatype other_check =
    FailedAuthCheck time string | UserMessagesCheck time string | GlobalMessagesCheck time
  | UserRecipientsCheck string int

fun otherCheck ::
  "'r redis \<Rightarrow> other_check \<Rightarrow> ('r, 'z) lworld_scheme \<Rightarrow> limit_error option \<times> ('r, 'z) lworld_scheme" where
  "otherCheck R (FailedAuthCheck t ip) w = CheckIPFailedAuth R t ip w"
| "otherCheck R (UserMessagesCheck t u) w = CheckUserMessages R t u w"
| "otherCheck R (GlobalMessagesCheck t) w = CheckGlobalMessages R t w"
| "otherCheck R (UserRecipientsCheck u n) w = CheckUserRecipients R u n w"

definition connCheck ::
  "'r redis \<Rightarrow> time \<times> string \<Rightarrow> ('r, 'z) lworld_scheme \<Rightarrow> limit_error option \<times> ('r, 'z) lworld_scheme" where
  "connCheck R x w = CheckIPConnection R (fst x) (snd x) w"

definition connCount :: "('r, 'z) lworld_scheme \<Rightarrow> ('r, 'z) lworld_scheme" where
  "connCount w = w\<lparr>limiter := IncrementConnection (limiter w)\<rparr>"

definition connUncount :: "('r, 'z) lworld_scheme \<Rightarrow> ('r, 'z) lworld_scheme" where
  "connUncount w = w\<lparr>limiter := DecrementConnection (limiter w)\<rparr>"

definition connections :: "('r, 'z) lworld_scheme \<Rightarrow> int" where
  "connections w = GetCurrentConnections (limiter w)"

definition connectionCap :: "('r, 'z) lworld_scheme \<Rightarrow> int" where
  "connectionCap w = globalConcurrentConns (limitsOf (limiter w))"

lemma check_frame_conns: "check_frame w w' \<Longrightarrow> connections w' = connections w \<and> connectionCap w' = connectionCap w"
  by (simp add: check_frame_def connections_def connectionCap_def GetCurrentConnections_def)

lemma otherCheck_frame: "otherCheck R y w = (e, w') \<Longrightarrow> check_frame w w'"
  by (cases y) (auto intro: CheckIPFailedAuth_frame CheckUserMessages_frame CheckGlobalMessages_frame
      CheckUserRecipients_frame)

lemma connCheck_passes: "connCheck R x w = (None, w') \<Longrightarrow> connections w < connectionCap w"
  by (auto simp: connCheck_def CheckIPConnection_def connections_def connectionCap_def
      GetCurrentConnections_def split: if_splits)

interpretation conn_limits: connection_limits connections connectionCap "connCheck R" "otherCheck R"
  connCount connUncount for R
proof unfold_locales
  show "connections w < connectionCap w" if "connCheck R x w = (None, w')" for x w w'
    using that by (rule connCheck_passes)
  show "connections w' = connections w \<and> connectionCap w' = connectionCap w"
    if "connCheck R x w = (r, w')" for x w r w'
    by (rule check_frame_conns [OF CheckIPConnection_frame [OF that [unfolded connCheck_def]]])
  show "connections w' = connections w \<and> connectionCap w' = connectionCap w"
    if "otherCheck R y w = (r, w')" for y w r w'
    by (rule check_frame_conns [OF otherCheck_frame [OF that]])
qed (simp_all add: connections_def connectionCap_def connCount_def connUncount_def
    GetCurrentConnections_def IncrementConnection_def DecrementConnection_def)

interpretation conn_race: bounded_race connections connectionCap "connCheck R" "otherCheck R"
  connCount connUncount cap0 k for R cap0 k
  by unfold_locales

lemmas conn_race_inv = conn_race.race_inv_def

end
