(* ===== verification/RecipientCounter.thy ===== *)
theory RecipientCounter
  imports ConnectionCounter
begin

text \<open>
  The bound on the recipients of a user, under any interleaving. \<open>CheckUserRecipients\<close> reads the counter
  and adds to it in two steps (\<open>recipientRead\<close> and \<open>recipientAdd\<close>), and other sessions of the same
  user make theirs in between.
\<close>

section \<open>The protocol of a call\<close>

text \<open>
  \<open>rd\<close> reads and decides, \<open>ad\<close> adds, \<open>oth\<close> is any other check. Beside the state, the calls that were let
  through and have not added yet, and all calls that were let through.
\<close>

inductive rcpt_step ::
  "('u \<Rightarrow> int \<Rightarrow> 's \<Rightarrow> 'e option \<times> 's) \<Rightarrow> ('u \<Rightarrow> int \<Rightarrow> 's \<Rightarrow> 's) \<Rightarrow> ('p \<Rightarrow> 's \<Rightarrow> 'e option \<times> 's) \<Rightarrow>
   's \<times> ('u \<times> int) list \<times> ('u \<times> int) list \<Rightarrow> 's \<times> ('u \<times> int) list \<times> ('u \<times> int) list \<Rightarrow> bool"
  for rd ad oth where
  let_through: "rd u n s = (None, s') \<Longrightarrow> rcpt_step rd ad oth (s, ws, ts) (s', ws @ [(u, n)], (u, n) # ts)"
| turned_away: "rd u n s = (Some e, s') \<Longrightarrow> rcpt_step rd ad oth (s, ws, ts) (s', ws, ts)"
| added: "i < length ws \<Longrightarrow> ws ! i = (u, n) \<Longrightarrow>
    rcpt_step rd ad oth (s, ws, ts) (ad u n s, take i ws @ drop (Suc i) ws, ts)"
| other_check: "oth y s = (e, s') \<Longrightarrow> rcpt_step rd ad oth (s, ws, ts) (s', ws, ts)"

definition rcptTotal :: "'u \<Rightarrow> ('u \<times> int) list \<Rightarrow> int" where
  "rcptTotal u cs = sum_list (map (\<lambda>(v, n). if v = u then n else 0) cs)"

lemma rcptTotal_simps [simp]:
  "rcptTotal u [] = 0" "rcptTotal u ((v, n) # cs) = (if v = u then n else 0) + rcptTotal u cs"
  "rcptTotal u (cs @ ds) = rcptTotal u cs + rcptTotal u ds"
  by (simp_all add: rcptTotal_def)

lemma rcptTotal_remove:
  assumes "i < length ws" "ws ! i = (v, n)"
  shows "rcptTotal u ws = rcptTotal u (take i ws @ drop (Suc i) ws) + (if v = u then n else 0)"
proof -
  have "ws = take i ws @ (v, n) # drop (Suc i) ws" using id_take_nth_drop [OF assms(1)] assms(2) by simp
  then have "rcptTotal u ws = rcptTotal u (take i ws @ (v, n) # drop (Suc i) ws)" by (rule arg_cong)
  then show ?thesis by simp
qed

lemma set_remove: "set (take i ws @ drop (Suc i) ws) \<subseteq> set ws"
  by (auto dest: in_set_takeD in_set_dropD)

text \<open>No call has fewer than none or more than \<open>M\<close> recipients.\<close>

abbreviation callsUpTo :: "int \<Rightarrow> ('u \<times> int) list \<Rightarrow> bool" where
  "callsUpTo M cs \<equiv> list_all (\<lambda>c. 0 \<le> snd c \<and> snd c \<le> M) cs"

lemma rcptTotal_bounds:
  assumes "callsUpTo M cs"
  shows "0 \<le> rcptTotal u cs" "rcptTotal u cs \<le> int (length (filter (\<lambda>c. fst c = u) cs)) * M"
  using assms by (induction cs) (auto simp: algebra_simps)

section \<open>What reading and adding promise\<close>

text \<open>The promises hold while the server counts, which \<open>counts\<close> says.\<close>

locale recipient_limits =
  fixes counts :: bool and cnt :: "'s \<Rightarrow> 'u \<Rightarrow> int" and cap :: "'s \<Rightarrow> int"
    and rd :: "'u \<Rightarrow> int \<Rightarrow> 's \<Rightarrow> 'e option \<times> 's" and ad :: "'u \<Rightarrow> int \<Rightarrow> 's \<Rightarrow> 's"
    and oth :: "'p \<Rightarrow> 's \<Rightarrow> 'e option \<times> 's"
  assumes read_passes: "counts \<Longrightarrow> rd u n s = (None, s') \<Longrightarrow> 0 \<le> cnt s u \<Longrightarrow> 0 \<le> n \<Longrightarrow> cnt s u + n \<le> MaxInt64 \<Longrightarrow>
      cnt s u + n \<le> cap s"
    and read_frame: "counts \<Longrightarrow> rd u n s = (r, s') \<Longrightarrow> cnt s' = cnt s \<and> cap s' = cap s"
    and add_counts: "counts \<Longrightarrow> cnt (ad u n s) = (cnt s)(u := cnt s u + n) \<and> cap (ad u n s) = cap s"
    and other_frame: "counts \<Longrightarrow> oth y s = (r, s') \<Longrightarrow> cnt s' = cnt s \<and> cap s' = cap s"

text \<open>
  With at most \<open>k\<close> calls of the user between reading and adding at any time, and at most \<open>M\<close> recipients
  in each, the limit is exceeded by at most those of \<open>k - 1\<close> calls.
\<close>

locale recipient_race = recipient_limits counts cnt cap rd ad oth
  for counts :: bool and cnt :: "'s \<Rightarrow> 'u \<Rightarrow> int" and cap :: "'s \<Rightarrow> int"
    and rd :: "'u \<Rightarrow> int \<Rightarrow> 's \<Rightarrow> 'e option \<times> 's" and ad :: "'u \<Rightarrow> int \<Rightarrow> 's \<Rightarrow> 's"
    and oth :: "'p \<Rightarrow> 's \<Rightarrow> 'e option \<times> 's" +
  fixes u :: 'u and cap0 :: int and k :: nat and M :: int
begin

definition race_inv :: "'s \<times> ('u \<times> int) list \<times> ('u \<times> int) list \<Rightarrow> bool" where
  "race_inv st \<longleftrightarrow> (case st of (s, ws, ts) \<Rightarrow>
     counts \<and> 0 \<le> cap0 \<and> 0 \<le> M \<and> 1 \<le> k \<and> cap0 + int k * M \<le> MaxInt64 \<and> cap s = cap0 \<and> 0 \<le> cnt s u \<and>
     callsUpTo M ws \<and> cnt s u + rcptTotal u ws = rcptTotal u ts \<and>
     rcptTotal u ts \<le> cap0 + (int k - 1) * M)"

lemma race_pass:
  assumes "race_inv (s, ws, ts)" "rd u n s = (None, s')" "0 \<le> n" "n \<le> M"
    and "length (filter (\<lambda>c. fst c = u) ws) < k"
  shows "cnt s u + rcptTotal u ws + n \<le> cap0 + (int k - 1) * M"
proof -
  have inv: counts "0 \<le> M" "cap0 + int k * M \<le> MaxInt64" "cap s = cap0" "0 \<le> cnt s u" "callsUpTo M ws"
    "cnt s u + rcptTotal u ws = rcptTotal u ts" "rcptTotal u ts \<le> cap0 + (int k - 1) * M"
    using assms(1) by (simp_all add: race_inv_def)
  note ws = rcptTotal_bounds [OF inv(6), of u]
  have kM: "(int k - 1) * M + M = int k * M" by (simp add: algebra_simps)
  have "cnt s u + n \<le> MaxInt64" using inv(3,7,8) ws(1) assms(4) kM by linarith
  then have passes: "cnt s u + n \<le> cap0" using read_passes [OF inv(1) assms(2) inv(5) assms(3)] inv(4) by simp
  have "int (length (filter (\<lambda>c. fst c = u) ws)) * M \<le> (int k - 1) * M"
    by (rule mult_right_mono [OF _ inv(2)]) (use assms(5) in linarith)
  with ws(2) passes show ?thesis by linarith
qed

lemma race_step:
  assumes "rcpt_step rd ad oth st st'" "race_inv st"
    and "length (filter (\<lambda>c. fst c = u) (fst (snd st'))) \<le> k" "callsUpTo M (snd (snd st'))"
  shows "race_inv st'"
proof -
  have counts: counts using assms(2) by (simp add: race_inv_def split: prod.splits)
  show ?thesis using assms(1)
proof cases
  case (let_through v n s s' ws ts)
  have fr: "cnt s' = cnt s" "cap s' = cap s" using read_frame [OF counts let_through(3)] by simp_all
  have n: "0 \<le> n" "n \<le> M" using assms(4) let_through by simp_all
  show ?thesis
  proof (cases "v = u")
    case True
    have "length (filter (\<lambda>c. fst c = u) ws) < k" using assms(3) let_through True by simp
    then have "cnt s u + rcptTotal u ws + n \<le> cap0 + (int k - 1) * M"
      using race_pass [of s ws ts n s'] assms(2) let_through True n by simp
    then show ?thesis using assms(2) let_through True n fr unfolding race_inv_def by simp
  qed (use assms(2) let_through n fr in \<open>unfold race_inv_def, simp\<close>)
next
  case (turned_away v n s e s' ws ts)
  then show ?thesis using assms(2) read_frame [OF counts turned_away(3)] unfolding race_inv_def by simp
next
  case (added i ws v n s ts)
  have c: "callsUpTo M ws" using assms(2) added by (simp add: race_inv_def)
  then have "0 \<le> n" using added(3,4) by (metis list_all_length snd_conv)
  moreover have "callsUpTo M (take i ws @ drop (Suc i) ws)"
    using c set_remove [of i ws] unfolding list_all_iff by blast
  ultimately show ?thesis
    using assms(2) added add_counts [OF counts, of v n s] rcptTotal_remove [OF added(3,4), of u]
    unfolding race_inv_def by auto
next
  case (other_check y s e s' ws ts)
  then show ?thesis using assms(2) other_frame [OF counts other_check(3)] unfolding race_inv_def by simp
qed
qed

end

sublocale recipient_race \<subseteq>
  racing: step_system
    "\<lambda>(s, ws, ts). counts \<and> cnt s u = 0 \<and> cap s = cap0 \<and> ws = [] \<and> ts = [] \<and> 0 \<le> cap0 \<and> 0 \<le> M \<and> 1 \<le> k \<and>
       cap0 + int k * M \<le> MaxInt64"
    "\<lambda>st st'. rcpt_step rd ad oth st st' \<and> length (filter (\<lambda>c. fst c = u) (fst (snd st'))) \<le> k \<and>
       callsUpTo M (snd (snd st'))"
    race_inv
proof unfold_locales
  fix st :: "'s \<times> ('u \<times> int) list \<times> ('u \<times> int) list" assume "case st of (s, ws, ts) \<Rightarrow> counts \<and> cnt s u = 0 \<and> cap s = cap0 \<and> ws = [] \<and> ts = [] \<and> 0 \<le> cap0 \<and> 0 \<le> M \<and> 1 \<le> k \<and>
       cap0 + int k * M \<le> MaxInt64"
  then show "race_inv st" unfolding race_inv_def by auto
next
  fix st st' :: "'s \<times> ('u \<times> int) list \<times> ('u \<times> int) list" assume "rcpt_step rd ad oth st st' \<and> length (filter (\<lambda>c. fst c = u) (fst (snd st'))) \<le> k \<and>
       callsUpTo M (snd (snd st'))" "race_inv st"
  then show "race_inv st'" using race_step by blast
qed

section \<open>The limiter provides it\<close>

text \<open>The other checks of the limiter, with their arguments.\<close>

datatype limit_call =
    IPConnectionCall time string | FailedAuthCall time string | UserMessagesCall time string | GlobalMessagesCall time

fun limitCall ::
  "'r redis \<Rightarrow> limit_call \<Rightarrow> ('r, 'z) lworld_scheme \<Rightarrow> limit_error option \<times> ('r, 'z) lworld_scheme" where
  "limitCall R (IPConnectionCall t ip) w = CheckIPConnection R t ip w"
| "limitCall R (FailedAuthCall t ip) w = CheckIPFailedAuth R t ip w"
| "limitCall R (UserMessagesCall t u) w = CheckUserMessages R t u w"
| "limitCall R (GlobalMessagesCall t) w = CheckGlobalMessages R t w"

definition recipientCount :: "('r \<Rightarrow> string \<Rightarrow> int) \<Rightarrow> ('r, 'z) lworld_scheme \<Rightarrow> string \<Rightarrow> int" where
  "recipientCount val w = (\<lambda>u. val (rds w) (userRcptKey u))"

definition recipientCap :: "('r, 'z) lworld_scheme \<Rightarrow> int" where
  "recipientCap w = userRecipientsPerHour (limitsOf (limiter w))"

lemma limitCall_cap: "limitCall R y w = (e, w') \<Longrightarrow> recipientCap w' = recipientCap w"
  by (cases y) (auto simp: recipientCap_def dest!: CheckIPConnection_frame CheckIPFailedAuth_frame
      CheckUserMessages_frame CheckGlobalMessages_frame simp: check_frame_def)

lemma limitCall_count:
  assumes "redis_counts R val" "limitCall R y w = (e, w')"
  shows "recipientCount val w' = recipientCount val w"
proof
  fix u
  note key = checkLimit_other_key [OF assms(1), where k' = "userRcptKey u"]
  show "recipientCount val w' u = recipientCount val w u"
    using assms(2)
  proof (cases y)
    case (IPConnectionCall t ip)
    then show ?thesis
      using assms(2) key [of t "ipConnKey ip" "ipConnectionsPerMinute (limitsOf (limiter w))" Minute w "fst (checkLimit R t (ipConnKey ip) (ipConnectionsPerMinute (limitsOf (limiter w))) Minute w)" "snd (checkLimit R t (ipConnKey ip) (ipConnectionsPerMinute (limitsOf (limiter w))) Minute w)"]
      by (cases "checkLimit R t (ipConnKey ip) (ipConnectionsPerMinute (limitsOf (limiter w))) Minute w")
        (auto simp: recipientCount_def CheckIPConnection_def split: if_splits bool.splits)
  next
    case (FailedAuthCall t ip)
    then show ?thesis
      using assms(2) key [of t "ipAuthKey ip" "ipFailedAuthPerHour (limitsOf (limiter w))" Hour w "fst (checkLimit R t (ipAuthKey ip) (ipFailedAuthPerHour (limitsOf (limiter w))) Hour w)" "snd (checkLimit R t (ipAuthKey ip) (ipFailedAuthPerHour (limitsOf (limiter w))) Hour w)"]
      by (cases "checkLimit R t (ipAuthKey ip) (ipFailedAuthPerHour (limitsOf (limiter w))) Hour w")
        (auto simp: recipientCount_def CheckIPFailedAuth_def split: bool.splits)
  next
    case (UserMessagesCall t v)
    then show ?thesis
      using assms(2) key [of t "userMsgKey v" "userMessagesPerHour (limitsOf (limiter w))" Hour w "fst (checkLimit R t (userMsgKey v) (userMessagesPerHour (limitsOf (limiter w))) Hour w)" "snd (checkLimit R t (userMsgKey v) (userMessagesPerHour (limitsOf (limiter w))) Hour w)"]
      by (cases "checkLimit R t (userMsgKey v) (userMessagesPerHour (limitsOf (limiter w))) Hour w")
        (auto simp: recipientCount_def CheckUserMessages_def split: bool.splits)
  next
    case (GlobalMessagesCall t)
    then show ?thesis
      using assms(2) key [of t globalMsgKey "globalMessagesPerSecond (limitsOf (limiter w))" Second w "fst (checkLimit R t globalMsgKey (globalMessagesPerSecond (limitsOf (limiter w))) Second w)" "snd (checkLimit R t globalMsgKey (globalMessagesPerSecond (limitsOf (limiter w))) Second w)"]
      by (cases "checkLimit R t globalMsgKey (globalMessagesPerSecond (limitsOf (limiter w))) Second w")
        (auto simp: recipientCount_def CheckGlobalMessages_def split: bool.splits)
  qed
qed

interpretation rcpt_limits: recipient_limits "redis_counts R val" "recipientCount val" recipientCap
  "recipientRead R" "recipientAdd R" "limitCall R" for R val
proof unfold_locales
  assume c: "redis_counts R val"
  show "recipientCount val w u + n \<le> recipientCap w"
    if "recipientRead R u n w = (None, w')" "0 \<le> recipientCount val w u" "0 \<le> n"
      "recipientCount val w u + n \<le> MaxInt64" for u n w w'
    using recipientRead_passes [OF c that(1)] that(2-4) by (simp add: recipientCount_def recipientCap_def)
  show "recipientCount val w' = recipientCount val w \<and> recipientCap w' = recipientCap w"
    if "recipientRead R u n w = (e, w')" for u n w e w'
    using recipientRead_frame [OF c that] by (simp add: recipientCount_def recipientCap_def)
  show "recipientCount val (recipientAdd R u n w) =
      (recipientCount val w)(u := recipientCount val w u + n) \<and> recipientCap (recipientAdd R u n w) = recipientCap w" for u n w
    using recipientAdd_counts [OF c, of u n w] by (auto simp: recipientCount_def recipientCap_def)
  show "recipientCount val w' = recipientCount val w \<and> recipientCap w' = recipientCap w"
    if "limitCall R y w = (e, w')" for y w e w'
    using limitCall_count [OF c that] limitCall_cap [OF that] by simp
qed

interpretation rcpt_race: recipient_race "redis_counts R val" "recipientCount val" recipientCap
  "recipientRead R" "recipientAdd R" "limitCall R" u cap0 k M for R val u cap0 k M
  by unfold_locales

lemmas rcpt_race_inv = rcpt_race.race_inv_def

end
