(* ===== verification/LimitProperties.thy ===== *)
theory LimitProperties
  imports RecipientCounter
begin

text \<open>
  The properties of the rate limiter, each with an instance where it has hypotheses.
\<close>

section \<open>A small limiter for the instances\<close>

definition demoLimits :: limits where
  "demoLimits = \<lparr>userMessagesPerHour = 2, userRecipientsPerHour = 5, ipConnectionsPerMinute = 9,
     ipFailedAuthPerHour = 3, globalMessagesPerSecond = 4, globalConcurrentConns = 1\<rparr>"

definition demoLimited :: "'r \<Rightarrow> 'r lworld" where
  "demoLimited r = \<lparr>rds = r, mets = [], limiter = NewLimiter demoLimits\<rparr>"

lemma demoLimited_simps [simp]:
  "rds (demoLimited r) = r" "mets (demoLimited r) = []" "limitsOf (limiter (demoLimited r)) = demoLimits"
  "currentConnections (limiter (demoLimited r)) = 0" "localBuckets (limiter (demoLimited r)) = []"
  by (simp_all add: demoLimited_def NewLimiter_def)

section \<open>Windows\<close>

text \<open>C8: With Redis unreachable, of the calls for a key within one window of its first call exactly
  the first ones, up to the limit, are let through.\<close>

theorem fallback_window:
  assumes "redis_down R" "noWindow t k (limiter w)" "\<forall>u \<in> set ts. u \<le> t + d" "int (length ts) < MaxInt64"
  shows "checkCalls R k n d (t # ts) w = map (\<lambda>i. int i + 1 \<le> n) [0..<length (t # ts)]"
  using checkCalls_down [OF assms(1)] localCalls_fresh [OF assms(2-4)] by metis

theorem fallback_window_witness:
  "checkCalls downRedis ''u'' 2 Hour [0, 5, 9] (demoLimited ()) = [True, True, False]"
proof -
  have "checkCalls downRedis ''u'' 2 Hour (0 # [5, 9]) (demoLimited ()) =
      map (\<lambda>i. int i + 1 \<le> 2) [0..<length ((0 :: time) # [5, 9])]"
    by (rule fallback_window) (simp_all add: noWindow_def Hour_def)
  then show ?thesis by (simp add: upt_rec)
qed

text \<open>Whatever has been counted before, of the calls for a key within any span of time as long as
  the window at most twice the limit are let through by the counters in memory.\<close>

theorem fallback_burst:
  assumes "bucketsOK l" "\<forall>b. map_of (localBuckets l) k = Some b \<longrightarrow> bcount b + int (length ts) \<le> MaxInt64"
    and "int (length ts) \<le> MaxInt64" "\<forall>u \<in> set ts. s \<le> u \<and> u \<le> s + d"
  shows "allowedCount (localCalls k n d ts l) \<le> 2 * nat n"
  using localCalls_burst [OF assms] .

theorem fallback_burst_witness:
  "allowedCount (localCalls ''u'' 2 10 [95, 99, 101, 103, 104]
     \<lparr>limitsOf = demoLimits, localBuckets = [(''u'', \<lparr>bcount = 0, resetTime = 100\<rparr>)],
      currentConnections = 0\<rparr>) \<le> 4"
proof -
  have "allowedCount (localCalls ''u'' 2 10 [95, 99, 101, 103, 104]
     \<lparr>limitsOf = demoLimits, localBuckets = [(''u'', \<lparr>bcount = 0, resetTime = 100\<rparr>)],
      currentConnections = 0\<rparr>) \<le> 2 * nat 2"
    by (rule fallback_burst [where s = 95]) (simp_all add: bucketsOK_def)
  then show ?thesis by simp
qed

text \<open>C29: Removing expired counters from memory, at any moments, changes the answer of no later check:
  with and without the clean-ups the checks are answered the same.\<close>

theorem cleanup_transparent:
  assumes "bucketsDistinct l" "sorted (map eventTime es)"
  shows "localRun es l = localRun (filter isCheck es) l"
proof (cases es)
  case (Cons e es')
  have "sameFrom (eventTime e) l l" by (simp add: sameFrom_def)
  moreover have "sorted (eventTime e # map eventTime es)" using assms(2) Cons by simp
  ultimately show ?thesis using localRun_cleanup assms(1) by blast
qed simp

theorem cleanup_transparent_witness:
  "localRun [LocalCheck 0 ''u'' 1 Minute, LocalCleanup (10 * Minute), LocalCheck (11 * Minute) ''u'' 1 Minute]
     (NewLimiter demoLimits) =
   localRun [LocalCheck 0 ''u'' 1 Minute, LocalCheck (11 * Minute) ''u'' 1 Minute] (NewLimiter demoLimits)"
  using cleanup_transparent
    [of "NewLimiter demoLimits" "[LocalCheck 0 ''u'' 1 Minute, LocalCleanup (10 * Minute),
       LocalCheck (11 * Minute) ''u'' 1 Minute]"]
  by (simp add: bucketsDistinct_def NewLimiter_def Minute_def)

text \<open>C30: While Redis counts, the calls for a key are let through exactly up to the limit on the
  counter of the key, whatever is counted under other keys or in memory.\<close>

theorem redis_window:
  assumes "redis_counts R val"
  shows "checkCalls R k n d ts w = map (\<lambda>i. val (rds w) k + int i + 1 \<le> n) [0..<length ts]"
  using checkCalls_redis [OF assms] .

theorem redis_window_witness:
  "checkCalls countRedis ''u'' 2 Hour [7, 7, 7] (demoLimited [(''u'', 1)]) = [True, False, False]"
  using redis_window [OF redis_counts_countRedis, of "''u''" 2 Hour "[7, 7, 7]" "demoLimited [(''u'', 1)]"]
  by (simp add: cval_def upt_rec)

section \<open>Recipients\<close>

text \<open>C31: While Redis counts, in any interleaving of the calls of all users and of the other checks, with each
  call reading and adding in two steps: when at most \<open>k\<close> calls of a user are between the two at a time, with at most
  \<open>M\<close> recipients each, the recipients the user is let through with in a window exceed the hourly limit by
  at most \<open>(k - 1) * M\<close>, so never when the user's calls do not overlap; and what is let through is
  in the counter or still to be added to it.\<close>

theorem recipients_bound:
  assumes "redis_counts R val" "recipientCount val w0 u = 0" "0 \<le> recipientCap w0" "0 \<le> M" "1 \<le> k"
    and "recipientCap w0 + int k * M \<le> MaxInt64"
    and "(\<lambda>st st'. rcpt_step (recipientRead R) (recipientAdd R) (limitCall R) st st' \<and>
            length (filter (\<lambda>c. fst c = u) (fst (snd st'))) \<le> k \<and> callsUpTo M (snd (snd st')))\<^sup>*\<^sup>*
          (w0, [], []) (w, ws, ts)"
  shows "rcptTotal u ts \<le> recipientCap w0 + (int k - 1) * M \<and>
    recipientCount val w u + rcptTotal u ws = rcptTotal u ts"
proof -
  have "rcpt_race.race_inv R val u (recipientCap w0) k M (w, ws, ts)"
    by (rule rcpt_race.racing.reachable_inv [OF _ assms(7)]) (use assms in simp)
  then show ?thesis by (simp add: rcpt_race_inv)
qed

lemma demo_rcpt_read:
  "recipientRead countRedis ''a'' n (demoLimited r) = (if 5 < wrap64 (cval r (userRcptKey ''a'') + n)
     then (Some (RecipientRate ''a''), record_metric (RecordRateLimitHit ''user_recipients'' ''a'') (demoLimited r))
     else (None, demoLimited r))"
  if "0 \<le> cval r (userRcptKey ''a'')" "cval r (userRcptKey ''a'') \<le> 100"
proof -
  have "currentCount (fst (redis1 countRedis (CGet (userRcptKey ''a'')) r)) = cval r (userRcptKey ''a'')"
    using that sscanfD_showInt [of "cval r (userRcptKey ''a'')"]
    by (auto simp: redis1_def currentCount_def cval_def split: option.splits)
  moreover have "snd (redis1 countRedis (CGet (userRcptKey ''a'')) r) = r" by (simp add: redis1_def)
  ultimately show ?thesis
    by (cases "redis1 countRedis (CGet (userRcptKey ''a'')) r")
      (simp add: recipientRead_def demoLimits_def demoLimited_def NewLimiter_def record_metric_def)
qed

definition rcptAdded :: "int \<Rightarrow> count_redis lworld" where
  "rcptAdded n = recipientAdd countRedis ''a'' n (demoLimited [])"

theorem recipients_bound_witness:
  "\<exists>w ts. (\<lambda>st st'. rcpt_step (recipientRead countRedis) (recipientAdd countRedis) (limitCall countRedis) st st' \<and>
       length (filter (\<lambda>c. fst c = ''a'') (fst (snd st'))) \<le> 2 \<and> callsUpTo 4 (snd (snd st')))\<^sup>*\<^sup>*
     (demoLimited [], [], []) (w, [(''a'', 4)], ts) \<and> rcptTotal ''a'' ts = 8 \<and> rcptTotal ''a'' ts \<le> 5 + 4"
proof -
  let ?step = "\<lambda>st st'. rcpt_step (recipientRead countRedis) (recipientAdd countRedis) (limitCall countRedis) st st' \<and>
    length (filter (\<lambda>c. fst c = ''a'') (fst (snd st'))) \<le> 2 \<and> callsUpTo 4 (snd (snd st'))"
  have rd: "recipientRead countRedis ''a'' 4 (demoLimited []) = (None, demoLimited [])"
    using demo_rcpt_read [of "[]" 4] by (simp add: cval_def wrap64_def)
  have s1: "?step (demoLimited [], [], []) (demoLimited [], [(''a'', 4)], [(''a'', 4)])"
    using rcpt_step.let_through [of "recipientRead countRedis", OF rd, of _ _ "[]" "[]"] by simp
  have s2: "?step (demoLimited [], [(''a'', 4)], [(''a'', 4)])
      (demoLimited [], [(''a'', 4), (''a'', 4)], [(''a'', 4), (''a'', 4)])"
    using rcpt_step.let_through [of "recipientRead countRedis", OF rd, of _ _ "[(''a'', 4)]" "[(''a'', 4)]"] by simp
  have s3: "?step (demoLimited [], [(''a'', 4), (''a'', 4)], [(''a'', 4), (''a'', 4)])
      (rcptAdded 4, [(''a'', 4)], [(''a'', 4), (''a'', 4)])"
    using rcpt_step.added [of 0 "[(''a'', 4 :: int), (''a'', 4)]" "''a''" 4 "recipientRead countRedis" "recipientAdd countRedis"
        "limitCall countRedis" "demoLimited []" "[(''a'', 4), (''a'', 4)]"]
    by (simp add: rcptAdded_def)
  have run: "?step\<^sup>*\<^sup>* (demoLimited [], [], []) (rcptAdded 4, [(''a'', 4)], [(''a'', 4), (''a'', 4)])"
    by (rule converse_rtranclp_into_rtranclp [of ?step, OF s1],
        rule converse_rtranclp_into_rtranclp [of ?step, OF s2], rule r_into_rtranclp [of ?step, OF s3])
  have "rcptTotal ''a'' [(''a'', 4), (''a'', 4)] \<le> recipientCap (demoLimited ([] :: count_redis)) + (int 2 - 1) * 4"
    using recipients_bound [OF redis_counts_countRedis, of "demoLimited []" "''a''" 4 2, OF _ _ _ _ _ run]
    by (simp add: recipientCount_def recipientCap_def cval_def demoLimits_def)
  then have "rcptTotal ''a'' [(''a'', 4), (''a'', 4)] \<le> 5 + 4"
    by (simp add: recipientCap_def demoLimits_def)
  with run show ?thesis by fastforce
qed

text \<open>The limit can be exceeded: with a limit of 5 recipients, two messages to 4 recipients each whose
  counters are both read before either is added are both let through.\<close>

theorem recipients_race:
  "\<exists>w. (rcpt_step (recipientRead countRedis) (recipientAdd countRedis) (limitCall countRedis))\<^sup>*\<^sup>*
     (demoLimited [], [], []) (w, [], [(''a'', 4), (''a'', 4)]) \<and> recipientCap (demoLimited ([] :: count_redis)) = 5"
proof -
  let ?step = "rcpt_step (recipientRead countRedis) (recipientAdd countRedis) (limitCall countRedis)"
  let ?ts = "[(''a'', 4 :: int), (''a'', 4)]"
  have rd: "recipientRead countRedis ''a'' 4 (demoLimited []) = (None, demoLimited [])"
    using demo_rcpt_read [of "[]" 4] by (simp add: cval_def wrap64_def)
  have s1: "?step (demoLimited [], [], []) (demoLimited [], [(''a'', 4)], [(''a'', 4)])"
    using rcpt_step.let_through [of "recipientRead countRedis", OF rd, of _ _ "[]" "[]"] by simp
  have s2: "?step (demoLimited [], [(''a'', 4)], [(''a'', 4)]) (demoLimited [], ?ts, ?ts)"
    using rcpt_step.let_through [of "recipientRead countRedis", OF rd, of _ _ "[(''a'', 4)]" "[(''a'', 4)]"] by simp
  have s3: "?step (demoLimited [], ?ts, ?ts) (rcptAdded 4, [(''a'', 4)], ?ts)"
    using rcpt_step.added [of 0 ?ts "''a''" 4 "recipientRead countRedis" "recipientAdd countRedis"
        "limitCall countRedis" "demoLimited []" ?ts]
    by (simp add: rcptAdded_def)
  have s4: "?step (rcptAdded 4, [(''a'', 4)], ?ts) (recipientAdd countRedis ''a'' 4 (rcptAdded 4), [], ?ts)"
    using rcpt_step.added [of 0 "[(''a'', 4)]" "''a''" 4 "recipientRead countRedis" "recipientAdd countRedis"
        "limitCall countRedis" "rcptAdded 4" ?ts]
    by simp
  have "?step\<^sup>*\<^sup>* (demoLimited [], [], []) (recipientAdd countRedis ''a'' 4 (rcptAdded 4), [], ?ts)"
    using s1 s2 s3 s4 by (meson converse_rtranclp_into_rtranclp rtranclp.rtrancl_refl)
  then show ?thesis by (auto simp: recipientCap_def demoLimits_def)
qed

text \<open>With Redis unreachable the number of recipients per hour is not limited at all: every call
  for at most the limit is let through, however many came before.\<close>

theorem recipients_unlimited:
  assumes "redis_down R" "\<forall>(v, n) \<in> set cs. 0 \<le> n \<and> n \<le> MaxInt64 \<and> n \<le> userRecipientsPerHour (limitsOf (limiter w))"
  shows "recipientCalls R cs w = (replicate (length cs) True, w)"
  using assms(2)
proof (induction cs)
  case (Cons c cs)
  obtain v n where c: "c = (v, n)" by fastforce
  have "CheckUserRecipients R v n w = (None, w)"
    using CheckUserRecipients_down [OF assms(1), of n v w] Cons.prems c by simp
  then show ?case using Cons c by simp
qed simp

theorem recipients_unlimited_witness:
  "recipientCalls downRedis (replicate 3 (''a'', 5)) (demoLimited ()) = ([True, True, True], demoLimited ())"
  using recipients_unlimited [OF redis_down_downRedis, of "replicate 3 (''a'', 5)" "demoLimited ()"]
  by (simp add: demoLimits_def numeral_3_eq_3)

section \<open>Concurrent connections\<close>

text \<open>C7: In any interleaving of any number of connections, with at most \<open>k\<close> of them at a time
  between the check of the limit and the increment of the counter, the counter is the number of
  open connections and these exceed the limit by at most \<open>k - 1\<close>; so never when the two steps are not
  interleaved.\<close>

theorem connection_bound:
  assumes "(\<lambda>st st'. conn_step (connCheck R) (otherCheck R) connCount connUncount st st' \<and>
              count_list (snd st') Admitted \<le> k)\<^sup>*\<^sup>* (w0, []) (w, ps)"
    and "connections w0 = 0" "1 \<le> connectionCap w0" "connectionCap w0 + int k \<le> MaxInt64" "1 \<le> k"
  shows "connections w = int (count_list ps Opened) \<and>
    int (count_list ps Opened) \<le> connectionCap w0 + int k - 1"
proof -
  have "conn_race.race_inv (connectionCap w0) k (w, ps)"
    by (rule conn_race.racing.reachable_inv [OF _ assms(1)]) (use assms in simp)
  then show ?thesis by (simp add: conn_race_inv wrap64_id)
qed

lemma demo_connCheck: "\<exists>w'. connCheck downRedis (0, ''1.2.3.4'') (demoLimited ()) = (None, w')"
  by (simp add: connCheck_def CheckIPConnection_def demoLimits_def checkLimit_down
      checkLocalLimit_def currentBucket_def freshBucket_def wrap64_def)

lemma demo_conn_cap: "connectionCap (demoLimited r) = 1" "connections (demoLimited r) = 0"
  by (simp_all add: connectionCap_def connections_def GetCurrentConnections_def demoLimits_def)

theorem connection_bound_witness:
  "\<exists>w. (\<lambda>st st'. conn_step (connCheck downRedis) (otherCheck downRedis) connCount connUncount st st' \<and>
          count_list (snd st') Admitted \<le> 1)\<^sup>*\<^sup>* (demoLimited (), []) (w, [Opened]) \<and> connections w = 1"
proof -
  let ?step = "\<lambda>st st'. conn_step (connCheck downRedis) (otherCheck downRedis) connCount connUncount st st' \<and>
    count_list (snd st') Admitted \<le> (1 :: nat)"
  obtain w1 where c: "connCheck downRedis (0, ''1.2.3.4'') (demoLimited ()) = (None, w1)"
    using demo_connCheck by blast
  have s1: "?step (demoLimited (), []) (demoLimited (), [Arriving])"
    using conn_step.arrive [of _ _ _ _ "demoLimited ()" "[]"] by simp
  have s2: "?step (demoLimited (), [Arriving]) (w1, [Admitted])"
    using conn_step.admit [of 0 "[Arriving]" "connCheck downRedis", OF _ _ c] by simp
  have s3: "?step (w1, [Admitted]) (connCount w1, [Opened])"
    using conn_step.opened [of 0 "[Admitted]" _ _ connCount _ w1] by simp
  have "?step\<^sup>*\<^sup>* (demoLimited (), []) (connCount w1, [Opened])"
    by (rule converse_rtranclp_into_rtranclp [of ?step, OF s1],
        rule converse_rtranclp_into_rtranclp [of ?step, OF s2], rule r_into_rtranclp [of ?step, OF s3])
  moreover from connection_bound [OF this] have "connections (connCount w1) = 1"
    by (simp add: demo_conn_cap)
  ultimately show ?thesis by blast
qed

text \<open>The limit can be exceeded: with a limit of one connection, two that are both checked before
  either is counted are both opened.\<close>

theorem connection_race:
  "\<exists>w. (conn_step (connCheck downRedis) (otherCheck downRedis) connCount connUncount)\<^sup>*\<^sup>*
         (demoLimited (), []) (w, [Opened, Opened]) \<and> connections w = 2 \<and> connectionCap w = 1"
proof -
  let ?step = "conn_step (connCheck downRedis) (otherCheck downRedis) connCount connUncount"
  let ?x = "(0 :: time, ''1.2.3.4'')"
  obtain w1 where c1: "connCheck downRedis ?x (demoLimited ()) = (None, w1)"
    using demo_connCheck by blast
  have w1: "currentConnections (limiter w1) = 0 \<and> limitsOf (limiter w1) = demoLimits \<and>
      map_of (localBuckets (limiter w1)) (ipConnKey ''1.2.3.4'') = Some \<lparr>bcount = 1, resetTime = Minute\<rparr>"
    using c1 by (auto simp: connCheck_def CheckIPConnection_def demoLimits_def checkLimit_down
        checkLocalLimit_def currentBucket_def freshBucket_def wrap64_def split: if_splits)
  have "\<exists>w2. connCheck downRedis ?x w1 = (None, w2)"
    using w1 by (simp add: connCheck_def CheckIPConnection_def demoLimits_def checkLimit_down
        checkLocalLimit_def currentBucket_def freshBucket_def wrap64_def Minute_def)
  then obtain w2 where c2: "connCheck downRedis ?x w1 = (None, w2)" by blast
  have "check_frame w1 w2" using c2 CheckIPConnection_frame by (auto simp: connCheck_def)
  then have w2: "currentConnections (limiter w2) = 0" "limitsOf (limiter w2) = demoLimits"
    using w1 by (simp_all add: check_frame_def)
  have s1: "?step (demoLimited (), []) (demoLimited (), [Arriving])"
    using conn_step.arrive [of _ _ _ _ "demoLimited ()" "[]"] by simp
  have s2: "?step (demoLimited (), [Arriving]) (demoLimited (), [Arriving, Arriving])"
    using conn_step.arrive [of _ _ _ _ "demoLimited ()" "[Arriving]"] by simp
  have s3: "?step (demoLimited (), [Arriving, Arriving]) (w1, [Admitted, Arriving])"
    using conn_step.admit [of 0 "[Arriving, Arriving]" "connCheck downRedis", OF _ _ c1] by simp
  have s4: "?step (w1, [Admitted, Arriving]) (w2, [Admitted, Admitted])"
    using conn_step.admit [of 1 "[Admitted, Arriving]" "connCheck downRedis", OF _ _ c2] by simp
  have s5: "?step (w2, [Admitted, Admitted]) (connCount w2, [Opened, Admitted])"
    using conn_step.opened [of 0 "[Admitted, Admitted]" _ _ connCount _ w2] by simp
  have s6: "?step (connCount w2, [Opened, Admitted]) (connCount (connCount w2), [Opened, Opened])"
    using conn_step.opened [of 1 "[Opened, Admitted]" _ _ connCount _ "connCount w2"] by simp
  have "?step\<^sup>*\<^sup>* (demoLimited (), []) (connCount (connCount w2), [Opened, Opened])"
    by (rule converse_rtranclp_into_rtranclp [of ?step, OF s1],
        rule converse_rtranclp_into_rtranclp [of ?step, OF s2],
        rule converse_rtranclp_into_rtranclp [of ?step, OF s3],
        rule converse_rtranclp_into_rtranclp [of ?step, OF s4],
        rule converse_rtranclp_into_rtranclp [of ?step, OF s5], rule r_into_rtranclp [of ?step, OF s6])
  moreover have "connections (connCount (connCount w2)) = 2" "connectionCap (connCount (connCount w2)) = 1"
    using w2 by (simp_all add: connections_def connectionCap_def connCount_def GetCurrentConnections_def
        IncrementConnection_def wrap64_def demoLimits_def)
  ultimately show ?thesis by blast
qed

end
