(* ===== verification/ConfigData.thy ===== *)
theory ConfigData
  imports GoStrings
begin

text \<open>
  \<open>internal/config/config.go\<close>: the configuration and its defaults. A field carries a prefix for the
  structure it belongs to.
\<close>

record ServerConfig =
  srv_Hostname :: string
  srv_Version :: string

record ListenerConfig =
  lsn_IP :: string
  lsn_Port :: int
  lsn_Mode :: string
  lsn_RequireTLS :: bool
  lsn_RequireAuth :: bool

record DSNConfig =
  dsn_Enabled :: bool
  dsn_MaxEnvidLength :: int

record SMTPConfig =
  smtp_Listeners :: "ListenerConfig list"
  smtp_MaxMessageSize :: int
  smtp_MaxRecipients :: int
  smtp_ReadTimeout :: duration
  smtp_WriteTimeout :: duration
  smtp_DSN :: DSNConfig

record TLSConfig =
  tls_CertsDir :: string
  tls_MinVersion :: string
  tls_PreferServerCiphers :: bool
  tls_CipherSuites :: "string list"

record RedisAuthConfig =
  rauth_Enabled :: bool
  rauth_Addresses :: "string list"
  rauth_Password :: string
  rauth_DB :: int
  rauth_PoolSize :: int

record IPAllowConfig =
  ipallow_Enabled :: bool
  ipallow_IPs :: "string list"

record AuthConfig =
  auth_Redis :: RedisAuthConfig
  auth_IPAllowlist :: IPAllowConfig

record UserRateLimits =
  rlu_MessagesPerHour :: int
  rlu_RecipientsPerHour :: int

record IPRateLimits =
  rli_ConnectionsPerMinute :: int
  rli_FailedAuthPerHour :: int

record GlobalRateLimits =
  rlg_MessagesPerSecond :: int
  rlg_ConcurrentConnections :: int

record RateLimitConfig =
  rate_Enabled :: bool
  rate_User :: UserRateLimits
  rate_IP :: IPRateLimits
  rate_Global :: GlobalRateLimits

record RetentionConfig =
  ret_Incoming :: duration
  ret_Parsed :: duration
  ret_Filtered :: duration
  ret_Modified :: duration
  ret_Signed :: duration
  ret_Delivering :: duration
  ret_Done :: duration
  ret_Failed :: duration

record SpoolConfig =
  spl_BasePath :: string
  spl_Retention :: RetentionConfig

record DeduplicationConfig =
  dedup_Enabled :: bool
  dedup_Window :: duration
  dedup_Storage :: string

record HeaderRule =
  hdr_Name :: string
  hdr_Value :: string

record FooterRule =
  ftr_HTML :: string
  ftr_Text :: string

record ModificationProfile =
  prof_Name :: string
  prof_Selector :: string
  prof_AddHeaders :: "HeaderRule list"
  prof_InjectFooter :: FooterRule

record ModificationConfig =
  modif_Enabled :: bool
  modif_RulesReloadInterval :: duration
  modif_Profiles :: "ModificationProfile list"

record DKIMDomain =
  dkd_Domain :: string
  dkd_Selector :: string
  dkd_PrivateKey :: string

record DKIMConfig =
  dkim_Enabled :: bool
  dkim_KeysDir :: string
  dkim_CanonicalizationHeader :: string
  dkim_CanonicalizationBody :: string
  dkim_Domains :: "DKIMDomain list"

record OutputValidationConfig =
  outv_SPFCheck :: bool
  outv_DKIMVerify :: bool

record PoolConfig =
  pool_Enabled :: bool
  pool_MaxPerHost :: int
  pool_IdleTimeout :: duration

record CacheConfig =
  cache_Enabled :: bool
  cache_TTL :: duration

record DeliveryTLSConfig =
  dtls_Enabled :: bool
  dtls_Verify :: bool
  dtls_MinVersion :: string

record DeliveryConfig =
  dlv_Workers :: int
  dlv_RetrySchedule :: "duration list"
  dlv_MaxAttempts :: int
  dlv_ConnectionPool :: PoolConfig
  dlv_MXCache :: CacheConfig
  dlv_TLS :: DeliveryTLSConfig

record DatabaseConfig =
  dbc_Path :: string
  dbc_MaxOpenConns :: int
  dbc_MaxIdleConns :: int
  dbc_ConnMaxLifetime :: duration

record ClickHouseConfig =
  ch_Addresses :: "string list"
  ch_Database :: string
  ch_Username :: string
  ch_Password :: string
  ch_BufferSize :: int
  ch_FlushInterval :: duration
  ch_RetryMaxInterval :: duration
  ch_Compression :: bool

record S3Config =
  s3_Enabled :: bool
  s3_Endpoint :: string
  s3_Region :: string
  s3_Bucket :: string
  s3_AccessKeyID :: string
  s3_SecretAccessKey :: string
  s3_PathPrefix :: string
  s3_UseSSL :: bool
  s3_ArchiveOriginal :: bool
  s3_ArchiveFinal :: bool

record WorkersConfig =
  wrk_Parse :: int
  wrk_Modify :: int
  wrk_Sign :: int
  wrk_Delivery :: int
  wrk_Archive :: int

record ObservabilityConfig =
  obs_LogLevel :: string
  obs_LogFormat :: string
  obs_MetricsEnabled :: bool
  obs_MetricsListen :: string
  obs_HealthListen :: string

record RedisConfig =
  red_Addresses :: "string list"
  red_Password :: string
  red_DB :: int
  red_PoolSize :: int
  red_MaxRetries :: int
  red_DialTimeout :: duration
  red_ReadTimeout :: duration
  red_WriteTimeout :: duration

record Config =
  cfg_Server :: ServerConfig
  cfg_SMTP :: SMTPConfig
  cfg_TLS :: TLSConfig
  cfg_Auth :: AuthConfig
  cfg_RateLimit :: RateLimitConfig
  cfg_Spool :: SpoolConfig
  cfg_Deduplication :: DeduplicationConfig
  cfg_Modification :: ModificationConfig
  cfg_DKIM :: DKIMConfig
  cfg_OutputValidation :: OutputValidationConfig
  cfg_Delivery :: DeliveryConfig
  cfg_Database :: DatabaseConfig
  cfg_ClickHouse :: ClickHouseConfig
  cfg_S3 :: S3Config
  cfg_Workers :: WorkersConfig
  cfg_Observability :: ObservabilityConfig
  cfg_Redis :: RedisConfig

definition DefaultConfig :: Config where
  "DefaultConfig =
    \<lparr>cfg_Server = \<lparr>srv_Hostname = ''localhost'',
         srv_Version = ''1.0.0''\<rparr>,
     cfg_SMTP = \<lparr>smtp_Listeners = [\<lparr>lsn_IP = ''0.0.0.0'',
             lsn_Port = 587,
             lsn_Mode = ''starttls'',
             lsn_RequireTLS = True,
             lsn_RequireAuth = True\<rparr>],
         smtp_MaxMessageSize = 50 * 1024 * 1024,
         smtp_MaxRecipients = 100,
         smtp_ReadTimeout = 120 * Second,
         smtp_WriteTimeout = 120 * Second,
         smtp_DSN = \<lparr>dsn_Enabled = True,
             dsn_MaxEnvidLength = 100\<rparr>\<rparr>,
     cfg_TLS = \<lparr>tls_CertsDir = ''./certs'',
         tls_MinVersion = ''1.2'',
         tls_PreferServerCiphers = True,
         tls_CipherSuites = []\<rparr>,
     cfg_Auth = \<lparr>auth_Redis = \<lparr>rauth_Enabled = True,
             rauth_Addresses = [''localhost:6379''],
             rauth_Password = [],
             rauth_DB = 0,
             rauth_PoolSize = 10\<rparr>,
         auth_IPAllowlist = \<lparr>ipallow_Enabled = False,
             ipallow_IPs = []\<rparr>\<rparr>,
     cfg_RateLimit = \<lparr>rate_Enabled = True,
         rate_User = \<lparr>rlu_MessagesPerHour = 1000,
             rlu_RecipientsPerHour = 10000\<rparr>,
         rate_IP = \<lparr>rli_ConnectionsPerMinute = 60,
             rli_FailedAuthPerHour = 10\<rparr>,
         rate_Global = \<lparr>rlg_MessagesPerSecond = 100,
             rlg_ConcurrentConnections = 1000\<rparr>\<rparr>,
     cfg_Spool = \<lparr>spl_BasePath = ''/var/spool/outbound'',
         spl_Retention = \<lparr>ret_Incoming = 1 * Hour,
             ret_Parsed = 1 * Hour,
             ret_Filtered = 1 * Hour,
             ret_Modified = 1 * Hour,
             ret_Signed = 1 * Hour,
             ret_Delivering = 24 * Hour,
             ret_Done = 24 * Hour,
             ret_Failed = 7 * 24 * Hour\<rparr>\<rparr>,
     cfg_Deduplication = \<lparr>dedup_Enabled = True,
         dedup_Window = 24 * Hour,
         dedup_Storage = ''redis''\<rparr>,
     cfg_Modification = \<lparr>modif_Enabled = False,
         modif_RulesReloadInterval = 30 * Second,
         modif_Profiles = []\<rparr>,
     cfg_DKIM = \<lparr>dkim_Enabled = True,
         dkim_KeysDir = ''./dkim'',
         dkim_CanonicalizationHeader = ''relaxed'',
         dkim_CanonicalizationBody = ''relaxed'',
         dkim_Domains = []\<rparr>,
     cfg_OutputValidation = \<lparr>outv_SPFCheck = False,
         outv_DKIMVerify = True\<rparr>,
     cfg_Delivery = \<lparr>dlv_Workers = 16,
         dlv_RetrySchedule = [1 * Minute, 5 * Minute, 15 * Minute, 1 * Hour, 4 * Hour, 8 * Hour, 24 * Hour],
         dlv_MaxAttempts = 7,
         dlv_ConnectionPool = \<lparr>pool_Enabled = True,
             pool_MaxPerHost = 10,
             pool_IdleTimeout = 5 * Minute\<rparr>,
         dlv_MXCache = \<lparr>cache_Enabled = True,
             cache_TTL = 1 * Hour\<rparr>,
         dlv_TLS = \<lparr>dtls_Enabled = True,
             dtls_Verify = True,
             dtls_MinVersion = ''1.2''\<rparr>\<rparr>,
     cfg_Database = \<lparr>dbc_Path = ''./queue.db'',
         dbc_MaxOpenConns = 25,
         dbc_MaxIdleConns = 5,
         dbc_ConnMaxLifetime = 5 * Minute\<rparr>,
     cfg_ClickHouse = \<lparr>ch_Addresses = [''localhost:9000''],
         ch_Database = ''outbound'',
         ch_Username = ''default'',
         ch_Password = '''',
         ch_BufferSize = 100,
         ch_FlushInterval = 10 * Second,
         ch_RetryMaxInterval = 5 * Minute,
         ch_Compression = True\<rparr>,
     cfg_S3 = \<lparr>s3_Enabled = False,
         s3_Endpoint = '''',
         s3_Region = ''us-east-1'',
         s3_Bucket = ''outbound-archive'',
         s3_AccessKeyID = [],
         s3_SecretAccessKey = [],
         s3_PathPrefix = ''emails'',
         s3_UseSSL = True,
         s3_ArchiveOriginal = True,
         s3_ArchiveFinal = True\<rparr>,
     cfg_Workers = \<lparr>wrk_Parse = 4,
         wrk_Modify = 4,
         wrk_Sign = 4,
         wrk_Delivery = 16,
         wrk_Archive = 4\<rparr>,
     cfg_Observability = \<lparr>obs_LogLevel = ''info'',
         obs_LogFormat = ''json'',
         obs_MetricsEnabled = True,
         obs_MetricsListen = '':9090'',
         obs_HealthListen = '':8080''\<rparr>,
     cfg_Redis = \<lparr>red_Addresses = [''localhost:6379''],
         red_Password = '''',
         red_DB = 0,
         red_PoolSize = 50,
         red_MaxRetries = 3,
         red_DialTimeout = 5 * Second,
         red_ReadTimeout = 3 * Second,
         red_WriteTimeout = 3 * Second\<rparr>\<rparr>"

end
