(* ===== verification/Config.thy ===== *)
theory Config
  imports ConfigData
begin

text \<open>
  \<open>internal/config/config.go\<close>: loading the configuration, the environment variables that override
  it and its validation. \<open>os.Getenv\<close> is the function \<open>env\<close>, which gives the empty string for an
  unset variable; the YAML decoder is a library outside the repository and a parameter.
\<close>

section \<open>Environment variables\<close>

type_synonym env = "string \<Rightarrow> string"

definition envSet :: "env \<Rightarrow> string \<Rightarrow> (string \<Rightarrow> Config \<Rightarrow> Config) \<Rightarrow> Config \<Rightarrow> Config" where
  "envSet env name f c = (let v = env name in if v \<noteq> [] then f v c else c)"

definition setMaxMessageSize :: "string \<Rightarrow> Config \<Rightarrow> Config" where
  "setMaxMessageSize v c =
     (case parseInt v of
        Some i \<Rightarrow> c\<lparr>cfg_SMTP := (cfg_SMTP c)\<lparr>smtp_MaxMessageSize := i\<rparr>\<rparr>
      | None \<Rightarrow> c)"

definition setRedisAuthAddresses :: "string \<Rightarrow> Config \<Rightarrow> Config" where
  "setRedisAuthAddresses v c =
     c\<lparr>cfg_Auth := (cfg_Auth c)\<lparr>auth_Redis := (auth_Redis (cfg_Auth c))
         \<lparr>rauth_Addresses := splitOn CHR '','' v\<rparr>\<rparr>\<rparr>"

definition setRedisAuthPassword :: "string \<Rightarrow> Config \<Rightarrow> Config" where
  "setRedisAuthPassword v c =
     c\<lparr>cfg_Auth := (cfg_Auth c)\<lparr>auth_Redis := (auth_Redis (cfg_Auth c))\<lparr>rauth_Password := v\<rparr>\<rparr>\<rparr>"

definition applyEnvOverrides :: "env \<Rightarrow> Config \<Rightarrow> Config" where
  "applyEnvOverrides env c =
     (let c = envSet env ''OUTBOUND_SERVER_HOSTNAME''
            (\<lambda>v c. c\<lparr>cfg_Server := (cfg_Server c)\<lparr>srv_Hostname := v\<rparr>\<rparr>) c;
          c = envSet env ''OUTBOUND_SMTP_MAX_MESSAGE_SIZE'' setMaxMessageSize c;
          c = envSet env ''OUTBOUND_REDIS_AUTH_ADDRESSES'' setRedisAuthAddresses c;
          c = envSet env ''OUTBOUND_REDIS_AUTH_PASSWORD'' setRedisAuthPassword c;
          c = envSet env ''OUTBOUND_REDIS_ADDRESSES''
            (\<lambda>v c. c\<lparr>cfg_Redis := (cfg_Redis c)\<lparr>red_Addresses := splitOn CHR '','' v\<rparr>\<rparr>) c;
          c = envSet env ''OUTBOUND_REDIS_PASSWORD''
            (\<lambda>v c. c\<lparr>cfg_Redis := (cfg_Redis c)\<lparr>red_Password := v\<rparr>\<rparr>) c;
          c = envSet env ''OUTBOUND_CLICKHOUSE_ADDRESSES''
            (\<lambda>v c. c\<lparr>cfg_ClickHouse := (cfg_ClickHouse c)\<lparr>ch_Addresses := splitOn CHR '','' v\<rparr>\<rparr>) c;
          c = envSet env ''OUTBOUND_CLICKHOUSE_PASSWORD''
            (\<lambda>v c. c\<lparr>cfg_ClickHouse := (cfg_ClickHouse c)\<lparr>ch_Password := v\<rparr>\<rparr>) c;
          c = envSet env ''OUTBOUND_S3_ENABLED''
            (\<lambda>v c. c\<lparr>cfg_S3 := (cfg_S3 c)\<lparr>s3_Enabled := (v = ''true'')\<rparr>\<rparr>) c;
          c = envSet env ''OUTBOUND_S3_ENDPOINT''
            (\<lambda>v c. c\<lparr>cfg_S3 := (cfg_S3 c)\<lparr>s3_Endpoint := v\<rparr>\<rparr>) c;
          c = envSet env ''OUTBOUND_S3_BUCKET''
            (\<lambda>v c. c\<lparr>cfg_S3 := (cfg_S3 c)\<lparr>s3_Bucket := v\<rparr>\<rparr>) c;
          c = envSet env ''OUTBOUND_S3_ACCESS_KEY_ID''
            (\<lambda>v c. c\<lparr>cfg_S3 := (cfg_S3 c)\<lparr>s3_AccessKeyID := v\<rparr>\<rparr>) c;
          c = envSet env ''OUTBOUND_S3_SECRET_ACCESS_KEY''
            (\<lambda>v c. c\<lparr>cfg_S3 := (cfg_S3 c)\<lparr>s3_SecretAccessKey := v\<rparr>\<rparr>) c;
          c = envSet env ''OUTBOUND_DATABASE_PATH''
            (\<lambda>v c. c\<lparr>cfg_Database := (cfg_Database c)\<lparr>dbc_Path := v\<rparr>\<rparr>) c;
          c = envSet env ''OUTBOUND_SPOOL_BASE_PATH''
            (\<lambda>v c. c\<lparr>cfg_Spool := (cfg_Spool c)\<lparr>spl_BasePath := v\<rparr>\<rparr>) c
      in envSet env ''OUTBOUND_LOG_LEVEL''
           (\<lambda>v c. c\<lparr>cfg_Observability := (cfg_Observability c)\<lparr>obs_LogLevel := v\<rparr>\<rparr>) c)"

section \<open>Validation\<close>

datatype config_error =
    HostnameRequired | ListenerRequired | InvalidPort nat int | InvalidMode nat string
  | MaxMessageSizePositive | RedisAuthAddressesRequired | SpoolBasePathRequired
  | DatabasePathRequired | ClickHouseDatabaseRequired

fun validateListeners :: "nat \<Rightarrow> ListenerConfig list \<Rightarrow> config_error option" where
  "validateListeners i [] = None"
| "validateListeners i (l # ls) =
     (if lsn_Port l \<le> 0 \<or> 65535 < lsn_Port l then Some (InvalidPort i (lsn_Port l))
      else if lsn_Mode l \<noteq> ''starttls'' \<and> lsn_Mode l \<noteq> ''implicit_tls'' \<and> lsn_Mode l \<noteq> ''plaintext''
      then Some (InvalidMode i (lsn_Mode l))
      else validateListeners (Suc i) ls)"

definition Validate :: "Config \<Rightarrow> config_error option" where
  "Validate c =
     (if srv_Hostname (cfg_Server c) = [] then Some HostnameRequired
      else if smtp_Listeners (cfg_SMTP c) = [] then Some ListenerRequired
      else
        (case validateListeners 0 (smtp_Listeners (cfg_SMTP c)) of
           Some e \<Rightarrow> Some e
         | None \<Rightarrow>
             if smtp_MaxMessageSize (cfg_SMTP c) \<le> 0 then Some MaxMessageSizePositive
             else if rauth_Enabled (auth_Redis (cfg_Auth c)) \<and> rauth_Addresses (auth_Redis (cfg_Auth c)) = []
             then Some RedisAuthAddressesRequired
             else if spl_BasePath (cfg_Spool c) = [] then Some SpoolBasePathRequired
             else if dbc_Path (cfg_Database c) = [] then Some DatabasePathRequired
             else if ch_Database (cfg_ClickHouse c) = [] then Some ClickHouseDatabaseRequired
             else None))"

section \<open>Load\<close>

datatype load_error = ReadingConfig | ParsingConfig | InvalidConfig config_error

text \<open>
  \<open>rd\<close> reads the configuration file (\<open>None\<close> is an error), \<open>yaml\<close> decodes it into a configuration.
\<close>

definition Load ::
  "(string \<Rightarrow> bytes option) \<Rightarrow> (bytes \<Rightarrow> Config \<Rightarrow> Config option) \<Rightarrow> env \<Rightarrow> string \<Rightarrow> load_error + Config" where
  "Load rd yaml env path =
     (let parsed =
            (if path \<noteq> [] then
               (case rd path of
                  None \<Rightarrow> Inl ReadingConfig
                | Some data \<Rightarrow>
                    (case yaml data DefaultConfig of None \<Rightarrow> Inl ParsingConfig | Some c \<Rightarrow> Inr c))
             else Inr DefaultConfig)
      in case parsed of
           Inl e \<Rightarrow> Inl e
         | Inr c \<Rightarrow>
             (let c = applyEnvOverrides env c
              in case Validate c of
                   Some e \<Rightarrow> Inl (InvalidConfig e)
                 | None \<Rightarrow> Inr c))"

section \<open>What a loaded configuration satisfies\<close>

definition listenerOK :: "ListenerConfig \<Rightarrow> bool" where
  "listenerOK l \<longleftrightarrow> 1 \<le> lsn_Port l \<and> lsn_Port l \<le> 65535 \<and>
     lsn_Mode l \<in> {''starttls'', ''implicit_tls'', ''plaintext''}"

definition configOK :: "Config \<Rightarrow> bool" where
  "configOK c \<longleftrightarrow>
     srv_Hostname (cfg_Server c) \<noteq> [] \<and> smtp_Listeners (cfg_SMTP c) \<noteq> [] \<and>
     list_all listenerOK (smtp_Listeners (cfg_SMTP c)) \<and> 0 < smtp_MaxMessageSize (cfg_SMTP c) \<and>
     (rauth_Enabled (auth_Redis (cfg_Auth c)) \<longrightarrow> rauth_Addresses (auth_Redis (cfg_Auth c)) \<noteq> []) \<and>
     spl_BasePath (cfg_Spool c) \<noteq> [] \<and> dbc_Path (cfg_Database c) \<noteq> [] \<and>
     ch_Database (cfg_ClickHouse c) \<noteq> []"

lemma validateListeners_None: "validateListeners i ls = None \<longleftrightarrow> list_all listenerOK ls"
  by (induction ls arbitrary: i) (auto simp: listenerOK_def)

lemma Validate_None: "Validate c = None \<longleftrightarrow> configOK c"
  using validateListeners_None [of 0 "smtp_Listeners (cfg_SMTP c)"]
  by (auto simp: Validate_def configOK_def split: option.split)

text \<open>What is wrong with a configuration, by the error that says so.\<close>

fun errorHolds :: "config_error \<Rightarrow> Config \<Rightarrow> bool" where
  "errorHolds HostnameRequired c \<longleftrightarrow> srv_Hostname (cfg_Server c) = []"
| "errorHolds ListenerRequired c \<longleftrightarrow> smtp_Listeners (cfg_SMTP c) = []"
| "errorHolds (InvalidPort k p) c \<longleftrightarrow>
     k < length (smtp_Listeners (cfg_SMTP c)) \<and> p = lsn_Port (smtp_Listeners (cfg_SMTP c) ! k) \<and> p \<notin> {1..65535} \<and>
     list_all listenerOK (take k (smtp_Listeners (cfg_SMTP c)))"
| "errorHolds (InvalidMode k m) c \<longleftrightarrow>
     k < length (smtp_Listeners (cfg_SMTP c)) \<and> m = lsn_Mode (smtp_Listeners (cfg_SMTP c) ! k) \<and>
     m \<notin> {''starttls'', ''implicit_tls'', ''plaintext''} \<and>
     list_all listenerOK (take k (smtp_Listeners (cfg_SMTP c)))"
| "errorHolds MaxMessageSizePositive c \<longleftrightarrow> smtp_MaxMessageSize (cfg_SMTP c) \<le> 0"
| "errorHolds RedisAuthAddressesRequired c \<longleftrightarrow>
     rauth_Enabled (auth_Redis (cfg_Auth c)) \<and> rauth_Addresses (auth_Redis (cfg_Auth c)) = []"
| "errorHolds SpoolBasePathRequired c \<longleftrightarrow> spl_BasePath (cfg_Spool c) = []"
| "errorHolds DatabasePathRequired c \<longleftrightarrow> dbc_Path (cfg_Database c) = []"
| "errorHolds ClickHouseDatabaseRequired c \<longleftrightarrow> ch_Database (cfg_ClickHouse c) = []"

lemma validateListeners_holds:
  "validateListeners i ls = Some e \<Longrightarrow>
     \<exists>k < length ls. list_all listenerOK (take k ls) \<and>
       (e = InvalidPort (i + k) (lsn_Port (ls ! k)) \<and> lsn_Port (ls ! k) \<notin> {1..65535} \<or>
        e = InvalidMode (i + k) (lsn_Mode (ls ! k)) \<and>
          lsn_Mode (ls ! k) \<notin> {''starttls'', ''implicit_tls'', ''plaintext''})"
proof (induction ls arbitrary: i)
  case (Cons l ls)
  show ?case
  proof (cases "listenerOK l")
    case True
    then have "validateListeners (Suc i) ls = Some e"
      using Cons.prems by (auto simp: listenerOK_def split: if_splits)
    from Cons.IH [OF this] obtain k where "k < length ls" "list_all listenerOK (take k ls)"
      "e = InvalidPort (Suc i + k) (lsn_Port (ls ! k)) \<and> lsn_Port (ls ! k) \<notin> {1..65535} \<or>
       e = InvalidMode (Suc i + k) (lsn_Mode (ls ! k)) \<and>
         lsn_Mode (ls ! k) \<notin> {''starttls'', ''implicit_tls'', ''plaintext''}"
      by blast
    then show ?thesis using True by (intro exI [of _ "Suc k"]) auto
  next
    case False
    then show ?thesis
      using Cons.prems by (intro exI [of _ 0]) (auto simp: listenerOK_def split: if_splits)
  qed
qed simp

lemma Validate_errorHolds: "Validate c = Some e \<Longrightarrow> errorHolds e c"
  using validateListeners_holds [of 0 "smtp_Listeners (cfg_SMTP c)" e]
  by (auto simp: Validate_def split: if_splits option.splits)

text \<open>The configuration before the environment is applied, if the file can be read and decoded.\<close>

definition configSource ::
  "(string \<Rightarrow> bytes option) \<Rightarrow> (bytes \<Rightarrow> Config \<Rightarrow> Config option) \<Rightarrow> string \<Rightarrow> Config option" where
  "configSource rd yaml path =
     (if path = [] then Some DefaultConfig else Option.bind (rd path) (\<lambda>data. yaml data DefaultConfig))"

lemma DefaultConfig_OK: "configOK DefaultConfig"
  by (simp add: configOK_def DefaultConfig_def listenerOK_def)

lemma Load_OK: "Load rd yaml env path = Inr c \<Longrightarrow> configOK c"
  by (auto simp: Load_def Let_def Validate_None split: sum.splits option.splits if_splits)

text \<open>What the environment decides, field by field, and what it leaves.\<close>

definition envOr :: "env \<Rightarrow> string \<Rightarrow> string \<Rightarrow> string" where
  "envOr env name old = (if env name = [] then old else env name)"

definition envListOr :: "env \<Rightarrow> string \<Rightarrow> string list \<Rightarrow> string list" where
  "envListOr env name old = (if env name = [] then old else splitOn CHR '','' (env name))"

definition envSizeOr :: "env \<Rightarrow> string \<Rightarrow> int \<Rightarrow> int" where
  "envSizeOr env name old = (case parseInt (env name) of None \<Rightarrow> old | Some i \<Rightarrow> i)"

lemma parseInt_Nil [simp]: "parseInt [] = None"
  by (simp add: parseInt_def)

definition envBoolOr :: "env \<Rightarrow> string \<Rightarrow> bool \<Rightarrow> bool" where
  "envBoolOr env name old = (if env name = [] then old else env name = ''true'')"

text \<open>One override each, as an update of its field.\<close>

lemma envSet_fields:
  "envSet env n (\<lambda>v c. c\<lparr>cfg_Server := (cfg_Server c)\<lparr>srv_Hostname := v\<rparr>\<rparr>) c =
     c\<lparr>cfg_Server := (cfg_Server c)\<lparr>srv_Hostname := envOr env n (srv_Hostname (cfg_Server c))\<rparr>\<rparr>"
  "envSet env n (\<lambda>v c. c\<lparr>cfg_Redis := (cfg_Redis c)\<lparr>red_Addresses := splitOn CHR '','' v\<rparr>\<rparr>) c =
     c\<lparr>cfg_Redis := (cfg_Redis c)\<lparr>red_Addresses := envListOr env n (red_Addresses (cfg_Redis c))\<rparr>\<rparr>"
  "envSet env n (\<lambda>v c. c\<lparr>cfg_Redis := (cfg_Redis c)\<lparr>red_Password := v\<rparr>\<rparr>) c =
     c\<lparr>cfg_Redis := (cfg_Redis c)\<lparr>red_Password := envOr env n (red_Password (cfg_Redis c))\<rparr>\<rparr>"
  "envSet env n (\<lambda>v c. c\<lparr>cfg_ClickHouse := (cfg_ClickHouse c)\<lparr>ch_Addresses := splitOn CHR '','' v\<rparr>\<rparr>) c =
     c\<lparr>cfg_ClickHouse := (cfg_ClickHouse c)\<lparr>ch_Addresses := envListOr env n (ch_Addresses (cfg_ClickHouse c))\<rparr>\<rparr>"
  "envSet env n (\<lambda>v c. c\<lparr>cfg_ClickHouse := (cfg_ClickHouse c)\<lparr>ch_Password := v\<rparr>\<rparr>) c =
     c\<lparr>cfg_ClickHouse := (cfg_ClickHouse c)\<lparr>ch_Password := envOr env n (ch_Password (cfg_ClickHouse c))\<rparr>\<rparr>"
  "envSet env n (\<lambda>v c. c\<lparr>cfg_S3 := (cfg_S3 c)\<lparr>s3_Enabled := (v = ''true'')\<rparr>\<rparr>) c =
     c\<lparr>cfg_S3 := (cfg_S3 c)\<lparr>s3_Enabled := envBoolOr env n (s3_Enabled (cfg_S3 c))\<rparr>\<rparr>"
  "envSet env n (\<lambda>v c. c\<lparr>cfg_S3 := (cfg_S3 c)\<lparr>s3_Endpoint := v\<rparr>\<rparr>) c =
     c\<lparr>cfg_S3 := (cfg_S3 c)\<lparr>s3_Endpoint := envOr env n (s3_Endpoint (cfg_S3 c))\<rparr>\<rparr>"
  "envSet env n (\<lambda>v c. c\<lparr>cfg_S3 := (cfg_S3 c)\<lparr>s3_Bucket := v\<rparr>\<rparr>) c =
     c\<lparr>cfg_S3 := (cfg_S3 c)\<lparr>s3_Bucket := envOr env n (s3_Bucket (cfg_S3 c))\<rparr>\<rparr>"
  "envSet env n (\<lambda>v c. c\<lparr>cfg_S3 := (cfg_S3 c)\<lparr>s3_AccessKeyID := v\<rparr>\<rparr>) c =
     c\<lparr>cfg_S3 := (cfg_S3 c)\<lparr>s3_AccessKeyID := envOr env n (s3_AccessKeyID (cfg_S3 c))\<rparr>\<rparr>"
  "envSet env n (\<lambda>v c. c\<lparr>cfg_S3 := (cfg_S3 c)\<lparr>s3_SecretAccessKey := v\<rparr>\<rparr>) c =
     c\<lparr>cfg_S3 := (cfg_S3 c)\<lparr>s3_SecretAccessKey := envOr env n (s3_SecretAccessKey (cfg_S3 c))\<rparr>\<rparr>"
  "envSet env n (\<lambda>v c. c\<lparr>cfg_Database := (cfg_Database c)\<lparr>dbc_Path := v\<rparr>\<rparr>) c =
     c\<lparr>cfg_Database := (cfg_Database c)\<lparr>dbc_Path := envOr env n (dbc_Path (cfg_Database c))\<rparr>\<rparr>"
  "envSet env n (\<lambda>v c. c\<lparr>cfg_Spool := (cfg_Spool c)\<lparr>spl_BasePath := v\<rparr>\<rparr>) c =
     c\<lparr>cfg_Spool := (cfg_Spool c)\<lparr>spl_BasePath := envOr env n (spl_BasePath (cfg_Spool c))\<rparr>\<rparr>"
  "envSet env n (\<lambda>v c. c\<lparr>cfg_Observability := (cfg_Observability c)\<lparr>obs_LogLevel := v\<rparr>\<rparr>) c =
     c\<lparr>cfg_Observability := (cfg_Observability c)\<lparr>obs_LogLevel := envOr env n (obs_LogLevel (cfg_Observability c))\<rparr>\<rparr>"
  by (simp_all add: envSet_def envOr_def envListOr_def envBoolOr_def)

lemma envSet_setters:
  "envSet env n setMaxMessageSize c =
     c\<lparr>cfg_SMTP := (cfg_SMTP c)\<lparr>smtp_MaxMessageSize := envSizeOr env n (smtp_MaxMessageSize (cfg_SMTP c))\<rparr>\<rparr>"
  "envSet env n setRedisAuthAddresses c =
     c\<lparr>cfg_Auth := (cfg_Auth c)\<lparr>auth_Redis := (auth_Redis (cfg_Auth c))
         \<lparr>rauth_Addresses := envListOr env n (rauth_Addresses (auth_Redis (cfg_Auth c)))\<rparr>\<rparr>\<rparr>"
  "envSet env n setRedisAuthPassword c =
     c\<lparr>cfg_Auth := (cfg_Auth c)\<lparr>auth_Redis := (auth_Redis (cfg_Auth c))
         \<lparr>rauth_Password := envOr env n (rauth_Password (auth_Redis (cfg_Auth c)))\<rparr>\<rparr>\<rparr>"
  by (auto simp add: envSet_def setMaxMessageSize_def envSizeOr_def setRedisAuthAddresses_def
      envListOr_def setRedisAuthPassword_def envOr_def Let_def split: option.split)

text \<open>All of them: each variable decides one field, and nothing else changes.\<close>

definition overridden :: "env \<Rightarrow> Config \<Rightarrow> Config" where
  "overridden env c = c\<lparr>
     cfg_Server := (cfg_Server c)\<lparr>srv_Hostname := envOr env ''OUTBOUND_SERVER_HOSTNAME'' (srv_Hostname (cfg_Server c))\<rparr>,
     cfg_SMTP := (cfg_SMTP c)\<lparr>smtp_MaxMessageSize :=
       envSizeOr env ''OUTBOUND_SMTP_MAX_MESSAGE_SIZE'' (smtp_MaxMessageSize (cfg_SMTP c))\<rparr>,
     cfg_Auth := (cfg_Auth c)\<lparr>auth_Redis := (auth_Redis (cfg_Auth c))\<lparr>
       rauth_Addresses := envListOr env ''OUTBOUND_REDIS_AUTH_ADDRESSES'' (rauth_Addresses (auth_Redis (cfg_Auth c))),
       rauth_Password := envOr env ''OUTBOUND_REDIS_AUTH_PASSWORD'' (rauth_Password (auth_Redis (cfg_Auth c)))\<rparr>\<rparr>,
     cfg_Redis := (cfg_Redis c)\<lparr>
       red_Addresses := envListOr env ''OUTBOUND_REDIS_ADDRESSES'' (red_Addresses (cfg_Redis c)),
       red_Password := envOr env ''OUTBOUND_REDIS_PASSWORD'' (red_Password (cfg_Redis c))\<rparr>,
     cfg_ClickHouse := (cfg_ClickHouse c)\<lparr>
       ch_Addresses := envListOr env ''OUTBOUND_CLICKHOUSE_ADDRESSES'' (ch_Addresses (cfg_ClickHouse c)),
       ch_Password := envOr env ''OUTBOUND_CLICKHOUSE_PASSWORD'' (ch_Password (cfg_ClickHouse c))\<rparr>,
     cfg_S3 := (cfg_S3 c)\<lparr>
       s3_Enabled := envBoolOr env ''OUTBOUND_S3_ENABLED'' (s3_Enabled (cfg_S3 c)),
       s3_Endpoint := envOr env ''OUTBOUND_S3_ENDPOINT'' (s3_Endpoint (cfg_S3 c)),
       s3_Bucket := envOr env ''OUTBOUND_S3_BUCKET'' (s3_Bucket (cfg_S3 c)),
       s3_AccessKeyID := envOr env ''OUTBOUND_S3_ACCESS_KEY_ID'' (s3_AccessKeyID (cfg_S3 c)),
       s3_SecretAccessKey := envOr env ''OUTBOUND_S3_SECRET_ACCESS_KEY'' (s3_SecretAccessKey (cfg_S3 c))\<rparr>,
     cfg_Database := (cfg_Database c)\<lparr>
       dbc_Path := envOr env ''OUTBOUND_DATABASE_PATH'' (dbc_Path (cfg_Database c))\<rparr>,
     cfg_Spool := (cfg_Spool c)\<lparr>
       spl_BasePath := envOr env ''OUTBOUND_SPOOL_BASE_PATH'' (spl_BasePath (cfg_Spool c))\<rparr>,
     cfg_Observability := (cfg_Observability c)\<lparr>
       obs_LogLevel := envOr env ''OUTBOUND_LOG_LEVEL'' (obs_LogLevel (cfg_Observability c))\<rparr>\<rparr>"

lemma applyEnvOverrides_eq: "applyEnvOverrides env c = overridden env c"
  by (simp add: applyEnvOverrides_def overridden_def Let_def envSet_fields envSet_setters)

lemma envOr_idem [simp]: "envOr env n (envOr env n x) = envOr env n x"
  by (simp add: envOr_def)

lemma envListOr_idem [simp]: "envListOr env n (envListOr env n x) = envListOr env n x"
  by (simp add: envListOr_def)

lemma envBoolOr_idem [simp]: "envBoolOr env n (envBoolOr env n x) = envBoolOr env n x"
  by (simp add: envBoolOr_def)

lemma envSizeOr_idem [simp]: "envSizeOr env n (envSizeOr env n x) = envSizeOr env n x"
  by (simp add: envSizeOr_def split: option.split)

lemma overrides_idem: "applyEnvOverrides env (applyEnvOverrides env c) = applyEnvOverrides env c"
  by (simp add: applyEnvOverrides_eq overridden_def)

lemma overrides_empty: "applyEnvOverrides (\<lambda>_. []) c = c"
  by (simp add: applyEnvOverrides_eq overridden_def envOr_def envListOr_def envSizeOr_def envBoolOr_def)

end
