(* ===== verification/IPAddr.thy ===== *)
theory IPAddr
  imports GoHex "HOL-Library.Word"
begin

unbundle bit_operations_syntax

text \<open>
  What \<open>internal/auth/ipauth.go\<close> uses of Go's package \<open>net\<close>: \<open>ParseIP\<close>, \<open>ParseCIDR\<close> and
  \<open>IPNet.Contains\<close>. An address is its bytes, most significant first, always 16 as \<open>ParseIP\<close> gives
  them; an IPv4 address is the last four after ten zero bytes and two bytes of ones.
\<close>

type_synonym ipbytes = "8 word list"

section \<open>IPv4\<close>

text \<open>A field of an IPv4 address: one to three digits, no leading zero, at most 255.\<close>

definition ipv4Field :: "string \<Rightarrow> 8 word option" where
  "ipv4Field s =
     (if s \<noteq> [] \<and> list_all isDigit s \<and> length s \<le> 3 \<and> (length s = 1 \<or> hd s \<noteq> CHR ''0'') \<and>
         readNat s \<le> 255
      then Some (of_nat (readNat s)) else None)"

definition parseIPv4 :: "string \<Rightarrow> ipbytes option" where
  "parseIPv4 s =
     (let fs = splitOn CHR ''.'' s
      in if length fs = 4 then those (map ipv4Field fs) else None)"

definition v4InV6Prefix :: ipbytes where
  "v4InV6Prefix = replicate 10 0 @ [255, 255]"

section \<open>IPv6\<close>

text \<open>
  The loop of \<open>parseIPv6\<close>, without the zone: \<open>s\<close> is what is left, \<open>ip\<close> the bytes so far, \<open>ell\<close> the
  number of bytes before the ellipsis. The result is the rest, the bytes and the ellipsis.
\<close>

function ipv6Groups :: "string \<Rightarrow> ipbytes \<Rightarrow> nat option \<Rightarrow> (string \<times> ipbytes \<times> nat option) option" where
  "ipv6Groups s ip ell =
     (if 16 \<le> length ip then Some (s, ip, ell)
      else
        (let g = takeWhile isHex s; r = dropWhile isHex s; acc = readHex g;
             ip' = ip @ [of_nat (acc div 256), of_nat (acc mod 256)]
         in if g = [] \<or> 4 < length g then None
            else if r \<noteq> [] \<and> hd r = CHR ''.'' then
              (if ell = None \<and> length ip \<noteq> 12 \<or> 16 < length ip + 4 then None
               else map_option (\<lambda>v. ([], ip @ v, ell)) (parseIPv4 s))
            else if r = [] then Some ([], ip', ell)
            else if hd r \<noteq> CHR '':'' \<or> length r = 1 then None
            else if hd (tl r) = CHR '':'' then
              (if ell \<noteq> None then None
               else if tl (tl r) = [] then Some ([], ip', Some (length ip'))
               else ipv6Groups (tl (tl r)) ip' (Some (length ip')))
            else ipv6Groups (tl r) ip' ell))"
  by pat_completeness auto
termination
  by (relation "measure (\<lambda>(s, ip, ell). 16 - length ip)") auto

declare ipv6Groups.simps [simp del]

definition ipv6Fill :: "string \<times> ipbytes \<times> nat option \<Rightarrow> ipbytes option" where
  "ipv6Fill x =
     (case x of (s, ip, ell) \<Rightarrow>
        if s \<noteq> [] then None
        else if length ip < 16 then
          (case ell of
             None \<Rightarrow> None
           | Some e \<Rightarrow> Some (take e ip @ replicate (16 - length ip) 0 @ drop e ip))
        else if ell \<noteq> None then None
        else Some ip)"

definition parseIPv6 :: "string \<Rightarrow> ipbytes option" where
  "parseIPv6 s =
     (if take 2 s = ''::'' then
        (if drop 2 s = [] then Some (replicate 16 0)
         else Option.bind (ipv6Groups (drop 2 s) [] (Some 0)) ipv6Fill)
      else Option.bind (ipv6Groups s [] None) ipv6Fill)"

section \<open>ParseIP, ParseCIDR, Contains\<close>

text \<open>
  \<open>netip.ParseAddr\<close>: the first of the characters \<open>.\<close>, \<open>:\<close> and \<open>%\<close> decides. An address with a zone
  is refused by both \<open>ParseIP\<close> and \<open>ParseCIDR\<close>. The flag says that the address is IPv4.
\<close>

definition parseAddr :: "string \<Rightarrow> (bool \<times> ipbytes) option" where
  "parseAddr s =
     (case find (\<lambda>c. c \<in> set ''.:%'') s of
        None \<Rightarrow> None
      | Some c \<Rightarrow>
          if c = CHR ''.'' then map_option (\<lambda>v. (True, v4InV6Prefix @ v)) (parseIPv4 s)
          else if c = CHR '':'' \<and> CHR ''%'' \<notin> set s then map_option (\<lambda>v. (False, v)) (parseIPv6 s)
          else None)"

definition ParseIP :: "string \<Rightarrow> ipbytes option" where
  "ParseIP s = map_option snd (parseAddr s)"

text \<open>\<open>CIDRMask\<close> for a number of bytes.\<close>

fun cidrMask :: "nat \<Rightarrow> nat \<Rightarrow> ipbytes" where
  "cidrMask n 0 = []"
| "cidrMask n (Suc l) =
     (if 8 \<le> n then 255 # cidrMask (n - 8) l
      else NOT (drop_bit n 255) # cidrMask 0 l)"

definition maskBytes :: "ipbytes \<Rightarrow> ipbytes \<Rightarrow> ipbytes" where
  "maskBytes ip m = map2 (AND) ip m"

definition To4 :: "ipbytes \<Rightarrow> ipbytes option" where
  "To4 ip =
     (if length ip = 4 then Some ip
      else if length ip = 16 \<and> take 12 ip = v4InV6Prefix then Some (drop 12 ip) else None)"

record IPNet =
  netIP :: ipbytes
  netMask :: ipbytes

text \<open>\<open>dtoi\<close> on the whole string: digits only, below 16777215.\<close>

definition dtoi :: "string \<Rightarrow> nat option" where
  "dtoi s = (if s \<noteq> [] \<and> list_all isDigit s \<and> readNat s < 16777215 then Some (readNat s) else None)"

definition ipMask :: "ipbytes \<Rightarrow> ipbytes \<Rightarrow> ipbytes" where
  "ipMask ip m =
     (if length m = 4 \<and> length ip = 16 \<and> take 12 ip = v4InV6Prefix then maskBytes (drop 12 ip) m
      else if length ip \<noteq> length m then [] else maskBytes ip m)"

definition ParseCIDR :: "string \<Rightarrow> IPNet option" where
  "ParseCIDR s =
     (case splitOn CHR ''/'' s of
        addr # m # ms \<Rightarrow>
          (case (parseAddr addr, dtoi (joinWith CHR ''/'' (m # ms))) of
             (Some (v4, ip), Some n) \<Rightarrow>
               if (if v4 then 32 else 128) < n then None
               else
                 (let mk = cidrMask n (if v4 then 4 else 16)
                  in Some \<lparr>netIP = ipMask ip mk, netMask = mk\<rparr>)
           | _ \<Rightarrow> None)
      | _ \<Rightarrow> None)"

text \<open>\<open>networkNumberAndMask\<close>; no number at all is the empty list.\<close>

definition netNumber :: "IPNet \<Rightarrow> ipbytes \<times> ipbytes" where
  "netNumber n =
     (case To4 (netIP n) of
        Some ip \<Rightarrow>
          if length (netMask n) = 4 then (ip, netMask n)
          else if length (netMask n) = 16 then (ip, drop 12 (netMask n))
          else ([], [])
      | None \<Rightarrow>
          if length (netIP n) = 16 \<and> length (netMask n) = 16 then (netIP n, netMask n) else ([], []))"

definition Contains :: "IPNet \<Rightarrow> ipbytes \<Rightarrow> bool" where
  "Contains n ip0 \<longleftrightarrow>
     (let (nn, m) = netNumber n; ip = (case To4 ip0 of Some x \<Rightarrow> x | None \<Rightarrow> ip0)
      in length ip = length nn \<and> maskBytes nn m = maskBytes ip m)"

section \<open>Membership of a network is agreement on the first bits\<close>

text \<open>The number an address stands for.\<close>

fun ipNum :: "8 word list \<Rightarrow> nat" where
  "ipNum [] = 0"
| "ipNum (b # bs) = unat b * 256 ^ length bs + ipNum bs"

lemma ipNum_less: "ipNum bs < 256 ^ length bs"
proof (induction bs)
  case (Cons b bs)
  have "unat b < 2 ^ LENGTH(8)" by (rule unsigned_less)
  then have b: "unat b + 1 \<le> 256" by simp
  have "ipNum (b # bs) < (unat b + 1) * 256 ^ length bs" using Cons by simp
  also have "\<dots> \<le> 256 * 256 ^ length bs" by (rule mult_le_mono1 [OF b])
  finally show ?case by simp
qed simp

lemma byte_prefix:
  fixes b c :: "8 word"
  assumes "n < 8"
  shows "b AND NOT (drop_bit n 255) = c AND NOT (drop_bit n 255) \<longleftrightarrow>
    unat b div 2 ^ (8 - n) = unat c div 2 ^ (8 - n)"
proof -
  have m: "bit (NOT (drop_bit n (255 :: 8 word))) i \<longleftrightarrow> i < 8 \<and> 8 - n \<le> i" for i
  proof -
    have "(255 :: 8 word) = mask 8" by (simp add: mask_eq_exp_minus_1)
    then show ?thesis
      unfolding \<open>255 = mask 8\<close> using assms by (auto simp: bit_not_iff bit_drop_bit_eq bit_mask_iff)
  qed
  have "b AND NOT (drop_bit n 255) = c AND NOT (drop_bit n 255) \<longleftrightarrow> drop_bit (8 - n) b = drop_bit (8 - n) c"
  proof
    assume eq: "b AND NOT (drop_bit n 255) = c AND NOT (drop_bit n 255)"
    show "drop_bit (8 - n) b = drop_bit (8 - n) c"
    proof (rule bit_word_eqI)
      fix i assume "i < LENGTH(8)"
      show "bit (drop_bit (8 - n) b) i = bit (drop_bit (8 - n) c) i"
        using arg_cong [OF eq, of "\<lambda>w. bit w (8 - n + i)"]
        by (cases "8 - n + i < 8") (auto simp: bit_and_iff m bit_drop_bit_eq dest: bit_imp_le_length)
    qed
  next
    assume eq: "drop_bit (8 - n) b = drop_bit (8 - n) c"
    show "b AND NOT (drop_bit n 255) = c AND NOT (drop_bit n 255)"
    proof (rule bit_word_eqI)
      fix i assume "i < LENGTH(8)"
      show "bit (b AND NOT (drop_bit n 255)) i = bit (c AND NOT (drop_bit n 255)) i"
        using arg_cong [OF eq, of "\<lambda>w. bit w (i - (8 - n))"]
        by (cases "8 - n \<le> i") (auto simp: bit_and_iff m bit_drop_bit_eq)
    qed
  qed
  also have "\<dots> \<longleftrightarrow> unat b div 2 ^ (8 - n) = unat c div 2 ^ (8 - n)"
    unfolding word_unat_eq_iff unat_drop_bit_eq by (simp only: drop_bit_eq_div)
  finally show ?thesis .
qed

lemma length_cidrMask [simp]: "length (cidrMask n l) = l"
  by (induction n l rule: cidrMask.induct) auto

lemma cidrMask_0: "cidrMask 0 l = replicate l 0"
  by (induction l) simp_all

lemma maskBytes_0: "length xs \<le> l \<Longrightarrow> maskBytes xs (replicate l 0) = replicate (length xs) 0"
proof (induction xs arbitrary: l)
  case (Cons x xs)
  then show ?case by (cases l) (simp_all add: maskBytes_def)
qed (simp add: maskBytes_def)

lemma div_split:
  fixes v :: nat
  assumes "v < 2 ^ (a + m)"
  shows "(b * 2 ^ (a + m) + v) div 2 ^ a = b * 2 ^ m + v div 2 ^ a"
  by (simp add: power_add mult.assoc [symmetric] mult.commute [of "2 ^ a"]) 

lemma mask_prefix:
  assumes "length xs = l" "length ys = l" "n \<le> 8 * l"
  shows "maskBytes xs (cidrMask n l) = maskBytes ys (cidrMask n l) \<longleftrightarrow>
    ipNum xs div 2 ^ (8 * l - n) = ipNum ys div 2 ^ (8 * l - n)"
  using assms
proof (induction l arbitrary: n xs ys)
  case (Suc l)
  obtain x xs' y ys' where xy: "xs = x # xs'" "ys = y # ys'" "length xs' = l" "length ys' = l"
    using Suc.prems by (auto simp: length_Suc_conv)
  have pw: "(256 :: nat) ^ l = 2 ^ (8 * l)" by (simp add: power_mult)
  have vx: "ipNum xs' < 2 ^ (8 * l)" "ipNum ys' < 2 ^ (8 * l)"
    using ipNum_less [of xs'] ipNum_less [of ys'] xy pw by simp_all
  show ?case
  proof (cases "8 \<le> n")
    case True
    let ?a = "8 * l - (n - 8)"
    have eq: "8 * l = ?a + (n - 8)" and e2: "8 * Suc l - n = ?a" using True Suc.prems(3) by auto
    have d: "ipNum (z # zs) div 2 ^ ?a = unat z * 2 ^ (n - 8) + ipNum zs div 2 ^ ?a"
      if "length zs = l" "ipNum zs < 2 ^ (8 * l)" for z zs
      using div_split [of "ipNum zs" ?a "n - 8" "unat z"] that eq pw by simp
    have lt: "ipNum zs div 2 ^ ?a < 2 ^ (n - 8)" if "ipNum zs < 2 ^ (8 * l)" for zs
      using that eq by (metis less_mult_imp_div_less mult.commute power_add)
    have "(255 :: 8 word) = - 1" by simp
    then have "x AND 255 = x" "y AND 255 = y" by (simp_all only: and.right_neutral)
    then have "maskBytes xs (cidrMask n (Suc l)) = maskBytes ys (cidrMask n (Suc l)) \<longleftrightarrow>
        x = y \<and> maskBytes xs' (cidrMask (n - 8) l) = maskBytes ys' (cidrMask (n - 8) l)"
      using True xy by (simp add: maskBytes_def)
    also have "\<dots> \<longleftrightarrow> unat x = unat y \<and> ipNum xs' div 2 ^ ?a = ipNum ys' div 2 ^ ?a"
      using Suc.IH [OF xy(3,4), of "n - 8"] Suc.prems(3) by (simp add: word_unat_eq_iff)
    also have "\<dots> \<longleftrightarrow> unat x * 2 ^ (n - 8) + ipNum xs' div 2 ^ ?a = unat y * 2 ^ (n - 8) + ipNum ys' div 2 ^ ?a"
      (is "?L \<longleftrightarrow> ?R")
    proof
      assume ?R
      from arg_cong [OF this, of "\<lambda>z. z div 2 ^ (n - 8)"] arg_cong [OF this, of "\<lambda>z. z mod 2 ^ (n - 8)"]
      show ?L using lt [OF vx(1)] lt [OF vx(2)] by simp
    qed simp
    finally show ?thesis unfolding e2 xy(1,2) d [OF xy(3) vx(1)] d [OF xy(4) vx(2)] .
  next
    case False
    let ?k = "8 - n"
    have e: "8 * Suc l - n = 8 * l + ?k" using False by simp
    have d: "ipNum (z # zs) div 2 ^ (8 * l + ?k) = unat z div 2 ^ ?k"
      if "length zs = l" "ipNum zs < 2 ^ (8 * l)" for z zs
    proof -
      have "ipNum (z # zs) div 2 ^ (8 * l) = unat z" using that pw by simp
      then show ?thesis by (simp only: power_add div_mult2_eq)
    qed
    have "maskBytes xs (cidrMask n (Suc l)) = maskBytes ys (cidrMask n (Suc l)) \<longleftrightarrow>
        x AND NOT (drop_bit n 255) = y AND NOT (drop_bit n 255)"
      using False xy maskBytes_0 [of xs' l] maskBytes_0 [of ys' l] by (simp add: maskBytes_def cidrMask_0)
    then show ?thesis
      using byte_prefix [of n x y] False unfolding e xy(1,2) d [OF xy(3) vx(1)] d [OF xy(4) vx(2)] by simp
  qed
qed (simp add: maskBytes_def)

section \<open>The shape of parsed addresses\<close>

lemma those_length: "those xs = Some ys \<Longrightarrow> length ys = length xs"
  by (induction xs arbitrary: ys) (auto split: option.splits)

lemma parseIPv4_length: "parseIPv4 s = Some ip \<Longrightarrow> length ip = 4"
  by (auto simp: parseIPv4_def Let_def split: if_splits dest: those_length)

lemma those_map_Some: "those (map f xs) = Some ys \<Longrightarrow> x \<in> set xs \<Longrightarrow> \<exists>y. f x = Some y"
  by (induction xs arbitrary: ys) (auto split: option.splits)

lemma parseIPv4_chars:
  assumes "parseIPv4 s = Some ip" "c \<in> set s"
  shows "c = CHR ''.'' \<or> isDigit c"
proof -
  have "those (map ipv4Field (splitOn CHR ''.'' s)) = Some ip"
    using assms(1) by (auto simp: parseIPv4_def Let_def split: if_splits)
  then have "f \<in> set (splitOn CHR ''.'' s) \<Longrightarrow> list_all isDigit f" for f
    using those_map_Some [of ipv4Field "splitOn CHR ''.'' s" ip f]
    by (auto simp: ipv4Field_def split: if_splits)
  moreover have "set (joinWith d xs) \<subseteq> insert d (\<Union>x \<in> set xs. set x)" for d :: char and xs
    by (induction d xs rule: joinWith.induct) auto
  from this [of "CHR ''.''" "splitOn CHR ''.'' s"]
  have "set s \<subseteq> insert CHR ''.'' (\<Union>x \<in> set (splitOn CHR ''.'' s). set x)" by (simp add: join_split)
  ultimately show ?thesis using assms(2) by (auto simp: list_all_iff)
qed

lemma ipv6Groups_shape:
  "ipv6Groups s ip ell = Some (s', ip', ell') \<Longrightarrow> even (length ip) \<Longrightarrow> length ip \<le> 16 \<Longrightarrow>
     (\<forall>e. ell = Some e \<longrightarrow> e \<le> length ip) \<Longrightarrow>
     length ip' \<le> 16 \<and> (\<forall>e. ell' = Some e \<longrightarrow> e \<le> length ip')"
proof (induction s ip ell rule: ipv6Groups.induct)
  case (1 s ip ell)
  define g r ip1 where gr: "g = takeWhile isHex s" "r = dropWhile isHex s"
    "ip1 = ip @ [of_nat (readHex g div 256), of_nat (readHex g mod 256)]"
  have len: "length ip1 \<le> 16 \<and> even (length ip1)" if "length ip < 16"
    using "1.prems"(2) that unfolding gr by simp presburger
  have ell: "\<forall>e. ell = Some e \<longrightarrow> e \<le> length ip1" using "1.prems"(4) by (auto simp: gr)
  note unf = "1.prems"(1) [unfolded ipv6Groups.simps [of s ip ell], folded gr(1,2), unfolded Let_def, folded gr]
  note ih = "1.IH" [folded gr(1,2), OF _ refl refl refl refl, folded gr]
  consider "ip' = ip" "ell' = ell" | v where "length v = 4" "length ip + 4 \<le> 16" "ip' = ip @ v" "ell' = ell"
    | "length ip < 16" "ip' = ip1" "ell' = ell" | "length ip < 16" "ip' = ip1" "ell' = Some (length ip1)"
    | "length ip < 16" "\<not> (g = [] \<or> 4 < length g)" "\<not> (r \<noteq> [] \<and> hd r = CHR ''.'')" "r \<noteq> []"
      "\<not> (hd r \<noteq> CHR '':'' \<or> length r = 1)" "hd (tl r) = CHR '':''" "\<not> ell \<noteq> None" "tl (tl r) \<noteq> []"
      "ipv6Groups (tl (tl r)) ip1 (Some (length ip1)) = Some (s', ip', ell')"
    | "length ip < 16" "\<not> (g = [] \<or> 4 < length g)" "\<not> (r \<noteq> [] \<and> hd r = CHR ''.'')" "r \<noteq> []"
      "\<not> (hd r \<noteq> CHR '':'' \<or> length r = 1)" "hd (tl r) \<noteq> CHR '':''"
      "ipv6Groups (tl r) ip1 ell = Some (s', ip', ell')"
    using unf by (auto split: if_splits dest: parseIPv4_length)
  then show ?case
  proof cases
    case 5
    then show ?thesis using ih(1) len by simp
  next
    case 6
    then show ?thesis using ih(2) len ell by simp
  qed (use "1.prems" len ell in auto)
qed

lemma parseIPv6_length: "parseIPv6 s = Some ip \<Longrightarrow> length ip = 16"
proof -
  have fill: "length ip = 16"
    if "ipv6Groups t [] ell = Some (s', ip', ell')" "ipv6Fill (s', ip', ell') = Some ip" "ell \<in> {None, Some 0}"
    for t ell s' ip' ell'
    using ipv6Groups_shape [OF that(1)] that(2,3)
    by (auto simp: ipv6Fill_def split: if_splits option.splits)
  assume "parseIPv6 s = Some ip"
  then show "length ip = 16"
    using fill by (auto simp: parseIPv6_def bind_eq_Some_conv split: if_splits)
qed

lemma length_v4InV6Prefix [simp]: "length v4InV6Prefix = 12"
  by (simp add: v4InV6Prefix_def)

lemma parseAddr_length: "parseAddr s = Some (v4, ip) \<Longrightarrow> length ip = 16"
  by (auto simp: parseAddr_def split: option.splits if_splits dest: parseIPv4_length parseIPv6_length)

lemma parseAddr_v4: "parseAddr s = Some (True, ip) \<Longrightarrow> \<exists>v. ip = v4InV6Prefix @ v \<and> length v = 4"
  by (auto simp: parseAddr_def split: option.splits if_splits dest: parseIPv4_length)

lemma ParseIP_length: "ParseIP s = Some ip \<Longrightarrow> length ip = 16"
  by (auto simp: ParseIP_def dest: parseAddr_length)

end
