(* ===== verification/IPAuth.thy ===== *)
theory IPAuth
  imports IPAddr
begin

unbundle bit_operations_syntax

text \<open>
  \<open>internal/auth/ipauth.go\<close>: the allowlist of IP addresses, and \<open>extractIP\<close> of
  \<open>internal/smtpserver/session.go\<close>, which gives it the address of a client.
\<close>

section \<open>The authenticator\<close>

record IPAuthenticator =
  allowedIPs :: "string list"
  allowedCIDRs :: "IPNet list"

datatype ip_auth_error = InvalidCIDR string | InvalidIP string

fun addAllowed :: "string list \<Rightarrow> IPAuthenticator \<Rightarrow> ip_auth_error + IPAuthenticator" where
  "addAllowed [] a = Inr a"
| "addAllowed (s # ss) a =
     (let ipStr = trimSpace s
      in if ipStr = [] then addAllowed ss a
         else if CHR ''/'' \<in> set ipStr then
           (case ParseCIDR ipStr of
              None \<Rightarrow> Inl (InvalidCIDR ipStr)
            | Some cidr \<Rightarrow> addAllowed ss (a\<lparr>allowedCIDRs := allowedCIDRs a @ [cidr]\<rparr>))
         else
           (case ParseIP ipStr of
              None \<Rightarrow> Inl (InvalidIP ipStr)
            | Some ip \<Rightarrow> addAllowed ss (a\<lparr>allowedIPs := allowedIPs a @ [ipStr]\<rparr>)))"

definition NewIPAuthenticator :: "string list \<Rightarrow> ip_auth_error + IPAuthenticator" where
  "NewIPAuthenticator ips = addAllowed ips \<lparr>allowedIPs = [], allowedCIDRs = []\<rparr>"

definition IsAllowed :: "IPAuthenticator \<Rightarrow> string \<Rightarrow> bool" where
  "IsAllowed a ipStr =
     (case ParseIP ipStr of
        None \<Rightarrow> False
      | Some ip \<Rightarrow>
          list_ex (\<lambda>x. x = ipStr) (allowedIPs a) \<or> list_ex (\<lambda>c. Contains c ip) (allowedCIDRs a))"

definition GetAllowedCount :: "IPAuthenticator \<Rightarrow> nat \<times> nat" where
  "GetAllowedCount a = (length (allowedIPs a), length (allowedCIDRs a))"

definition extractIP :: "string \<Rightarrow> string" where
  "extractIP remoteAddr =
     (let parts = splitOn CHR '':'' remoteAddr
      in if 2 \<le> length parts then trimSet ''[]'' (hd parts) else remoteAddr)"

section \<open>Networks\<close>

lemma netNumber_v4:
  "length v = 4 \<Longrightarrow> length m = 4 \<Longrightarrow>
     netNumber \<lparr>netIP = ipMask (v4InV6Prefix @ v) m, netMask = m\<rparr> = (maskBytes v m, m)"
  by (simp add: netNumber_def ipMask_def To4_def maskBytes_def)

lemma maskBytes_idem: "maskBytes (maskBytes v m) m = maskBytes v m"
  by (simp add: maskBytes_def map2_map_map zip_map1 list_eq_iff_nth_eq)

lemma cidrMask_take: "k \<le> l \<Longrightarrow> take k (cidrMask n l) = cidrMask n k"
proof (induction n l arbitrary: k rule: cidrMask.induct)
  case (2 n l)
  then show ?case by (cases k) auto
qed simp

lemma cidrMask_nth:
  "i < l \<Longrightarrow> cidrMask n l ! i = (if 8 * (i + 1) \<le> n then 255 else NOT (drop_bit (n - 8 * i) 255))"
proof (induction n l arbitrary: i rule: cidrMask.induct)
  case (2 n l)
  then show ?case by (cases i) (auto simp: algebra_simps)
qed simp

lemma mask_partial: "k < 8 \<Longrightarrow> NOT (drop_bit k 255) \<noteq> (255 :: 8 word)"
proof
  assume k: "k < 8" and "NOT (drop_bit k 255) = (255 :: 8 word)"
  then have "bit (NOT (drop_bit k (255 :: 8 word))) 0" by simp
  moreover have "bit (255 :: 8 word) k"
  proof -
    have "(255 :: 8 word) = mask 8" by (simp add: mask_eq_exp_minus_1)
    then show ?thesis using k by (simp only: bit_mask_iff) simp
  qed
  ultimately show False by (simp add: bit_not_iff bit_drop_bit_eq)
qed

lemma and_255 [simp]: "(b :: 8 word) AND 255 = b"
proof -
  have "(255 :: 8 word) = - 1" by simp
  then show ?thesis by (simp only: and.right_neutral)
qed

lemma and_full:
  fixes b m :: "8 word"
  assumes "b AND m = 255"
  shows "m = 255"
proof -
  have "(255 :: 8 word) = - 1" by simp
  then show ?thesis
    using assms by (metis (no_types) and.assoc and.commute and.idem and.right_neutral)
qed

text \<open>What is masked to an IPv4 address was one.\<close>

lemma To4_mask:
  assumes "length ip = 16" "To4 ip = None"
  shows "To4 (maskBytes ip (cidrMask n 16)) = None"
proof (rule ccontr)
  assume "To4 (maskBytes ip (cidrMask n 16)) \<noteq> None"
  then have "take 12 (maskBytes ip (cidrMask n 16)) = v4InV6Prefix"
    using assms(1) by (auto simp: To4_def maskBytes_def split: if_splits)
  then have eq: "maskBytes (take 12 ip) (cidrMask n 12) = v4InV6Prefix"
    using cidrMask_take [of 12 16 n] by (simp add: maskBytes_def take_map take_zip)
  have len: "length (take 12 ip) = 12" using assms(1) by simp
  have "maskBytes (take 12 ip) (cidrMask n 12) ! 11 = 255" using eq by (simp add: v4InV6Prefix_def nth_append)
  then have "cidrMask n 12 ! 11 = 255"
    using and_full len assms(1) by (auto simp: maskBytes_def)
  then have "96 \<le> n"
    using mask_partial [of "n - 88"] by (auto simp: cidrMask_nth split: if_splits)
  then have "maskBytes (take 12 ip) (cidrMask n 12) = take 12 ip"
    using assms(1) by (auto simp: list_eq_iff_nth_eq maskBytes_def cidrMask_nth)
  then show False using eq assms by (simp add: To4_def)
qed

text \<open>Reading back the digits of a prefix length.\<close>

lemma dtoi_showNat: "n \<le> 128 \<Longrightarrow> dtoi (showNat n) = Some n"
  using showNat_digits [of n] by (simp add: dtoi_def list_all_iff)

lemma ParseCIDR_eq:
  assumes "parseAddr addr = Some (v4, a)" "CHR ''/'' \<notin> set addr" "n \<le> (if v4 then 32 else 128)"
  shows "ParseCIDR (addr @ CHR ''/'' # showNat n) =
    Some \<lparr>netIP = ipMask a (cidrMask n (if v4 then 4 else 16)), netMask = cidrMask n (if v4 then 4 else 16)\<rparr>"
proof -
  have n: "n \<le> 128" using assms(3) by (auto split: if_splits)
  obtain m ms where m: "splitOn CHR ''/'' (showNat n) = m # ms" by (cases "splitOn CHR ''/'' (showNat n)") auto
  then have "joinWith CHR ''/'' (m # ms) = showNat n" using join_split [of "CHR ''/''" "showNat n"] by simp
  then show ?thesis
    using assms m by (simp add: ParseCIDR_def splitOn_append dtoi_showNat n Let_def)
qed

text \<open>
  A network of the configuration contains a client's address exactly when the address is of its
  family and agrees with it on the bits of the prefix.
\<close>

definition inNetwork :: "bool \<Rightarrow> ipbytes \<Rightarrow> nat \<Rightarrow> ipbytes \<Rightarrow> bool" where
  "inNetwork v4 a n ip \<longleftrightarrow>
     (if v4 then
        (case (To4 a, To4 ip) of
           (Some x, Some y) \<Rightarrow> ipNum y div 2 ^ (32 - n) = ipNum x div 2 ^ (32 - n)
         | _ \<Rightarrow> False)
      else To4 ip = None \<and> ipNum ip div 2 ^ (128 - n) = ipNum a div 2 ^ (128 - n))"

lemma To4_length: "To4 ip = Some v \<Longrightarrow> length v = 4"
  by (auto simp: To4_def split: if_splits)

lemma To4_prefix [simp]: "length v = 4 \<Longrightarrow> To4 (v4InV6Prefix @ v) = Some v"
  by (simp add: To4_def)

lemma Contains_v4:
  assumes "length v = 4" "length ip = 16" "n \<le> 32"
  shows "Contains \<lparr>netIP = ipMask (v4InV6Prefix @ v) (cidrMask n 4), netMask = cidrMask n 4\<rparr> ip \<longleftrightarrow>
    inNetwork True (v4InV6Prefix @ v) n ip"
proof (cases "To4 ip")
  case None
  then show ?thesis
    using assms by (simp add: Contains_def netNumber_v4 inNetwork_def maskBytes_def)
next
  case (Some y)
  have "maskBytes v (cidrMask n 4) = maskBytes y (cidrMask n 4) \<longleftrightarrow>
      ipNum y div 2 ^ (32 - n) = ipNum v div 2 ^ (32 - n)"
    using mask_prefix [of v 4 y n] assms To4_length [OF Some] by (auto simp: eq_commute)
  then show ?thesis
    using Some assms To4_length [OF Some]
    by (simp add: Contains_def netNumber_v4 inNetwork_def maskBytes_idem) (simp add: maskBytes_def)
qed

lemma Contains_v6:
  assumes "length a = 16" "To4 a = None" "length ip = 16" "n \<le> 128"
  shows "Contains \<lparr>netIP = ipMask a (cidrMask n 16), netMask = cidrMask n 16\<rparr> ip \<longleftrightarrow>
    inNetwork False a n ip"
proof -
  have len: "length (maskBytes a (cidrMask n 16)) = 16" using assms(1) by (simp add: maskBytes_def)
  have "netNumber \<lparr>netIP = ipMask a (cidrMask n 16), netMask = cidrMask n 16\<rparr> =
      (maskBytes a (cidrMask n 16), cidrMask n 16)"
    using assms(1) len To4_mask [OF assms(1,2), of n] by (simp add: netNumber_def ipMask_def)
  moreover have "maskBytes a (cidrMask n 16) = maskBytes ip (cidrMask n 16) \<longleftrightarrow>
      ipNum ip div 2 ^ (128 - n) = ipNum a div 2 ^ (128 - n)"
    using mask_prefix [of a 16 ip n] assms by (auto simp: eq_commute)
  ultimately show ?thesis
    using assms len by (auto simp: Contains_def inNetwork_def maskBytes_idem dest: To4_length split: option.split)
qed

section \<open>The allowlist\<close>

text \<open>What an entry of the configuration allows.\<close>

definition entryAllows :: "string \<Rightarrow> string \<Rightarrow> ipbytes \<Rightarrow> bool" where
  "entryAllows e ipStr ip \<longleftrightarrow>
     (if CHR ''/'' \<in> set (trimSpace e) then
        (case ParseCIDR (trimSpace e) of None \<Rightarrow> False | Some c \<Rightarrow> Contains c ip)
      else trimSpace e = ipStr)"

lemma addAllowed_spec:
  assumes "addAllowed es a = Inr b" "ParseIP s = Some ip"
  shows "IsAllowed b s \<longleftrightarrow> IsAllowed a s \<or> (\<exists>e \<in> set es. entryAllows e s ip)"
  using assms(1)
proof (induction es arbitrary: a)
  case (Cons e es)
  have s: "s \<noteq> []" using assms(2) by (auto simp: ParseIP_def parseAddr_def)
  show ?case
    using Cons.prems s Cons.IH [of a]
      Cons.IH [of "a\<lparr>allowedCIDRs := allowedCIDRs a @ [the (ParseCIDR (trimSpace e))]\<rparr>"]
      Cons.IH [of "a\<lparr>allowedIPs := allowedIPs a @ [trimSpace e]\<rparr>"] assms(2)
    by (auto simp: Let_def entryAllows_def IsAllowed_def split: if_splits option.splits)
qed simp

lemma IsAllowed_spec:
  "NewIPAuthenticator es = Inr a \<Longrightarrow>
     IsAllowed a s \<longleftrightarrow> (\<exists>ip. ParseIP s = Some ip \<and> (\<exists>e \<in> set es. entryAllows e s ip))"
  using addAllowed_spec [of es "\<lparr>allowedIPs = [], allowedCIDRs = []\<rparr>" a s]
  by (cases "ParseIP s") (auto simp: NewIPAuthenticator_def IsAllowed_def)

text \<open>Every entry is counted once, as an address or as a network.\<close>

lemma addAllowed_count:
  "addAllowed es a = Inr b \<Longrightarrow>
     fst (GetAllowedCount b) + snd (GetAllowedCount b) =
     fst (GetAllowedCount a) + snd (GetAllowedCount a) + length (filter (\<lambda>e. trimSpace e \<noteq> []) es)"
  by (induction es arbitrary: a)
    (auto simp: Let_def GetAllowedCount_def split: if_splits option.splits dest!: meta_spec)

section \<open>The address of a client\<close>

lemma trimSet_id:
  "xs \<noteq> [] \<Longrightarrow> hd xs \<notin> set cs \<Longrightarrow> last xs \<notin> set cs \<Longrightarrow> trimSet cs xs = xs"
proof -
  assume a: "xs \<noteq> []" "hd xs \<notin> set cs" "last xs \<notin> set cs"
  then have "dropWhile (\<lambda>c. c \<in> set cs) xs = xs" by (cases xs) auto
  moreover have "dropWhile (\<lambda>c. c \<in> set cs) (rev xs) = rev xs"
    using a by (cases xs rule: rev_cases) auto
  ultimately show ?thesis by (simp add: trimSet_def)
qed

lemma extractIP_v4:
  assumes "parseIPv4 h = Some ip" "CHR '':'' \<notin> set p"
  shows "extractIP (h @ CHR '':'' # p) = h"
proof -
  have ch: "c \<in> set h \<Longrightarrow> c = CHR ''.'' \<or> isDigit c" for c by (rule parseIPv4_chars [OF assms(1)])
  have "h \<noteq> []"
    using assms(1) by (auto simp: parseIPv4_def Let_def)
  moreover have "\<not> isDigit CHR '':''" "\<not> isDigit CHR ''[''" "\<not> isDigit CHR '']''"
    by (simp_all add: isDigit_def)
  ultimately have "CHR '':'' \<notin> set h" "hd h \<notin> set ''[]''" "last h \<notin> set ''[]''" "h \<noteq> []"
    using ch [of "CHR '':''"] ch [OF hd_in_set] ch [OF last_in_set] by auto
  then show ?thesis
    using assms(2) by (simp add: extractIP_def splitOn_append splitOn_free trimSet_id)
qed

lemma set_trimSet: "set (trimSet cs xs) \<subseteq> set xs"
  by (auto simp: trimSet_def dest!: set_dropWhileD)

lemma hd_splitOn: "hd (splitOn c xs) = takeWhile (\<lambda>x. x \<noteq> c) xs"
proof (induction xs)
  case (Cons x xs)
  then show ?case by (cases "splitOn c xs") auto
qed simp

lemma find_SomeD: "find P xs = Some x \<Longrightarrow> x \<in> set xs \<and> P x"
  by (auto simp: find_Some_iff)

lemma ParseIP_no_sep:
  assumes "CHR ''.'' \<notin> set s" "CHR '':'' \<notin> set s"
  shows "ParseIP s = None"
proof (cases "find (\<lambda>c. c \<in> set ''.:%'') s")
  case (Some c)
  then have "c \<in> set s" using find_SomeD by fast
  then show ?thesis using assms Some by (auto simp: ParseIP_def parseAddr_def)
qed (simp add: ParseIP_def parseAddr_def)

text \<open>Of the address of an IPv6 client only its first group is left.\<close>

lemma isHex_not [simp]: "\<not> isHex CHR '':''" "\<not> isHex CHR ''.''" "\<not> isHex CHR ''[''" "\<not> isHex CHR '']''"
  by (simp_all add: isHex_def hexVal_def)

lemma parseAddr_v6:
  assumes "ParseIP h = Some ip" "CHR '':'' \<in> set h"
  shows "\<exists>v. parseIPv6 h = Some v"
proof -
  have "\<not> isDigit CHR '':''" by (simp add: isDigit_def)
  then have "parseIPv4 h = None"
    using parseIPv4_chars [of h _ "CHR '':''"] assms(2) by (cases "parseIPv4 h") auto
  then show ?thesis
    using assms(1) by (auto simp: ParseIP_def parseAddr_def split: option.splits if_splits)
qed

lemma takeWhile_hex:
  assumes "r = dropWhile isHex h" "r \<noteq> []" "hd r = CHR '':''"
  shows "takeWhile (\<lambda>c. c \<noteq> CHR '':'') h = takeWhile isHex h"
proof -
  have "r = CHR '':'' # tl r" using assms(2,3) by (cases r) auto
  then have h: "h = takeWhile isHex h @ CHR '':'' # tl r"
    using takeWhile_dropWhile_id [of isHex h] assms(1) by simp
  have "c \<noteq> CHR '':''" if "c \<in> set (takeWhile isHex h)" for c
    using set_takeWhileD [OF that] by auto
  then have "takeWhile (\<lambda>c. c \<noteq> CHR '':'') (takeWhile isHex h @ CHR '':'' # tl r) = takeWhile isHex h"
    by (subst takeWhile_append2) auto
  then show ?thesis unfolding h [symmetric] .
qed

lemma ipv6_first_group:
  assumes "parseIPv6 h = Some v" "CHR '':'' \<in> set h"
  shows "list_all isHex (takeWhile (\<lambda>c. c \<noteq> CHR '':'') h) \<and> length (takeWhile (\<lambda>c. c \<noteq> CHR '':'') h) \<le> 4"
proof (cases "take 2 h = ''::''")
  case True
  then have "takeWhile (\<lambda>c. c \<noteq> CHR '':'') h = []" by (cases h) auto
  then show ?thesis by simp
next
  case False
  let ?g = "takeWhile isHex h" and ?r = "dropWhile isHex h"
  have "ipv6Groups h [] None \<noteq> None"
    using assms(1) False by (auto simp: parseIPv6_def bind_eq_Some_conv)
  then have g: "length ?g \<le> 4" "?r \<noteq> [] \<longrightarrow> hd ?r = CHR '':''"
    by (subst (asm) ipv6Groups.simps, auto simp: Let_def split: if_splits)+
  have "?r \<noteq> []" using assms(2) isHex_not(1) by (metis dropWhile_eq_Nil_conv)
  then have "takeWhile (\<lambda>c. c \<noteq> CHR '':'') h = ?g" using takeWhile_hex [OF refl] g(2) by blast
  then show ?thesis using g(1) by (auto simp: list_all_iff dest: set_takeWhileD)
qed

lemma extractIP_v6:
  assumes "ParseIP h = Some ip" "CHR '':'' \<in> set h"
  shows "extractIP (''['' @ h @ '']:'' @ p) = takeWhile (\<lambda>c. c \<noteq> CHR '':'') h"
    and "list_all isHex (takeWhile (\<lambda>c. c \<noteq> CHR '':'') h)"
    and "length (takeWhile (\<lambda>c. c \<noteq> CHR '':'') h) \<le> 4"
proof -
  let ?g = "takeWhile (\<lambda>c. c \<noteq> CHR '':'') h"
  obtain v where "parseIPv6 h = Some v" using parseAddr_v6 [OF assms] by blast
  note first = ipv6_first_group [OF this assms(2)]
  then show "list_all isHex ?g" "length ?g \<le> 4" by simp_all
  have brackets: "c \<notin> set ''[]''" if "c \<in> set ?g" for c
    using first that by (auto simp: list_all_iff)
  have "trimSet ''[]'' (CHR ''['' # ?g) = ?g"
  proof (cases "?g = []")
    case False
    have "trimSet ''[]'' (CHR ''['' # ?g) = trimSet ''[]'' ?g" by (simp add: trimSet_def)
    also have "\<dots> = ?g" by (rule trimSet_id [OF False]) (use brackets [OF hd_in_set [OF False]] brackets [OF last_in_set [OF False]] in simp_all)
    finally show ?thesis .
  qed (simp add: trimSet_def)
  moreover have "hd (splitOn CHR '':'' (''['' @ h @ '']:'' @ p)) = CHR ''['' # ?g"
    unfolding hd_splitOn using assms(2) by simp
  moreover have "2 \<le> length (splitOn CHR '':'' (''['' @ h @ '']:'' @ p))"
    unfolding length_splitOn by simp
  ultimately show "extractIP (''['' @ h @ '']:'' @ p) = ?g" by (simp add: extractIP_def)
qed

lemma IsAllowed_v6:
  assumes "ParseIP h = Some ip" "CHR '':'' \<in> set h"
  shows "\<not> IsAllowed a (extractIP (''['' @ h @ '']:'' @ p))"
proof -
  let ?g = "takeWhile (\<lambda>c. c \<noteq> CHR '':'') h"
  have "CHR ''.'' \<notin> set ?g" "CHR '':'' \<notin> set ?g"
    using extractIP_v6(2) [OF assms] by (auto simp: list_all_iff)
  then show ?thesis
    unfolding extractIP_v6(1) [OF assms] by (simp add: IsAllowed_def ParseIP_no_sep)
qed

end
