(* ===== verification/RedisAuth.thy ===== *)
theory RedisAuth
  imports RedisClient
begin

text \<open>
  \<open>internal/auth/redis.go\<close>: users and their passwords, as strings in Redis. An operation takes the
  time it measures (\<open>d\<close>) as an argument. \<open>splitKey\<close> is written on bytes: the code's loop over the
  characters does the same to every key in valid UTF-8.
\<close>

section \<open>Operations\<close>

definition passwordKey :: "string \<Rightarrow> string" where
  "passwordKey username = ''users:'' @ username @ '':password''"

definition userPattern :: "string \<Rightarrow> string" where
  "userPattern username = ''users:'' @ username @ '':*''"

datatype auth_error = InvalidCredentials | AuthenticationError

definition Authenticate ::
  "'r redis \<Rightarrow> duration \<Rightarrow> string \<Rightarrow> string \<Rightarrow> ('r, 'z) world_scheme \<Rightarrow>
   auth_error option \<times> ('r, 'z) world_scheme" where
  "Authenticate R d username password w =
     (case redis1 R (CGet (passwordKey username)) (rds w) of
        (x, r') \<Rightarrow>
          (let w' = set_rds r' w; failed = record_metric (RecordAuthAttempt ''redis'' ''failure'' d) w'
           in case x of
                RNil \<Rightarrow> (Some InvalidCredentials, failed)
              | RStr stored \<Rightarrow>
                  if password \<noteq> stored then (Some InvalidCredentials, failed)
                  else (None, record_metric (RecordAuthAttempt ''redis'' ''success'' d) w')
              | _ \<Rightarrow> (Some AuthenticationError, failed)))"

fun splitKeyLoop :: "string list \<Rightarrow> string \<Rightarrow> string \<Rightarrow> string list" where
  "splitKeyLoop parts current [] = (if current \<noteq> [] then parts @ [current] else parts)"
| "splitKeyLoop parts current (ch # s) =
     (if ch = CHR '':'' then splitKeyLoop (parts @ [current]) [] s
      else splitKeyLoop parts (current @ [ch]) s)"

definition splitKey :: "string \<Rightarrow> string list" where
  "splitKey key = splitKeyLoop [] [] key"

fun userFields ::
  "'r redis \<Rightarrow> string list \<Rightarrow> (string \<times> string) list \<Rightarrow> 'r \<Rightarrow> (string \<times> string) list \<times> 'r" where
  "userFields R [] info r = (info, r)"
| "userFields R (key # ks) info r =
     (case redis1 R (CGet key) r of
        (x, r') \<Rightarrow>
          userFields R ks
            (case x of
               RStr v \<Rightarrow>
                 (case splitKey key of [a, b, field] \<Rightarrow> AList.update field v info | _ \<Rightarrow> info)
             | _ \<Rightarrow> info) r')"

definition GetUserInfo ::
  "'r redis \<Rightarrow> string \<Rightarrow> ('r, 'z) world_scheme \<Rightarrow>
   (string \<times> string) list option \<times> ('r, 'z) world_scheme" where
  "GetUserInfo R username w =
     (case redis1 R (CKeys (userPattern username)) (rds w) of
        (RStrs ks, r') \<Rightarrow> (case userFields R ks [] r' of (info, r'') \<Rightarrow> (Some info, set_rds r'' w))
      | (_, r') \<Rightarrow> (None, set_rds r' w))"

text \<open>The results of the other operations: \<open>False\<close> or \<open>None\<close> is an error.\<close>

definition SetPassword ::
  "'r redis \<Rightarrow> string \<Rightarrow> string \<Rightarrow> ('r, 'z) world_scheme \<Rightarrow> bool \<times> ('r, 'z) world_scheme" where
  "SetPassword R username password w =
     (case redis1 R (CSet (passwordKey username) password 0) (rds w) of
        (x, r') \<Rightarrow> (x = ROk, set_rds r' w))"

definition DeleteUser ::
  "'r redis \<Rightarrow> string \<Rightarrow> ('r, 'z) world_scheme \<Rightarrow> bool \<times> ('r, 'z) world_scheme" where
  "DeleteUser R username w =
     (case redis1 R (CKeys (userPattern username)) (rds w) of
        (RStrs ks, r1) \<Rightarrow>
          if ks \<noteq> [] then
            (case redis1 R (CDel ks) r1 of
               (RInt n, r2) \<Rightarrow> (True, set_rds r2 w)
             | (_, r2) \<Rightarrow> (False, set_rds r2 w))
          else (True, set_rds r1 w)
      | (_, r1) \<Rightarrow> (False, set_rds r1 w))"

definition UserExists ::
  "'r redis \<Rightarrow> string \<Rightarrow> ('r, 'z) world_scheme \<Rightarrow> bool option \<times> ('r, 'z) world_scheme" where
  "UserExists R username w =
     (case redis1 R (CExists (passwordKey username)) (rds w) of
        (RInt n, r') \<Rightarrow> (Some (0 < n), set_rds r' w)
      | (_, r') \<Rightarrow> (None, set_rds r' w))"

section \<open>Keys\<close>

text \<open>The parts of a key are those of the split at colons, without an empty last one.\<close>

lemma splitKeyLoop_eq:
  "splitKeyLoop ps cur s =
     ps @ (case splitOn CHR '':'' s of
             [] \<Rightarrow> []
           | x # xs \<Rightarrow> (let l = (cur @ x) # xs in if last l = [] then butlast l else l))"
proof (induction ps cur s rule: splitKeyLoop.induct)
  case (2 ps cur ch s)
  then show ?case by (cases "splitOn CHR '':'' s") (auto simp: Let_def)
qed simp

lemma splitKey_eq:
  "splitKey key = (let l = splitOn CHR '':'' key in if last l = [] then butlast l else l)"
  by (cases "splitOn CHR '':'' key") (auto simp: splitKey_def splitKeyLoop_eq Let_def)

lemma splitKey_field:
  assumes "CHR '':'' \<notin> set u" "CHR '':'' \<notin> set f" "f \<noteq> []"
  shows "splitKey (''users:'' @ u @ CHR '':'' # f) = [''users'', u, f]"
proof -
  have "splitOn CHR '':'' (''users'' @ CHR '':'' # u @ CHR '':'' # f) = [''users'', u, f]"
    using assms by (subst splitOn_append) (simp_all add: splitOn_append splitOn_free)
  then show ?thesis using assms(3) by (simp add: splitKey_eq)
qed

lemma passwordKey_inj [simp]: "passwordKey u = passwordKey v \<longleftrightarrow> u = v"
  by (simp add: passwordKey_def)

section \<open>What the operations do\<close>

lemma Authenticate_frame:
  "Authenticate R d u p w = (e, w') \<Longrightarrow> world.more w' = world.more w"
  by (auto simp: Authenticate_def set_rds_def record_metric_def Let_def
      split: prod.splits reply.splits if_splits)

lemma Authenticate_stored:
  assumes "redis_stores R look" "Authenticate R d u p w = (e, w')"
  shows "(e = None \<longleftrightarrow> look (rds w) (passwordKey u) = Some p) \<and> look (rds w') = look (rds w) \<and>
    mets w' = RecordAuthAttempt ''redis'' (if e = None then ''success'' else ''failure'') d (mets w)"
proof -
  have "fst (redis1 R (CGet (passwordKey u)) (rds w)) =
      (case look (rds w) (passwordKey u) of None \<Rightarrow> RNil | Some v \<Rightarrow> RStr v)"
    "look (snd (redis1 R (CGet (passwordKey u)) (rds w))) = look (rds w)"
    using assms(1) unfolding redis_stores_def by blast+
  then show ?thesis
    using assms(2) by (auto simp: Authenticate_def Let_def split: prod.splits option.splits if_splits)
qed

lemma SetPassword_stored:
  assumes "redis_stores R look" "SetPassword R u p w = (ok, w')"
  shows "ok \<and> look (rds w') = (look (rds w))(passwordKey u \<mapsto> p) \<and> mets w' = mets w"
proof -
  have "fst (redis1 R (CSet (passwordKey u) p 0) (rds w)) = ROk"
    "look (snd (redis1 R (CSet (passwordKey u) p 0) (rds w))) = (look (rds w))(passwordKey u \<mapsto> p)"
    using assms(1) unfolding redis_stores_def by blast+
  then show ?thesis using assms(2) by (auto simp: SetPassword_def split: prod.splits)
qed

lemma UserExists_stored:
  assumes "redis_stores R look" "UserExists R u w = (x, w')"
  shows "x = Some (look (rds w) (passwordKey u) \<noteq> None) \<and> look (rds w') = look (rds w)"
proof -
  have "fst (redis1 R (CExists (passwordKey u)) (rds w)) =
      RInt (if look (rds w) (passwordKey u) = None then 0 else 1)"
    "look (snd (redis1 R (CExists (passwordKey u)) (rds w))) = look (rds w)"
    using assms(1) unfolding redis_stores_def by blast+
  then show ?thesis using assms(2) by (auto simp: UserExists_def split: prod.splits if_splits)
qed

lemma DeleteUser_stored:
  assumes "redis_stores R look" "DeleteUser R u w = (ok, w')" "simpleGlob (userPattern u)"
  shows "ok \<and> look (rds w') = (\<lambda>k. if globMatch (userPattern u) k then None else look (rds w) k)"
proof -
  obtain ks r1 where ks: "redis1 R (CKeys (userPattern u)) (rds w) = (RStrs ks, r1)"
    "set ks = {k. look (rds w) k \<noteq> None \<and> globMatch (userPattern u) k}" "look r1 = look (rds w)"
    by (rule redis_stores_keys [OF assms(1,3)])
  obtain n r2 where n: "redis1 R (CDel ks) r1 = (RInt n, r2)"
    "look r2 = (\<lambda>k. if k \<in> set ks then None else look r1 k)"
    by (rule redis_stores_del [OF assms(1)])
  have after: "(\<lambda>k. if k \<in> set ks then None else look r1 k) =
      (\<lambda>k. if globMatch (userPattern u) k then None else look (rds w) k)"
    unfolding ks(2,3) by auto
  show ?thesis
  proof (cases "ks = []")
    case True
    then have "ok \<and> w' = set_rds r1 w" using assms(2) unfolding DeleteUser_def ks(1) by simp
    moreover have "look r1 = (\<lambda>k. if k \<in> set ks then None else look r1 k)" using True by simp
    ultimately show ?thesis unfolding after by simp
  next
    case False
    then have "ok \<and> w' = set_rds r2 w" using assms(2) unfolding DeleteUser_def ks(1) by (simp add: n(1))
    then show ?thesis using n(2) unfolding after by simp
  qed
qed

lemma userPattern_plain:
  "CHR ''*'' \<notin> set u \<Longrightarrow> CHR ''?'' \<notin> set u \<Longrightarrow>
     globMatch (userPattern u) k \<longleftrightarrow> prefix (''users:'' @ u @ '':'') k"
  using globMatch_prefix [of "''users:'' @ u @ '':''" k] by (simp add: userPattern_def)

lemma prefix_userKey:
  assumes "CHR '':'' \<notin> set v"
  shows "prefix (''users:'' @ u @ '':'') (passwordKey v) \<longleftrightarrow> u = v"
proof
  assume "prefix (''users:'' @ u @ '':'') (passwordKey v)"
  then obtain z where "''users:'' @ v @ '':password'' = ''users:'' @ u @ CHR '':'' # z"
    by (auto simp: passwordKey_def prefix_def)
  then have z: "v @ '':password'' = u @ CHR '':'' # z" by simp
  then obtain us where "v = u @ us \<and> us @ '':password'' = CHR '':'' # z \<or>
      v @ us = u \<and> '':password'' = us @ CHR '':'' # z"
    by (auto simp: append_eq_append_conv2)
  then show "u = v"
    using assms by (cases us) (auto dest: arg_cong [of _ _ set] simp: Cons_eq_append_conv)
qed (simp add: passwordKey_def prefix_def)

text \<open>The pattern of the user \<open>*\<close> matches the keys of all users.\<close>

lemma userPattern_star: "globMatch (userPattern ''*'') (passwordKey v)"
proof -
  have "globMatch '':*'' '':password''" by (simp add: globMatch.simps)
  then have "globMatch (CHR ''*'' # '':*'') (v @ '':password'')" by (rule globMatch_starI)
  then show ?thesis by (simp add: userPattern_def passwordKey_def globMatch.simps)
qed

end
