(* ===== verification/FilePath.thy ===== *)
theory FilePath
  imports GoStrings
begin

text \<open>
  Go's \<open>path/filepath\<close> on Unix, as far as the program uses it: \<open>Clean\<close> and \<open>Join\<close>. The facts at
  the end say what joining one proper name to a cleaned directory gives, which is how the spool and
  the certificate manager name their files.
\<close>

type_synonym path = string

abbreviation slash :: char where
  "slash \<equiv> CHR ''/''"

section \<open>Clean and Join\<close>

text \<open>
  \<open>Clean\<close> goes through the elements of a path with a stack of the elements kept, top first.
\<close>

fun cleanStep :: "bool \<Rightarrow> string list \<Rightarrow> string \<Rightarrow> string list" where
  "cleanStep rooted st c =
     (if c = [] \<or> c = ''.'' then st
      else if c = ''..'' then
        (case st of
           [] \<Rightarrow> if rooted then [] else [c]
         | x # xs \<Rightarrow> if x \<noteq> ''..'' then xs else if rooted then st else c # st)
      else c # st)"

declare cleanStep.simps [simp del]

definition pathElems :: "path \<Rightarrow> string list" where
  "pathElems p = rev (foldl (cleanStep (p \<noteq> [] \<and> hd p = slash)) [] (splitOn slash p))"

definition renderPath :: "bool \<Rightarrow> string list \<Rightarrow> path" where
  "renderPath rooted cs =
     (if rooted then slash # joinWith slash cs
      else if cs = [] then ''.'' else joinWith slash cs)"

definition cleanPath :: "path \<Rightarrow> path" where
  "cleanPath p =
     (if p = [] then ''.'' else renderPath (hd p = slash) (pathElems p))"

definition joinPath :: "path list \<Rightarrow> path" where
  "joinPath es =
     (case dropWhile (\<lambda>e. e = []) es of
        [] \<Rightarrow> []
      | e # es' \<Rightarrow> cleanPath (joinWith slash (e # es')))"

text \<open>The directory a cleaned path is in, and its last element.\<close>

definition dirOf :: "path \<Rightarrow> path" where
  "dirOf p =
     (let ds = butlast (splitOn slash p)
      in if ds = [] then ''.'' else if ds = [[]] then [slash] else joinWith slash ds)"

definition baseOf :: "path \<Rightarrow> string" where
  "baseOf p = last (splitOn slash p)"

section \<open>Cleaned paths\<close>

abbreviation properName :: "string \<Rightarrow> bool" where
  "properName n \<equiv> n \<noteq> [] \<and> n \<noteq> ''.'' \<and> n \<noteq> ''..'' \<and> slash \<notin> set n"

text \<open>The stacks \<open>Clean\<close> can end with: \<open>..\<close> only at the bottom of a relative path.\<close>

fun goodStack :: "bool \<Rightarrow> string list \<Rightarrow> bool" where
  "goodStack r [] \<longleftrightarrow> True"
| "goodStack r (c # st) \<longleftrightarrow>
     goodStack r st \<and> c \<noteq> [] \<and> c \<noteq> ''.'' \<and> slash \<notin> set c \<and>
     (c = ''..'' \<longrightarrow> \<not> r \<and> (\<forall>x \<in> set st. x = ''..''))"

lemma cleanStep_good:
  "goodStack r st \<Longrightarrow> slash \<notin> set c \<Longrightarrow> goodStack r (cleanStep r st c)"
  by (cases st) (auto simp: cleanStep.simps)

lemma foldl_cleanStep_good:
  "goodStack r st \<Longrightarrow> \<forall>c \<in> set cs. slash \<notin> set c \<Longrightarrow> goodStack r (foldl (cleanStep r) st cs)"
  by (induction cs arbitrary: st) (auto intro: cleanStep_good)

lemma pathElems_good: "goodStack (p \<noteq> [] \<and> hd p = slash) (rev (pathElems p))"
  by (auto simp: pathElems_def dest: splitOn_parts_free intro!: foldl_cleanStep_good)

lemma foldl_cleanStep_rev: "goodStack r st \<Longrightarrow> foldl (cleanStep r) [] (rev st) = st"
proof (induction st)
  case (Cons c st)
  then have "foldl (cleanStep r) [] (rev (c # st)) = cleanStep r st c" by simp
  also have "\<dots> = c # st" using Cons.prems by (auto simp: cleanStep.simps split: list.split)
  finally show ?case .
qed simp

lemma goodStack_elems: "goodStack r st \<Longrightarrow> c \<in> set st \<Longrightarrow> c \<noteq> [] \<and> c \<noteq> ''.'' \<and> slash \<notin> set c"
  by (induction st) auto

lemma splitOn_render:
  assumes "goodStack r (rev cs)" "cs \<noteq> []"
  shows "splitOn slash (renderPath r cs) = (if r then [] # cs else cs)"
proof -
  have "splitOn slash (joinWith slash cs) = cs"
    using assms goodStack_elems [of r "rev cs"] by (intro split_join) auto
  with assms(2) show ?thesis by (simp add: renderPath_def)
qed

lemma joinWith_hd_not: "cs \<noteq> [] \<Longrightarrow> hd cs \<noteq> [] \<Longrightarrow> c \<notin> set (hd cs) \<Longrightarrow>
  joinWith c cs \<noteq> [] \<and> hd (joinWith c cs) \<noteq> c"
  by (cases "(c, cs)" rule: joinWith.cases) auto

lemma render_not_Nil: "goodStack r (rev cs) \<Longrightarrow> renderPath r cs \<noteq> []"
  using joinWith_hd_not [of cs slash] goodStack_elems [of r "rev cs" "hd cs"]
  by (auto simp: renderPath_def)

lemma render_rooted:
  "goodStack r (rev cs) \<Longrightarrow> cs \<noteq> [] \<Longrightarrow> (hd (renderPath r cs) = slash) = r"
  using joinWith_hd_not [of cs slash] goodStack_elems [of r "rev cs" "hd cs"]
  by (auto simp: renderPath_def)

text \<open>Cleaning a rendered path gives its elements back; so does adding a proper name to it.\<close>

lemma pathElems_render_snoc:
  assumes good: "goodStack r (rev cs)" and ne: "cs \<noteq> []" and n: "properName n"
  shows "pathElems (renderPath r cs @ slash # n) = cs @ [n]"
proof -
  let ?p = "renderPath r cs @ slash # n"
  have sp: "splitOn slash ?p = (if r then [] # cs else cs) @ [n]"
    using n by (simp add: splitOn_last splitOn_render [OF good ne])
  have rt: "(?p \<noteq> [] \<and> hd ?p = slash) = r"
    using render_rooted [OF good ne] render_not_Nil [OF good] by (simp add: hd_append)
  have "foldl (cleanStep r) [] (if r then [] # cs else cs) = rev cs"
    using foldl_cleanStep_rev [OF good] by (cases r) (simp_all add: cleanStep.simps)
  moreover have "pathElems ?p = rev (foldl (cleanStep r) [] ((if r then [] # cs else cs) @ [n]))"
    by (simp only: pathElems_def rt sp)
  ultimately show ?thesis
    using n by (simp add: cleanStep.simps)
qed

lemma clean_render_snoc:
  assumes "goodStack r (rev cs)" "cs \<noteq> []" "properName n"
  shows "cleanPath (renderPath r cs @ slash # n) = renderPath r cs @ slash # n"
proof -
  have "joinWith slash (cs @ [n]) = joinWith slash cs @ slash # n" by (rule joinWith_snoc) fact
  then have "renderPath r (cs @ [n]) = renderPath r cs @ slash # n"
    using assms(2) by (simp add: renderPath_def)
  then show ?thesis
    using pathElems_render_snoc [OF assms] render_rooted [OF assms(1,2)] render_not_Nil [OF assms(1)]
    by (simp add: cleanPath_def hd_append)
qed

text \<open>A directory made by joining a proper name to a base.\<close>

definition joinedDir :: "path \<Rightarrow> string \<Rightarrow> bool \<times> string list" where
  "joinedDir base d =
     (if base = [] then (False, [d]) else (hd base = slash, pathElems base @ [d]))"

lemma joinPath_dir:
  assumes "properName d"
  shows "joinPath [base, d] = renderPath (fst (joinedDir base d)) (snd (joinedDir base d))"
proof (cases "base = []")
  case True
  have hd_not: "hd d \<noteq> slash" using assms hd_in_set [of d] by metis
  then show ?thesis
    using True assms hd_not
    by (simp add: joinPath_def joinedDir_def cleanPath_def pathElems_def splitOn_free cleanStep.simps)
next
  case False
  moreover have "pathElems (base @ slash # d) = pathElems base @ [d]"
    using assms False by (simp add: pathElems_def splitOn_last cleanStep.simps)
  ultimately show ?thesis
    using assms by (simp add: joinPath_def joinedDir_def cleanPath_def)
qed

lemma joinedDir_good:
  assumes "properName d"
  shows "goodStack (fst (joinedDir base d)) (rev (snd (joinedDir base d)))"
  using assms pathElems_good [of base] by (auto simp: joinedDir_def)

lemma joinedDir_not_Nil: "snd (joinedDir base d) \<noteq> []"
  by (simp add: joinedDir_def)

lemma last_joinedDir: "last (snd (joinedDir base d)) = d"
  by (simp add: joinedDir_def)

text \<open>
  The path of a file with a proper name in such a directory is the directory, a slash and the name,
  so directory and name can be read off it.
\<close>

lemma joinPath_file:
  assumes "properName d" "properName n"
  shows "joinPath [joinPath [base, d], n] = joinPath [base, d] @ slash # n"
proof -
  note good = joinedDir_good [OF assms(1), of base]
  note ne = joinedDir_not_Nil [of base d]
  have "joinPath [base, d] \<noteq> []"
    using render_not_Nil [OF good] by (simp add: joinPath_dir [OF assms(1)])
  then have "joinPath [joinPath [base, d], n] = cleanPath (joinPath [base, d] @ slash # n)"
    by (simp add: joinPath_def)
  then show ?thesis
    using clean_render_snoc [OF good ne assms(2)] by (simp add: joinPath_dir [OF assms(1)])
qed

lemma dirOf_file:
  assumes "properName d" "slash \<notin> set n"
  shows "dirOf (joinPath [base, d] @ slash # n) = joinPath [base, d]"
proof -
  note good = joinedDir_good [OF assms(1), of base]
  note ne = joinedDir_not_Nil [of base d]
  have "splitOn slash (joinPath [base, d]) \<noteq> [[]]"
    using splitOn_render [OF good ne] goodStack_elems [OF good] ne
    by (auto simp: joinPath_dir [OF assms(1)])
  then show ?thesis
    using assms(2) by (simp add: dirOf_def splitOn_last join_split)
qed

lemma baseOf_file: "slash \<notin> set n \<Longrightarrow> baseOf (p @ slash # n) = n"
  by (simp add: baseOf_def splitOn_last)

lemma joinPath_dir_inj:
  assumes "properName d" "properName e" "joinPath [base, d] = joinPath [base, e]"
  shows "d = e"
proof -
  have "splitOn slash (joinPath [base, x]) =
      (if fst (joinedDir base x) then [] # snd (joinedDir base x) else snd (joinedDir base x))"
    if "properName x" for x
    using splitOn_render [OF joinedDir_good [OF that] joinedDir_not_Nil] joinPath_dir [OF that] by simp
  then have "last (splitOn slash (joinPath [base, x])) = x" if "properName x" for x
    using that joinedDir_not_Nil [of base x] last_joinedDir [of base x] by simp
  with assms show ?thesis by metis
qed

lemma file_path_eq_iff:
  "slash \<notin> set n \<Longrightarrow> slash \<notin> set m \<Longrightarrow> p @ slash # n = q @ slash # m \<longleftrightarrow> p = q \<and> n = m"
  by (metis append1_eq_conv join_split splitOn_last splitOn_inj)

end
