(* ===== verification/FileSystem.thy ===== *)
theory FileSystem
  imports FilePath
begin

text \<open>
  The calls of Go's \<open>os\<close> package the program makes on files, over an explicit disk: an association
  list from paths to files and the list of the directories. Any call can fail for a reason outside
  the program; which do, and how many bytes of a failing write still reach the disk, is said by an
  argument of type \<open>os_faults\<close>. \<open>EIO\<close> stands for every error the program does not tell apart.
  Every call that changes the disk adds the new state of the files to the ghost field \<open>trail\<close>, and
  a write adds a state for every prefix of the data, so the trail holds all that a concurrent reader
  (or the next start of the daemon after a crash) can find. Renaming a directory is not modelled: a
  directory at the source or the target of a rename is an error.
\<close>

datatype errno = ENOENT | EEXIST | EISDIR | EXDEV | EIO

datatype fsop =
    OpCreate path | OpWrite path | OpSync path | OpOpen path | OpTrunc path | OpStat path
  | OpRename path path | OpRemove path | OpReadFile path | OpReadDir path | OpInfo path
  | OpMkdir path

record os_faults =
  fault :: "fsop \<Rightarrow> errno option"
  short :: "fsop \<Rightarrow> nat"

definition no_faults :: os_faults where
  "no_faults = \<lparr>fault = (\<lambda>_. None), short = (\<lambda>_. 0)\<rparr>"

record inode =
  idata :: bytes
  mtime :: time

type_synonym files = "(path \<times> inode) list"

record fs =
  files :: files
  dirs :: "path list"
  trail :: "files list"

section \<open>Primitive calls\<close>

definition put_files :: "files \<Rightarrow> fs \<Rightarrow> fs" where
  "put_files al s = s\<lparr>files := al, trail := trail s @ [al]\<rparr>"

definition dirExists :: "fs \<Rightarrow> path \<Rightarrow> bool" where
  "dirExists s d \<longleftrightarrow> d = ''/'' \<or> d = ''.'' \<or> d \<in> set (dirs s)"

definition fileAt :: "fs \<Rightarrow> path \<Rightarrow> inode option" where
  "fileAt s p = map_of (files s) p"

text \<open>\<open>os.MkdirAll\<close> makes the directory and every missing parent.\<close>

definition pathPrefixes :: "path \<Rightarrow> path list" where
  "pathPrefixes p =
     (let cs = splitOn slash p
      in filter (\<lambda>q. q \<noteq> []) (map (\<lambda>k. joinWith slash (take (Suc k) cs)) [0..<length cs]))"

definition mkdirAll :: "os_faults \<Rightarrow> path \<Rightarrow> fs \<Rightarrow> errno option \<times> fs" where
  "mkdirAll F p s =
     (case fault F (OpMkdir p) of
        Some e \<Rightarrow> (Some e, s)
      | None \<Rightarrow>
          if list_ex (\<lambda>q. fileAt s q \<noteq> None) (pathPrefixes p) then (Some EIO, s)
          else (None, s\<lparr>dirs := remdups (dirs s @ pathPrefixes p)\<rparr>))"

text \<open>\<open>os.OpenFile(p, O_WRONLY|O_CREATE|O_EXCL, 0644)\<close>.\<close>

definition openExcl :: "os_faults \<Rightarrow> path \<Rightarrow> time \<Rightarrow> fs \<Rightarrow> errno option \<times> fs" where
  "openExcl F p now s =
     (case fault F (OpCreate p) of
        Some e \<Rightarrow> (Some e, s)
      | None \<Rightarrow>
          if fileAt s p \<noteq> None \<or> dirExists s p then (Some EEXIST, s)
          else if \<not> dirExists s (dirOf p) then (Some ENOENT, s)
          else (None, put_files (AList.update p \<lparr>idata = [], mtime = now\<rparr> (files s)) s))"

text \<open>\<open>os.OpenFile(p, O_WRONLY|O_CREATE|O_TRUNC, 0644)\<close>.\<close>

definition openTrunc :: "os_faults \<Rightarrow> path \<Rightarrow> time \<Rightarrow> fs \<Rightarrow> errno option \<times> fs" where
  "openTrunc F p now s =
     (case fault F (OpTrunc p) of
        Some e \<Rightarrow> (Some e, s)
      | None \<Rightarrow>
          if dirExists s p then (Some EISDIR, s)
          else if \<not> dirExists s (dirOf p) then (Some ENOENT, s)
          else (None, put_files (AList.update p \<lparr>idata = [], mtime = now\<rparr> (files s)) s))"

text \<open>
  \<open>File.Write\<close> on the file just opened, which was empty: its contents go through the prefixes of
  the data. A failing write leaves \<open>short\<close> bytes.
\<close>

definition writePrefix :: "path \<Rightarrow> bytes \<Rightarrow> time \<Rightarrow> files \<Rightarrow> nat \<Rightarrow> files" where
  "writePrefix p d now al k = AList.update p \<lparr>idata = take k d, mtime = now\<rparr> al"

definition writeBytes :: "path \<Rightarrow> bytes \<Rightarrow> time \<Rightarrow> nat \<Rightarrow> fs \<Rightarrow> fs" where
  "writeBytes p d now n s =
     s\<lparr>files := writePrefix p d now (files s) n,
       trail := trail s @ map (writePrefix p d now (files s)) [0..<Suc n]\<rparr>"

definition writeFile :: "os_faults \<Rightarrow> path \<Rightarrow> bytes \<Rightarrow> time \<Rightarrow> fs \<Rightarrow> errno option \<times> fs" where
  "writeFile F p d now s =
     (case fault F (OpWrite p) of
        Some e \<Rightarrow> (Some e, writeBytes p d now (min (short F (OpWrite p)) (length d)) s)
      | None \<Rightarrow> (None, writeBytes p d now (length d) s))"

definition syncFile :: "os_faults \<Rightarrow> path \<Rightarrow> fs \<Rightarrow> errno option" where
  "syncFile F p s = fault F (OpSync p)"

text \<open>\<open>os.Rename\<close>, for files.\<close>

definition rename :: "os_faults \<Rightarrow> path \<Rightarrow> path \<Rightarrow> fs \<Rightarrow> errno option \<times> fs" where
  "rename F p q s =
     (case fault F (OpRename p q) of
        Some e \<Rightarrow> (Some e, s)
      | None \<Rightarrow>
          (case fileAt s p of
             None \<Rightarrow> (Some (if dirExists s p then EISDIR else ENOENT), s)
           | Some n \<Rightarrow>
               if dirExists s q then (Some EISDIR, s)
               else if \<not> dirExists s (dirOf q) then (Some ENOENT, s)
               else (None, put_files (AList.update q n (AList.delete p (files s))) s)))"

definition statFile :: "os_faults \<Rightarrow> path \<Rightarrow> fs \<Rightarrow> errno option" where
  "statFile F p s =
     (case fault F (OpStat p) of
        Some e \<Rightarrow> Some e
      | None \<Rightarrow> if fileAt s p \<noteq> None \<or> dirExists s p then None else Some ENOENT)"

text \<open>\<open>os.Remove\<close> removes a file or an empty directory.\<close>

definition removeFile :: "os_faults \<Rightarrow> path \<Rightarrow> fs \<Rightarrow> errno option \<times> fs" where
  "removeFile F p s =
     (case fault F (OpRemove p) of
        Some e \<Rightarrow> (Some e, s)
      | None \<Rightarrow>
          if fileAt s p \<noteq> None then (None, put_files (AList.delete p (files s)) s)
          else if p \<in> set (dirs s) then
            if list_ex (\<lambda>q. dirOf q = p) (map fst (files s) @ dirs s) then (Some EIO, s)
            else (None, s\<lparr>dirs := removeAll p (dirs s)\<rparr>)
          else (Some ENOENT, s))"

definition readFile :: "os_faults \<Rightarrow> path \<Rightarrow> fs \<Rightarrow> errno + bytes" where
  "readFile F p s =
     (case fault F (OpReadFile p) of
        Some e \<Rightarrow> Inl e
      | None \<Rightarrow>
          (case fileAt s p of
             Some n \<Rightarrow> Inr (idata n)
           | None \<Rightarrow> Inl (if dirExists s p then EISDIR else ENOENT)))"

text \<open>
  \<open>os.ReadDir\<close> gives the entries sorted by name, each with whether it is a directory.
\<close>

definition dirEntries :: "fs \<Rightarrow> path \<Rightarrow> (string \<times> bool) list" where
  "dirEntries s d =
     sort_key fst
       (map (\<lambda>p. (baseOf p, False)) (filter (\<lambda>p. dirOf p = d) (map fst (files s))) @
        map (\<lambda>p. (baseOf p, True)) (filter (\<lambda>p. dirOf p = d) (dirs s)))"

definition readDir :: "os_faults \<Rightarrow> path \<Rightarrow> fs \<Rightarrow> errno + (string \<times> bool) list" where
  "readDir F d s =
     (case fault F (OpReadDir d) of
        Some e \<Rightarrow> Inl e
      | None \<Rightarrow> if dirExists s d then Inr (dirEntries s d) else Inl ENOENT)"

text \<open>The modification time of a directory entry (\<open>DirEntry.Info\<close>).\<close>

definition entryInfo :: "os_faults \<Rightarrow> path \<Rightarrow> fs \<Rightarrow> errno + time" where
  "entryInfo F p s =
     (case fault F (OpInfo p) of
        Some e \<Rightarrow> Inl e
      | None \<Rightarrow> (case fileAt s p of Some n \<Rightarrow> Inr (mtime n) | None \<Rightarrow> Inl ENOENT))"

section \<open>What the calls do to the files\<close>

lemma fault_no_faults [simp]: "fault no_faults x = None"
  by (simp add: no_faults_def)

lemma fileAt_put_files [simp]: "fileAt (put_files al s) = map_of al"
  by (rule ext) (simp add: fileAt_def put_files_def)

lemma dirs_put_files [simp]: "dirs (put_files al s) = dirs s"
  by (simp add: put_files_def)

lemma dirs_writeBytes [simp]: "dirs (writeBytes p d now n s) = dirs s"
  by (simp add: writeBytes_def)

lemma dirExists_put_files [simp]: "dirExists (put_files al s) = dirExists s"
  by (rule ext) (simp add: dirExists_def)

lemma dirExists_writeBytes [simp]: "dirExists (writeBytes p d now n s) = dirExists s"
  by (rule ext) (simp add: dirExists_def)

lemma fileAt_writeBytes [simp]:
  "fileAt (writeBytes p d now n s) = (fileAt s)(p \<mapsto> \<lparr>idata = take n d, mtime = now\<rparr>)"
  by (rule ext) (simp add: fileAt_def writeBytes_def writePrefix_def)

lemma trail_put_files [simp]: "trail (put_files al s) = trail s @ [al]"
  by (simp add: put_files_def)

lemma trail_writeBytes:
  "al \<in> set (trail (writeBytes p d now n s)) \<Longrightarrow> q \<noteq> p \<Longrightarrow>
     al \<in> set (trail s) \<or> map_of al q = map_of (files s) q"
  by (auto simp: writeBytes_def writePrefix_def)

lemma files_put_files [simp]: "files (put_files al s) = al"
  by (simp add: put_files_def)

lemma fileAt_dirs_update [simp]: "fileAt (s\<lparr>dirs := ds\<rparr>) = fileAt s"
  by (rule ext) (simp add: fileAt_def)

lemma map_of_files [simp]: "map_of (files s) = fileAt s"
  by (rule ext) (simp add: fileAt_def)

text \<open>Each call that changes the disk either failed and changed nothing, or did all it says.\<close>

lemma openExcl_D:
  "openExcl F p now s = (r, s') \<Longrightarrow>
     (\<exists>e. r = Some e \<and> s' = s) \<or>
     r = None \<and> fileAt s p = None \<and> \<not> dirExists s p \<and> dirExists s (dirOf p) \<and>
     s' = put_files (AList.update p \<lparr>idata = [], mtime = now\<rparr> (files s)) s"
  by (auto simp: openExcl_def split: option.splits if_splits)

lemma openTrunc_D:
  "openTrunc F p now s = (r, s') \<Longrightarrow>
     (\<exists>e. r = Some e \<and> s' = s) \<or>
     r = None \<and> \<not> dirExists s p \<and> dirExists s (dirOf p) \<and>
     s' = put_files (AList.update p \<lparr>idata = [], mtime = now\<rparr> (files s)) s"
  by (auto simp: openTrunc_def split: option.splits if_splits)

lemma rename_D:
  "rename F p q s = (r, s') \<Longrightarrow>
     (\<exists>e. r = Some e \<and> s' = s) \<or>
     (\<exists>n. r = None \<and> fileAt s p = Some n \<and> \<not> dirExists s q \<and> dirExists s (dirOf q) \<and>
        s' = put_files (AList.update q n (AList.delete p (files s))) s)"
  by (auto simp: rename_def split: option.splits if_splits)

lemma removeFile_D:
  "removeFile F p s = (r, s') \<Longrightarrow>
     (\<exists>e. r = Some e \<and> s' = s) \<or>
     r = None \<and> fileAt s p \<noteq> None \<and> s' = put_files (AList.delete p (files s)) s \<or>
     r = None \<and> fileAt s p = None \<and> p \<in> set (dirs s) \<and> s' = s\<lparr>dirs := removeAll p (dirs s)\<rparr>"
  by (auto simp: removeFile_def split: option.splits if_splits)

end
