(* ===== verification/Spool.thy ===== *)
theory Spool
  imports FileSystem
begin

text \<open>
  \<open>internal/spool/spool.go\<close>: the message spool. A message is the file
  \<open>base/stage/msgID.eml\<close>; a message moves from stage to stage by renaming its file. The logging
  calls are left out. Each operation takes the faults of its system calls and, where it creates or
  dates files, the time.
\<close>

section \<open>Stages, configuration and paths\<close>

datatype Stage =
    StageTmp | StageIncoming | StageParsed | StageFiltered | StageModified | StageSigned
  | StageDelivering | StageDone | StageFailed

fun stageName :: "Stage \<Rightarrow> string" where
  "stageName StageTmp = ''tmp''"
| "stageName StageIncoming = ''incoming''"
| "stageName StageParsed = ''parsed''"
| "stageName StageFiltered = ''filtered''"
| "stageName StageModified = ''modified''"
| "stageName StageSigned = ''signed''"
| "stageName StageDelivering = ''delivering''"
| "stageName StageDone = ''done''"
| "stageName StageFailed = ''failed''"

definition AllStages :: "Stage list" where
  "AllStages =
     [StageTmp, StageIncoming, StageParsed, StageFiltered, StageModified, StageSigned,
      StageDelivering, StageDone, StageFailed]"

text \<open>The stages are ordered as the pipeline goes through them.\<close>

definition stageRank :: "Stage \<Rightarrow> nat" where
  "stageRank st = length (takeWhile (\<lambda>x. x \<noteq> st) AllStages)"

lemma stageRank_inj: "stageRank a = stageRank b \<Longrightarrow> a = b"
  by (cases a; cases b; simp add: stageRank_def AllStages_def)

instantiation Stage :: linorder
begin

definition less_eq_Stage :: "Stage \<Rightarrow> Stage \<Rightarrow> bool" where
  "less_eq_Stage a b \<longleftrightarrow> stageRank a \<le> stageRank b"

definition less_Stage :: "Stage \<Rightarrow> Stage \<Rightarrow> bool" where
  "less_Stage a b \<longleftrightarrow> stageRank a < stageRank b"

instance
  by standard (auto simp: less_eq_Stage_def less_Stage_def intro: stageRank_inj)

end

text \<open>
  The retention of each stage is a Go map, visited by \<open>Cleanup\<close> in an arbitrary order: here a list
  of its entries in the order of the visit.
\<close>

record Spool =
  basePath :: path
  retention :: "(Stage \<times> duration) list"

definition stageDir :: "Spool \<Rightarrow> Stage \<Rightarrow> path" where
  "stageDir sp st = joinPath [basePath sp, stageName st]"

definition stagePath :: "Spool \<Rightarrow> Stage \<Rightarrow> string \<Rightarrow> path" where
  "stagePath sp st msgID = joinPath [stageDir sp st, msgID @ ''.eml'']"

definition GetPath :: "Spool \<Rightarrow> Stage \<Rightarrow> string \<Rightarrow> path" where
  "GetPath sp st msgID = stagePath sp st msgID"

section \<open>Operations\<close>

datatype spool_error =
    CreatingDirectory Stage errno | InitializingSpool spool_error
  | CreatingTempFile errno | WritingData errno | SyncingFile errno | RenamingFile errno
  | MovingToIncoming spool_error
  | SourceNotFound Stage string | CheckingSource errno | CopyingFile errno | RemovingSource errno
  | MovingFile errno
  | MessageNotFound Stage string | ReadingMessage errno | DeletingMessage errno
  | ReadingDirectory errno

fun initStages :: "os_faults \<Rightarrow> Spool \<Rightarrow> Stage list \<Rightarrow> fs \<Rightarrow> spool_error option \<times> fs" where
  "initStages F sp [] s = (None, s)"
| "initStages F sp (st # sts) s =
     (case mkdirAll F (stageDir sp st) s of
        (Some e, s') \<Rightarrow> (Some (CreatingDirectory st e), s')
      | (None, s') \<Rightarrow> initStages F sp sts s')"

definition initializeSpool :: "os_faults \<Rightarrow> Spool \<Rightarrow> fs \<Rightarrow> spool_error option \<times> fs" where
  "initializeSpool F sp s = initStages F sp AllStages s"

definition NewSpool ::
  "os_faults \<Rightarrow> path \<Rightarrow> (Stage \<times> duration) list \<Rightarrow> fs \<Rightarrow> (spool_error + Spool) \<times> fs" where
  "NewSpool F base ret s =
     (let sp = \<lparr>basePath = base, retention = ret\<rparr>
      in case initializeSpool F sp s of
           (Some e, s') \<Rightarrow> (Inl (InitializingSpool e), s')
         | (None, s') \<Rightarrow> (Inr sp, s'))"

text \<open>
  \<open>copyFile\<close>. When reading the source fails in the middle of \<open>io.Copy\<close>, the bytes read so far have
  been written.
\<close>

definition ioCopy :: "os_faults \<Rightarrow> time \<Rightarrow> path \<Rightarrow> path \<Rightarrow> fs \<Rightarrow> errno option \<times> fs" where
  "ioCopy F now src dst s =
     (case fileAt s src of
        None \<Rightarrow> (Some EISDIR, s)
      | Some n \<Rightarrow>
          (case fault F (OpReadFile src) of
             Some e \<Rightarrow>
               (Some e,
                writeBytes dst (idata n) now (min (short F (OpReadFile src)) (length (idata n))) s)
           | None \<Rightarrow> writeFile F dst (idata n) now s))"

definition copyFile :: "os_faults \<Rightarrow> time \<Rightarrow> path \<Rightarrow> path \<Rightarrow> fs \<Rightarrow> errno option \<times> fs" where
  "copyFile F now src dst s =
     (case fault F (OpOpen src) of
        Some e \<Rightarrow> (Some e, s)
      | None \<Rightarrow>
          if fileAt s src = None \<and> \<not> dirExists s src then (Some ENOENT, s)
          else
            (case openTrunc F dst now s of
               (Some e, s1) \<Rightarrow> (Some e, s1)
             | (None, s1) \<Rightarrow>
                 (case ioCopy F now src dst s1 of
                    (Some e, s2) \<Rightarrow> (Some e, s2)
                  | (None, s2) \<Rightarrow> (syncFile F dst s2, s2))))"

definition Move ::
  "os_faults \<Rightarrow> Spool \<Rightarrow> time \<Rightarrow> string \<Rightarrow> Stage \<Rightarrow> Stage \<Rightarrow> fs \<Rightarrow> spool_error option \<times> fs" where
  "Move F sp now msgID from dest s =
     (let srcPath = stagePath sp from msgID; dstPath = stagePath sp dest msgID
      in case statFile F srcPath s of
           Some e \<Rightarrow>
             (Some (if e = ENOENT then SourceNotFound from msgID else CheckingSource e), s)
         | None \<Rightarrow>
             (case rename F srcPath dstPath s of
                (None, s') \<Rightarrow> (None, s')
              | (Some e, s') \<Rightarrow>
                  if e = EXDEV then
                    (case copyFile F now srcPath dstPath s' of
                       (Some e2, s2) \<Rightarrow> (Some (CopyingFile e2), s2)
                     | (None, s2) \<Rightarrow>
                         (case removeFile F srcPath s2 of
                            (Some e3, s3) \<Rightarrow> (Some (RemovingSource e3), s3)
                          | (None, s3) \<Rightarrow> (None, s3)))
                  else (Some (MovingFile e), s')))"

definition Write ::
  "os_faults \<Rightarrow> Spool \<Rightarrow> time \<Rightarrow> string \<Rightarrow> bytes \<Rightarrow> fs \<Rightarrow> spool_error option \<times> fs" where
  "Write F sp now msgID data s =
     (let tmpPath = stagePath sp StageTmp msgID; tmpFile = tmpPath @ ''.tmp''
      in case openExcl F tmpFile now s of
           (Some e, s1) \<Rightarrow> (Some (CreatingTempFile e), s1)
         | (None, s1) \<Rightarrow>
             (case writeFile F tmpFile data now s1 of
                (Some e, s2) \<Rightarrow> (Some (WritingData e), snd (removeFile F tmpFile s2))
              | (None, s2) \<Rightarrow>
                  (case syncFile F tmpFile s2 of
                     Some e \<Rightarrow> (Some (SyncingFile e), snd (removeFile F tmpFile s2))
                   | None \<Rightarrow>
                       (case rename F tmpFile tmpPath s2 of
                          (Some e, s3) \<Rightarrow> (Some (RenamingFile e), snd (removeFile F tmpFile s3))
                        | (None, s3) \<Rightarrow>
                            (case Move F sp now msgID StageTmp StageIncoming s3 of
                               (Some e, s4) \<Rightarrow> (Some (MovingToIncoming e), s4)
                             | (None, s4) \<Rightarrow> (None, s4))))))"

definition Read :: "os_faults \<Rightarrow> Spool \<Rightarrow> Stage \<Rightarrow> string \<Rightarrow> fs \<Rightarrow> spool_error + bytes" where
  "Read F sp st msgID s =
     (case readFile F (stagePath sp st msgID) s of
        Inl e \<Rightarrow> Inl (if e = ENOENT then MessageNotFound st msgID else ReadingMessage e)
      | Inr d \<Rightarrow> Inr d)"

definition Exists :: "os_faults \<Rightarrow> Spool \<Rightarrow> Stage \<Rightarrow> string \<Rightarrow> fs \<Rightarrow> bool" where
  "Exists F sp st msgID s \<longleftrightarrow> statFile F (stagePath sp st msgID) s = None"

definition Delete ::
  "os_faults \<Rightarrow> Spool \<Rightarrow> Stage \<Rightarrow> string \<Rightarrow> fs \<Rightarrow> spool_error option \<times> fs" where
  "Delete F sp st msgID s =
     (case removeFile F (stagePath sp st msgID) s of
        (Some e, s') \<Rightarrow> (if e = ENOENT then None else Some (DeletingMessage e), s')
      | (None, s') \<Rightarrow> (None, s'))"

definition emlName :: "string \<Rightarrow> string option" where
  "emlName name =
     (if 4 < length name \<and> drop (length name - 4) name = ''.eml''
      then Some (take (length name - 4) name) else None)"

definition ListMessages :: "os_faults \<Rightarrow> Spool \<Rightarrow> Stage \<Rightarrow> fs \<Rightarrow> spool_error + string list" where
  "ListMessages F sp st s =
     (case readDir F (stageDir sp st) s of
        Inl e \<Rightarrow> Inl (ReadingDirectory e)
      | Inr entries \<Rightarrow>
          Inr (List.map_filter (\<lambda>(name, isDir). if isDir then None else emlName name) entries))"

definition Count :: "os_faults \<Rightarrow> Spool \<Rightarrow> Stage \<Rightarrow> fs \<Rightarrow> spool_error + nat" where
  "Count F sp st s =
     (case ListMessages F sp st s of Inl e \<Rightarrow> Inl e | Inr ms \<Rightarrow> Inr (length ms))"

text \<open>
  \<open>Cleanup\<close>: for each stage with a positive retention, the directory is read and each file in it
  older than the retention is removed; failures are logged and skipped.
\<close>

fun cleanupEntries ::
  "os_faults \<Rightarrow> time \<Rightarrow> path \<Rightarrow> duration \<Rightarrow> (string \<times> bool) list \<Rightarrow> fs \<Rightarrow> fs" where
  "cleanupEntries F now d ret [] s = s"
| "cleanupEntries F now d ret ((name, isDir) # es) s =
     cleanupEntries F now d ret es
       (if isDir then s
        else
          (case entryInfo F (joinPath [d, name]) s of
             Inl e \<Rightarrow> s
           | Inr t \<Rightarrow>
               if ret < timeSub now t then snd (removeFile F (joinPath [d, name]) s) else s))"

definition cleanupStage ::
  "os_faults \<Rightarrow> Spool \<Rightarrow> time \<Rightarrow> Stage \<times> duration \<Rightarrow> fs \<Rightarrow> fs" where
  "cleanupStage F sp now sr s =
     (case sr of (st, ret) \<Rightarrow>
        if ret \<le> 0 then s
        else
          (case readDir F (stageDir sp st) s of
             Inl e \<Rightarrow> s
           | Inr entries \<Rightarrow> cleanupEntries F now (stageDir sp st) ret entries s))"

definition Cleanup :: "os_faults \<Rightarrow> Spool \<Rightarrow> time \<Rightarrow> fs \<Rightarrow> fs" where
  "Cleanup F sp now s = fold (cleanupStage F sp now) (retention sp) s"

text \<open>
  \<open>StartCleanupWorker\<close> runs \<open>Cleanup\<close> at every tick until it is told to stop.
\<close>

datatype worker_event = Tick os_faults time | Stop

fun cleanupWorker :: "Spool \<Rightarrow> worker_event list \<Rightarrow> fs \<Rightarrow> fs" where
  "cleanupWorker sp [] s = s"
| "cleanupWorker sp (Stop # es) s = s"
| "cleanupWorker sp (Tick F now # es) s = cleanupWorker sp es (Cleanup F sp now s)"

text \<open>A ticker panics (\<open>None\<close>) when its interval is not positive.\<close>

definition StartCleanupWorker :: "duration \<Rightarrow> Spool \<Rightarrow> worker_event list \<Rightarrow> fs \<Rightarrow> fs option" where
  "StartCleanupWorker interval sp es s = (if interval \<le> 0 then None else Some (cleanupWorker sp es s))"

end
