(* ===== verification/SpoolLaws.thy ===== *)
theory SpoolLaws
  imports Spool
begin

text \<open>
  What the spool promises: where its files are, what \<open>Write\<close>, \<open>Move\<close>, \<open>Delete\<close>, \<open>List\<close> and
  \<open>Cleanup\<close> do to the messages of every stage, on success and on every failure.
\<close>

section \<open>Paths of messages\<close>

abbreviation validID :: "string \<Rightarrow> bool" where
  "validID m \<equiv> slash \<notin> set m"

lemma properName_stage: "properName (stageName st)"
  by (cases st) auto

lemma stageName_inj: "stageName a = stageName b \<Longrightarrow> a = b"
  by (cases a; cases b; simp)

lemma properName_eml: "validID m \<Longrightarrow> properName (m @ ''.eml'')"
  by (cases m) auto

lemma stagePath_eq: "validID m \<Longrightarrow> stagePath sp st m = stageDir sp st @ slash # m @ ''.eml''"
  using joinPath_file [OF properName_stage properName_eml] by (simp add: stagePath_def stageDir_def)

lemma stageDir_inj: "stageDir sp a = stageDir sp b \<longleftrightarrow> a = b"
  using joinPath_dir_inj [OF properName_stage properName_stage] stageName_inj
  by (metis stageDir_def)

lemma stagePath_inj [simp]:
  "validID m \<Longrightarrow> validID k \<Longrightarrow> stagePath sp a m = stagePath sp b k \<longleftrightarrow> a = b \<and> m = k"
  using file_path_eq_iff [of "m @ ''.eml''" "k @ ''.eml''" "stageDir sp a" "stageDir sp b"]
  by (simp add: stagePath_eq stageDir_inj)

lemma tmp_not_stagePath [simp]:
  assumes "validID k"
  shows "stagePath sp a m @ ''.tmp'' \<noteq> stagePath sp b k" "stagePath sp b k \<noteq> stagePath sp a m @ ''.tmp''"
proof -
  have "last (stagePath sp a m @ ''.tmp'') \<noteq> last (stagePath sp b k)"
    using assms by (simp add: stagePath_eq)
  then show "stagePath sp a m @ ''.tmp'' \<noteq> stagePath sp b k"
    and "stagePath sp b k \<noteq> stagePath sp a m @ ''.tmp''" by metis+
qed

lemma dirOf_stagePath: "validID m \<Longrightarrow> dirOf (stagePath sp st m) = stageDir sp st"
  using dirOf_file [OF properName_stage, of "m @ ''.eml''"] by (simp add: stagePath_eq stageDir_def)

lemma dirOf_tmpFile: "validID m \<Longrightarrow> dirOf (stagePath sp st m @ ''.tmp'') = stageDir sp st"
  using dirOf_file [OF properName_stage, of "m @ ''.eml.tmp''"] by (simp add: stagePath_eq stageDir_def)

section \<open>The messages of a disk\<close>

definition msgAt :: "Spool \<Rightarrow> fs \<Rightarrow> Stage \<Rightarrow> string \<Rightarrow> bytes option" where
  "msgAt sp s st m = map_option idata (fileAt s (stagePath sp st m))"

text \<open>How a move changes the files: nothing but the two paths, and the message is never lost.\<close>

lemma writeFile_D:
  "writeFile F p d now s = (r, s') \<Longrightarrow>
     (\<exists>k. s' = writeBytes p d now k s) \<and> (r = None \<longrightarrow> s' = writeBytes p d now (length d) s)"
  by (auto simp: writeFile_def split: option.splits)

lemma ioCopy_D:
  "ioCopy F now src dst s = (r, s') \<Longrightarrow>
     (\<exists>e. r = Some e \<and> s' = s) \<or>
     (\<exists>n k. fileAt s src = Some n \<and> s' = writeBytes dst (idata n) now k s \<and>
        (r = None \<longrightarrow> k = length (idata n)))"
  by (auto simp: ioCopy_def writeFile_def split: option.splits)

lemma copyFile_D:
  assumes "copyFile F now src dst s = (r, s')" "src \<noteq> dst"
  shows "fileAt s' src = fileAt s src"
    and "p \<noteq> dst \<Longrightarrow> fileAt s' p = fileAt s p"
    and "r = None \<Longrightarrow> \<exists>n. fileAt s src = Some n \<and> fileAt s' dst = Some \<lparr>idata = idata n, mtime = now\<rparr>"
    and "dirs s' = dirs s"
  using assms
  by (auto simp: copyFile_def split: option.splits prod.splits if_splits
      dest!: openTrunc_D ioCopy_D)

lemma Move_D:
  assumes "Move F sp now m a b s = (r, s')" "validID m" "a \<noteq> b"
  shows "fileAt s' (stagePath sp a m) = fileAt s (stagePath sp a m) \<or>
         (r = None \<and> fileAt s' (stagePath sp a m) = None)"
    and "p \<noteq> stagePath sp a m \<Longrightarrow> p \<noteq> stagePath sp b m \<Longrightarrow> fileAt s' p = fileAt s p"
    and "r = None \<Longrightarrow> fileAt s' (stagePath sp a m) = None \<and> msgAt sp s a m \<noteq> None \<and>
           msgAt sp s' b m = msgAt sp s a m"
proof -
  have ne: "stagePath sp a m \<noteq> stagePath sp b m" using assms by simp
  show "fileAt s' (stagePath sp a m) = fileAt s (stagePath sp a m) \<or>
         (r = None \<and> fileAt s' (stagePath sp a m) = None)"
    using assms(1) ne
    by (auto simp: Move_def Let_def split: option.splits prod.splits if_splits
        dest!: rename_D removeFile_D dest: copyFile_D(1))
  show "fileAt s' p = fileAt s p" if "p \<noteq> stagePath sp a m" "p \<noteq> stagePath sp b m"
    using assms(1) ne that
    by (auto simp: Move_def Let_def split: option.splits prod.splits if_splits
        dest!: rename_D removeFile_D dest: copyFile_D(2) [OF _ ne])
  show "fileAt s' (stagePath sp a m) = None \<and> msgAt sp s a m \<noteq> None \<and>
           msgAt sp s' b m = msgAt sp s a m" if "r = None"
    using assms(1) ne that
    by (auto simp: Move_def msgAt_def Let_def split: option.splits prod.splits if_splits
        dest!: rename_D removeFile_D dest: copyFile_D(1,3))
qed

lemma Move_frame:
  assumes "Move F sp now m a b s = (r, s')" "validID m" "validID k" "a \<noteq> b"
    and "k \<noteq> m \<or> st \<noteq> a \<and> st \<noteq> b"
  shows "msgAt sp s' st k = msgAt sp s st k"
  using Move_D(2) [OF assms(1,2,4), of "stagePath sp st k"] assms by (auto simp: msgAt_def)

lemma Move_moves:
  assumes "Move F sp now m a b s = (None, s')" "validID m" "a \<noteq> b"
  shows "msgAt sp s' b m = msgAt sp s a m \<and> msgAt sp s' a m = None"
  using Move_D(3) [OF assms] by (simp add: msgAt_def)

lemma Move_keeps:
  assumes "Move F sp now m a b s = (Some e, s')" "validID m" "a \<noteq> b"
  shows "msgAt sp s' a m = msgAt sp s a m"
  using Move_D(1) [OF assms] by (simp add: msgAt_def)

lemma Write_success:
  assumes "Write F sp now m d s = (None, s')" "validID m"
  shows "msgAt sp s' StageIncoming m = Some d" and "msgAt sp s' StageTmp m = None"
    and "validID k \<Longrightarrow> k \<noteq> m \<or> st \<noteq> StageTmp \<and> st \<noteq> StageIncoming \<Longrightarrow>
           msgAt sp s' st k = msgAt sp s st k"
proof -
  let ?tp = "stagePath sp StageTmp m" and ?tf = "stagePath sp StageTmp m @ ''.tmp''"
  obtain s3 where mv: "Move F sp now m StageTmp StageIncoming s3 = (None, s')"
    and tp: "fileAt s3 ?tp = Some \<lparr>idata = d, mtime = now\<rparr>"
    and fr: "\<And>p. p \<noteq> ?tp \<Longrightarrow> p \<noteq> ?tf \<Longrightarrow> fileAt s3 p = fileAt s p"
    using assms(1)
    by (auto simp: Write_def Let_def split: option.splits prod.splits
        dest!: openExcl_D writeFile_D rename_D)
  note eff = Move_D [OF mv assms(2), simplified]
  show "msgAt sp s' StageIncoming m = Some d" "msgAt sp s' StageTmp m = None"
    using eff(3) tp by (simp_all add: msgAt_def)
  show "msgAt sp s' st k = msgAt sp s st k"
    if "validID k" "k \<noteq> m \<or> st \<noteq> StageTmp \<and> st \<noteq> StageIncoming"
    using Move_frame [OF mv assms(2) that(1)] fr [of "stagePath sp st k"] that assms(2)
    by (auto simp: msgAt_def)
qed

text \<open>Whatever fails, writing touches no file but its own.\<close>

lemma fileAt_removeFile: "p \<noteq> q \<Longrightarrow> fileAt (snd (removeFile F q s)) p = fileAt s p"
  by (cases "removeFile F q s") (auto dest!: removeFile_D)

lemma Write_frame:
  assumes "Write F sp now m d s = (r, s')" "validID m"
    and "p \<noteq> stagePath sp StageTmp m" "p \<noteq> stagePath sp StageTmp m @ ''.tmp''" "p \<noteq> stagePath sp StageIncoming m"
  shows "fileAt s' p = fileAt s p"
  using assms(1,3-5)
  by (auto simp: Write_def Let_def fileAt_removeFile split: option.splits prod.splits
      dest!: openExcl_D writeFile_D rename_D dest: Move_D(2) [OF _ assms(2)])

section \<open>What a concurrent reader can see of a write\<close>

definition msgIn :: "Spool \<Rightarrow> files \<Rightarrow> Stage \<Rightarrow> string \<Rightarrow> bytes option" where
  "msgIn sp al st k = map_option idata (map_of al (stagePath sp st k))"

text \<open>
  A state of the files in which every message is as before the write of \<open>d\<close> under \<open>m\<close>, except that
  \<open>m\<close> itself may be gone from \<open>tmp\<close>, or be in \<open>tmp\<close> or \<open>incoming\<close> with all of \<open>d\<close>.
\<close>

definition wholeView :: "Spool \<Rightarrow> fs \<Rightarrow> string \<Rightarrow> bytes \<Rightarrow> files \<Rightarrow> bool" where
  "wholeView sp s m d al \<longleftrightarrow>
     (\<forall>st k. validID k \<longrightarrow>
        msgIn sp al st k = msgAt sp s st k \<or>
        k = m \<and> (st = StageTmp \<and> msgIn sp al st k \<in> {None, Some d} \<or>
                 st = StageIncoming \<and> msgIn sp al st k = Some d))"

lemma wholeView_tmp:
  assumes "\<And>p. p \<noteq> stagePath sp StageTmp m @ ''.tmp'' \<Longrightarrow> map_of al p = fileAt s p"
  shows "wholeView sp s m d al"
  using assms by (simp add: wholeView_def msgIn_def msgAt_def)

lemma wholeView_moved:
  assumes "\<And>p. p \<noteq> stagePath sp StageTmp m @ ''.tmp'' \<Longrightarrow> p \<noteq> stagePath sp StageTmp m \<Longrightarrow>
             p \<noteq> stagePath sp StageIncoming m \<Longrightarrow> map_of al p = fileAt s p"
    and "validID m" "msgIn sp al StageTmp m \<in> {None, Some d}"
    and "msgIn sp al StageIncoming m \<in> {msgAt sp s StageIncoming m, Some d}"
  shows "wholeView sp s m d al"
  unfolding wholeView_def
proof (intro allI impI)
  fix st k
  assume k: "validID k"
  show "msgIn sp al st k = msgAt sp s st k \<or>
        k = m \<and> (st = StageTmp \<and> msgIn sp al st k \<in> {None, Some d} \<or>
                 st = StageIncoming \<and> msgIn sp al st k = Some d)"
  proof (cases "k = m \<and> (st = StageTmp \<or> st = StageIncoming)")
    case True
    then show ?thesis using assms(3,4) by auto
  next
    case False
    then have "map_of al (stagePath sp st k) = fileAt s (stagePath sp st k)"
      using assms(1,2) k by (metis stagePath_inj tmp_not_stagePath)
    then show ?thesis by (simp add: msgIn_def msgAt_def)
  qed
qed

text \<open>The part of \<open>Write\<close> before the move: only the temporary file and then \<open>tmp\<close> change.\<close>

lemma openExcl_trail:
  "openExcl F p now s = (r, s') \<Longrightarrow>
     (\<forall>al \<in> set (trail s'). al \<in> set (trail s) \<or> (\<forall>q. q \<noteq> p \<longrightarrow> map_of al q = fileAt s q)) \<and>
     (\<forall>q. q \<noteq> p \<longrightarrow> fileAt s' q = fileAt s q)"
  by (auto dest!: openExcl_D)

lemma writeFile_trail:
  "writeFile F p d now s = (r, s') \<Longrightarrow>
     (\<forall>al \<in> set (trail s'). al \<in> set (trail s) \<or> (\<forall>q. q \<noteq> p \<longrightarrow> map_of al q = fileAt s q)) \<and>
     (\<forall>q. q \<noteq> p \<longrightarrow> fileAt s' q = fileAt s q)"
  by (auto dest!: writeFile_D trail_writeBytes)

lemma removeFile_trail:
  "removeFile F p s = (r, s') \<Longrightarrow>
     (\<forall>al \<in> set (trail s'). al \<in> set (trail s) \<or> (\<forall>q. q \<noteq> p \<longrightarrow> map_of al q = fileAt s q)) \<and>
     (\<forall>q. q \<noteq> p \<longrightarrow> fileAt s' q = fileAt s q)"
  by (auto dest!: removeFile_D)

lemma Move_trail:
  assumes "Move F sp now m StageTmp StageIncoming s = (r, s')"
    and "fault F (OpRename (stagePath sp StageTmp m) (stagePath sp StageIncoming m)) \<noteq> Some EXDEV"
  shows "trail s' = trail s \<or>
    (\<exists>n. fileAt s (stagePath sp StageTmp m) = Some n \<and>
       trail s' = trail s @ [AList.update (stagePath sp StageIncoming m) n
                               (AList.delete (stagePath sp StageTmp m) (files s))])"
  using assms
  by (auto simp: Move_def Let_def rename_def split: option.splits prod.splits if_splits)

definition tmpOnly :: "Spool \<Rightarrow> fs \<Rightarrow> string \<Rightarrow> bytes \<Rightarrow> fs \<Rightarrow> bool" where
  "tmpOnly sp s m d x \<longleftrightarrow>
     (\<forall>al \<in> set (trail x). al \<in> set (trail s) \<or> wholeView sp s m d al) \<and>
     (\<forall>q. q \<noteq> stagePath sp StageTmp m @ ''.tmp'' \<longrightarrow> fileAt x q = fileAt s q)"

lemma tmpOnly_step:
  assumes "tmpOnly sp s m d x"
    and "\<forall>al \<in> set (trail y). al \<in> set (trail x) \<or>
           (\<forall>q. q \<noteq> stagePath sp StageTmp m @ ''.tmp'' \<longrightarrow> map_of al q = fileAt x q)"
    and "\<forall>q. q \<noteq> stagePath sp StageTmp m @ ''.tmp'' \<longrightarrow> fileAt y q = fileAt x q"
  shows "tmpOnly sp s m d y"
  unfolding tmpOnly_def
proof (intro conjI ballI allI impI)
  fix q assume "q \<noteq> stagePath sp StageTmp m @ ''.tmp''"
  then show "fileAt y q = fileAt s q" using assms(1,3) by (simp add: tmpOnly_def)
next
  fix al assume "al \<in> set (trail y)"
  then consider "al \<in> set (trail x)"
    | "\<forall>q. q \<noteq> stagePath sp StageTmp m @ ''.tmp'' \<longrightarrow> map_of al q = fileAt x q"
    using assms(2) by blast
  then show "al \<in> set (trail s) \<or> wholeView sp s m d al"
  proof cases
    case 1
    then show ?thesis using assms(1) by (simp add: tmpOnly_def)
  next
    case 2
    then have "wholeView sp s m d al"
      using assms(1) by (intro wholeView_tmp) (simp add: tmpOnly_def)
    then show ?thesis ..
  qed
qed

lemma tmpOnly_refl: "tmpOnly sp s m d s"
  by (simp add: tmpOnly_def)

lemma tmpOnly_remove:
  "tmpOnly sp s m d x \<Longrightarrow>
     tmpOnly sp s m d (snd (removeFile F (stagePath sp StageTmp m @ ''.tmp'') x))"
  by (cases "removeFile F (stagePath sp StageTmp m @ ''.tmp'') x")
    (use removeFile_trail tmpOnly_step in fastforce)

lemma Write_trail:
  assumes w: "Write F sp now m d s = (r, s')" and m: "validID m"
    and xdev: "fault F (OpRename (stagePath sp StageTmp m) (stagePath sp StageIncoming m)) \<noteq> Some EXDEV"
    and al: "al \<in> set (trail s')"
  shows "al \<in> set (trail s) \<or> wholeView sp s m d al"
proof -
  let ?tp = "stagePath sp StageTmp m" and ?tf = "stagePath sp StageTmp m @ ''.tmp''"
  let ?inc = "stagePath sp StageIncoming m"
  obtain r1 s1 where o: "openExcl F ?tf now s = (r1, s1)" by fastforce
  obtain r2 s2 where wr: "writeFile F ?tf d now s1 = (r2, s2)" by fastforce
  obtain r3 s3 where rn: "rename F ?tf ?tp s2 = (r3, s3)" by fastforce
  obtain r4 s4 where mv: "Move F sp now m StageTmp StageIncoming s3 = (r4, s4)" by fastforce
  have t1: "tmpOnly sp s m d s1"
    using openExcl_trail [OF o] tmpOnly_step [OF tmpOnly_refl] by blast
  have t2: "tmpOnly sp s m d s2"
    using writeFile_trail [OF wr] tmpOnly_step [OF t1] by blast
  consider "s' = s1" | "s' = s2" | "s' = snd (removeFile F ?tf s2)"
    | "s' = snd (removeFile F ?tf s3)" "r3 \<noteq> None"
    | "s' = s4" "r2 = None" "r3 = None"
    using w o wr rn mv by (auto simp: Write_def Let_def split: option.splits prod.splits)
  then show ?thesis
  proof cases
    case 5
    have dat: "fileAt s2 ?tf = Some \<lparr>idata = d, mtime = now\<rparr>"
      using writeFile_D [OF wr] 5(2) by auto
    then have s3: "s3 = put_files (AList.update ?tp \<lparr>idata = d, mtime = now\<rparr>
        (AList.delete ?tf (files s2))) s2"
      using rename_D [OF rn] 5(3) by auto
    have in3: "wholeView sp s m d (files s3)"
      using t2 m s3 by (intro wholeView_moved) (auto simp: tmpOnly_def msgIn_def msgAt_def)
    have inc: "wholeView sp s m d (AList.update ?inc \<lparr>idata = d, mtime = now\<rparr>
        (AList.delete ?tp (files s3)))"
      using t2 m s3 by (intro wholeView_moved) (auto simp: tmpOnly_def msgIn_def)
    have "fileAt s3 ?tp = Some \<lparr>idata = d, mtime = now\<rparr>" by (simp add: s3)
    then have "trail s4 = trail s3 \<or> trail s4 = trail s3 @
        [AList.update ?inc \<lparr>idata = d, mtime = now\<rparr> (AList.delete ?tp (files s3))]"
      using Move_trail [OF mv xdev] by auto
    moreover have "trail s3 = trail s2 @ [files s3]" by (simp add: s3)
    ultimately show ?thesis
      using al 5(1) inc in3 t2 by (auto simp: tmpOnly_def)
  next
    case 4
    then have "s3 = s2" using rename_D [OF rn] by auto
    then show ?thesis using al 4(1) tmpOnly_remove [OF t2] unfolding tmpOnly_def by metis
  qed (use al t1 t2 tmpOnly_remove [OF t2] in \<open>auto simp: tmpOnly_def\<close>)
qed

end
