(* ===== verification/SpoolStore.thy ===== *)
theory SpoolStore
  imports SpoolLaws
begin

text \<open>
  The interface the SMTP session and the delivery worker use the spool through, as a locale, the
  facts its laws give, and the spool as an interpretation of it; then what holds of a message
  through any sequence of moves.
\<close>

section \<open>The interface\<close>

text \<open>A message taken through a list of stages, stopping at the first failure.\<close>

fun moveAlong ::
  "('o \<Rightarrow> 'k \<Rightarrow> 'st \<Rightarrow> 'st \<Rightarrow> 's \<Rightarrow> 'e option \<times> 's) \<Rightarrow>
   'k \<Rightarrow> 'st \<Rightarrow> ('o \<times> 'st) list \<Rightarrow> 's \<Rightarrow> 'e option \<times> 's" where
  "moveAlong mv m a [] s = (None, s)"
| "moveAlong mv m a ((x, b) # bs) s =
     (case mv x m a b s of
        (Some e, s') \<Rightarrow> (Some e, s')
      | (None, s') \<Rightarrow> moveAlong mv m b bs s')"

locale message_store =
  fixes look :: "'s \<Rightarrow> 'st \<Rightarrow> 'k \<Rightarrow> bytes option"
    and valid :: "'k \<Rightarrow> bool"
    and staging :: 'st
    and accepted :: 'st
    and wr :: "'o \<Rightarrow> 'k \<Rightarrow> bytes \<Rightarrow> 's \<Rightarrow> 'e option \<times> 's"
    and mv :: "'o \<Rightarrow> 'k \<Rightarrow> 'st \<Rightarrow> 'st \<Rightarrow> 's \<Rightarrow> 'e option \<times> 's"
    and rd :: "'o \<Rightarrow> 'st \<Rightarrow> 'k \<Rightarrow> 's \<Rightarrow> 'e + bytes"
  assumes write_accepts: "wr x m d s = (None, s') \<Longrightarrow> valid m \<Longrightarrow> look s' accepted m = Some d"
    and write_frame: "wr x m d s = (None, s') \<Longrightarrow> valid m \<Longrightarrow> valid k \<Longrightarrow>
      k \<noteq> m \<or> st \<noteq> staging \<and> st \<noteq> accepted \<Longrightarrow> look s' st k = look s st k"
    and move_moves: "mv x m a b s = (None, s') \<Longrightarrow> valid m \<Longrightarrow> a \<noteq> b \<Longrightarrow>
      look s' b m = look s a m \<and> look s' a m = None"
    and move_frame: "mv x m a b s = (r, s') \<Longrightarrow> valid m \<Longrightarrow> valid k \<Longrightarrow> a \<noteq> b \<Longrightarrow>
      k \<noteq> m \<or> st \<noteq> a \<and> st \<noteq> b \<Longrightarrow> look s' st k = look s st k"
    and move_keeps: "mv x m a b s = (Some e, s') \<Longrightarrow> valid m \<Longrightarrow> a \<noteq> b \<Longrightarrow>
      look s' a m = look s a m"
    and read_looks: "rd x st m s = Inr d \<Longrightarrow> look s st m = Some d"
begin

lemma moveAlong_Cons:
  assumes "moveAlong mv m a ((x, b) # bs) s = (None, s')"
  obtains s1 where "mv x m a b s = (None, s1)" "moveAlong mv m b bs s1 = (None, s')"
  using assms by (auto split: prod.splits option.splits)

lemma moveAlong_frame:
  assumes "moveAlong mv m a bs s = (None, s')" "valid m" "valid k" "distinct (a # map snd bs)"
    and "k \<noteq> m \<or> st \<notin> set (a # map snd bs)"
  shows "look s' st k = look s st k"
  using assms
proof (induction bs arbitrary: a s)
  case (Cons xb bs)
  obtain x b where xb: "xb = (x, b)" by fastforce
  obtain s1 where step: "mv x m a b s = (None, s1)" and rest: "moveAlong mv m b bs s1 = (None, s')"
    using Cons.prems(1) unfolding xb by (rule moveAlong_Cons)
  have "look s' st k = look s1 st k"
    by (rule Cons.IH [OF rest]) (use Cons.prems xb in auto)
  also have "\<dots> = look s st k"
    by (rule move_frame [OF step]) (use Cons.prems xb in auto)
  finally show ?case .
qed simp

lemma moveAlong_moves:
  assumes "moveAlong mv m a bs s = (None, s')" "valid m" "distinct (a # map snd bs)"
  shows "look s' (last (a # map snd bs)) m = look s a m \<and>
         (\<forall>st \<in> set (butlast (a # map snd bs)). look s' st m = None)"
  using assms
proof (induction bs arbitrary: a s)
  case (Cons xb bs)
  obtain x b where xb: "xb = (x, b)" by fastforce
  obtain s1 where step: "mv x m a b s = (None, s1)" and rest: "moveAlong mv m b bs s1 = (None, s')"
    using Cons.prems(1) unfolding xb by (rule moveAlong_Cons)
  have "look s' (last (b # map snd bs)) m = look s1 b m \<and>
      (\<forall>st \<in> set (butlast (b # map snd bs)). look s' st m = None)"
    by (rule Cons.IH [OF rest]) (use Cons.prems xb in auto)
  moreover have "look s1 b m = look s a m \<and> look s1 a m = None"
    by (rule move_moves [OF step]) (use Cons.prems xb in auto)
  moreover have "look s' a m = look s1 a m"
    by (rule moveAlong_frame [OF rest]) (use Cons.prems xb in auto)
  ultimately show ?case by (simp add: xb)
qed simp

text \<open>
  What was written is what is read, after any way through distinct stages.
\<close>

lemma write_moves_read:
  assumes "wr x m d s = (None, s1)" "valid m" "distinct (accepted # map snd bs)"
    and "moveAlong mv m accepted bs s1 = (None, s2)"
    and "rd y (last (accepted # map snd bs)) m s2 = Inr d'"
  shows "d' = d"
  using write_accepts [OF assms(1,2)] moveAlong_moves [OF assms(4,2,3)] read_looks [OF assms(5)]
  by simp

end

section \<open>The spool provides it\<close>

text \<open>An environment of a call: the faults of its system calls and the time.\<close>

type_synonym call_env = "os_faults \<times> time"

abbreviation spoolWrite :: "Spool \<Rightarrow> call_env \<Rightarrow> string \<Rightarrow> bytes \<Rightarrow> fs \<Rightarrow> spool_error option \<times> fs" where
  "spoolWrite sp x m d s \<equiv> Write (fst x) sp (snd x) m d s"

abbreviation spoolMove ::
  "Spool \<Rightarrow> call_env \<Rightarrow> string \<Rightarrow> Stage \<Rightarrow> Stage \<Rightarrow> fs \<Rightarrow> spool_error option \<times> fs" where
  "spoolMove sp x m a b s \<equiv> Move (fst x) sp (snd x) m a b s"

abbreviation spoolRead :: "Spool \<Rightarrow> call_env \<Rightarrow> Stage \<Rightarrow> string \<Rightarrow> fs \<Rightarrow> spool_error + bytes" where
  "spoolRead sp x st m s \<equiv> Read (fst x) sp st m s"

lemma Read_Inr: "Read F sp st m s = Inr d \<Longrightarrow> msgAt sp s st m = Some d"
  by (auto simp: Read_def readFile_def msgAt_def split: sum.splits option.splits)

lemma Read_no_faults: "Read no_faults sp st m s = Inr d \<longleftrightarrow> msgAt sp s st m = Some d"
  by (auto simp: Read_def readFile_def msgAt_def split: option.splits)

interpretation spool_store: message_store "msgAt sp" validID StageTmp StageIncoming
  "spoolWrite sp" "spoolMove sp" "spoolRead sp" for sp
  by unfold_locales
    ((erule Write_success Move_moves Move_frame Move_keeps Read_Inr; assumption)+)

end
