(* ===== verification/Session.thy ===== *)
theory Session
  imports Config IPAuth RedisAuth ConnectionCounter SpoolStore
begin

text \<open>
  \<open>internal/smtpserver/backend.go\<close> and \<open>session.go\<close>: what the daemon does for each SMTP command. The
  protocol itself is the library go-smtp, which calls these handlers; nothing is assumed about the
  order in which it does. A handler takes the clock readings, durations and identifiers it makes as
  arguments. Logging is left out.
\<close>

section \<open>State\<close>

record 'r sworld = "'r lworld" +
  disk :: fs

record Backend =
  be_config :: Config
  be_spool :: Spool
  be_ipAuth :: "IPAuthenticator option"

record SMTPError =
  smtpCode :: int
  smtpMessage :: string

type_synonym smtp_result = "SMTPError option"

record TLSState =
  tlsVersion :: "16 word"
  tlsCipher :: "16 word"

record Session =
  sessionID :: string
  clientIP :: string
  authUser :: string
  authenticated :: bool
  mailFrom :: string
  rcptTo :: "string list"
  tlsState :: "TLSState option"
  startTime :: time

section \<open>Backend\<close>

text \<open>The authenticator of Redis, the limiter, the metrics and the logger are shared state, not fields.\<close>

definition NewBackend :: "Config \<Rightarrow> Spool \<Rightarrow> IPAuthenticator option \<Rightarrow> Backend" where
  "NewBackend cfg sp ipAuth = \<lparr>be_config = cfg, be_spool = sp, be_ipAuth = ipAuth\<rparr>"

datatype backend_error = ErrAuthRequired

definition AnonymousLogin :: "Backend \<Rightarrow> backend_error + Session" where
  "AnonymousLogin b = Inl ErrAuthRequired"

definition Login :: "Backend \<Rightarrow> string \<Rightarrow> string \<Rightarrow> backend_error + Session" where
  "Login b username password = Inl ErrAuthRequired"

text \<open>The fields of the library's server that \<open>CreateServer\<close> sets; \<open>'t\<close> is a TLS configuration.\<close>

record 't SMTPServer =
  sv_Domain :: string
  sv_ReadTimeout :: duration
  sv_WriteTimeout :: duration
  sv_MaxMessageBytes :: int
  sv_MaxRecipients :: int
  sv_EnableSMTPUTF8 :: bool
  sv_EnableBINARYMIME :: bool
  sv_EnableREQUIRETLS :: bool
  sv_EnableAuth :: "string \<Rightarrow> bool"
  sv_TLSConfig :: "'t option"
  sv_AuthDisabled :: bool

definition CreateServer :: "Config \<Rightarrow> 't option \<Rightarrow> 't SMTPServer \<Rightarrow> 't SMTPServer" where
  "CreateServer cfg tlsConfig s =
     s\<lparr>sv_Domain := srv_Hostname (cfg_Server cfg),
       sv_ReadTimeout := smtp_ReadTimeout (cfg_SMTP cfg),
       sv_WriteTimeout := smtp_WriteTimeout (cfg_SMTP cfg),
       sv_MaxMessageBytes := smtp_MaxMessageSize (cfg_SMTP cfg),
       sv_MaxRecipients := smtp_MaxRecipients (cfg_SMTP cfg),
       sv_EnableSMTPUTF8 := False, sv_EnableBINARYMIME := False, sv_EnableREQUIRETLS := False,
       sv_EnableAuth := (\<lambda>mech. mech = ''PLAIN'' \<or> mech = ''LOGIN''),
       sv_TLSConfig := (case tlsConfig of None \<Rightarrow> sv_TLSConfig s | Some t \<Rightarrow> Some t),
       sv_AuthDisabled := False\<rparr>"

section \<open>Opening and closing a session\<close>

text \<open>The label of the first listener; indexing an empty list panics.\<close>

definition listenerLabel :: "Config \<Rightarrow> string option" where
  "listenerLabel c =
     (case smtp_Listeners (cfg_SMTP c) of [] \<Rightarrow> None | l # ls \<Rightarrow> Some (showInt (lsn_Port l)))"

text \<open>\<open>None\<close> is a panic.\<close>

definition NewSession ::
  "'r redis \<Rightarrow> Backend \<Rightarrow> time \<Rightarrow> string \<Rightarrow> TLSState option \<Rightarrow> string \<Rightarrow> time \<Rightarrow>
   ('r, 'z) lworld_scheme \<Rightarrow> (SMTPError + Session) option \<times> ('r, 'z) lworld_scheme" where
  "NewSession R b now remoteAddr tls uuid start w =
     (let ip = extractIP remoteAddr
      in case CheckIPConnection R now ip w of
           (Some e, w1) \<Rightarrow> (Some (Inl \<lparr>smtpCode = 421, smtpMessage = ''Rate limit exceeded''\<rparr>), w1)
         | (None, w1) \<Rightarrow>
             (let w2 = connCount w1; tlsMode = (if tls \<noteq> None then ''tls'' else ''plaintext'')
              in case listenerLabel (be_config b) of
                   None \<Rightarrow> (None, w2)
                 | Some port \<Rightarrow>
                     (Some (Inr \<lparr>sessionID = uuid, clientIP = ip, authUser = [],
                                 authenticated = False, mailFrom = [], rcptTo = [],
                                 tlsState = tls, startTime = start\<rparr>),
                      record_metric (RecordConnection port tlsMode) w2)))"

text \<open>\<open>False\<close> is a panic.\<close>

definition Logout ::
  "Backend \<Rightarrow> time \<Rightarrow> Session \<Rightarrow> ('r, 'z) lworld_scheme \<Rightarrow> bool \<times> ('r, 'z) lworld_scheme" where
  "Logout b now s w =
     (let d = timeSub now (startTime s); w1 = connUncount w
      in case listenerLabel (be_config b) of
           None \<Rightarrow> (False, w1)
         | Some port \<Rightarrow> (True, record_metric (RecordConnectionClose port d) w1))"

section \<open>Mail, Rcpt, Data, Reset\<close>

definition Mail ::
  "'r redis \<Rightarrow> time \<Rightarrow> time \<Rightarrow> string \<Rightarrow> Session \<Rightarrow> ('r, 'z) lworld_scheme \<Rightarrow>
   smtp_result \<times> Session \<times> ('r, 'z) lworld_scheme" where
  "Mail R now1 now2 sender s w =
     (if \<not> authenticated s then
        (Some \<lparr>smtpCode = 530, smtpMessage = ''Authentication required''\<rparr>, s, w)
      else
        (case CheckUserMessages R now1 (authUser s) w of
           (Some e, w1) \<Rightarrow>
             (Some \<lparr>smtpCode = 450, smtpMessage = ''Rate limit exceeded''\<rparr>, s,
              record_metric (RecordMessageRejected ''rate_limited'') w1)
         | (None, w1) \<Rightarrow>
             (case CheckGlobalMessages R now2 w1 of
                (Some e, w2) \<Rightarrow>
                  (Some \<lparr>smtpCode = 450, smtpMessage = ''Rate limit exceeded''\<rparr>, s,
                   record_metric (RecordMessageRejected ''rate_limited'') w2)
              | (None, w2) \<Rightarrow> (None, s\<lparr>mailFrom := sender\<rparr>, w2))))"

definition Rcpt :: "Backend \<Rightarrow> string \<Rightarrow> Session \<Rightarrow> smtp_result \<times> Session" where
  "Rcpt b to s =
     (if mailFrom s = [] then
        (Some \<lparr>smtpCode = 503, smtpMessage = ''MAIL command required first''\<rparr>, s)
      else if smtp_MaxRecipients (cfg_SMTP (be_config b)) \<le> int (length (rcptTo s)) then
        (Some \<lparr>smtpCode = 452, smtpMessage = ''Too many recipients''\<rparr>, s)
      else (None, s\<lparr>rcptTo := rcptTo s @ [to]\<rparr>))"

text \<open>
  The body of a message, as the reader delivers it: some bytes, then its end or (\<open>True\<close>) an error.
  \<open>readLimited\<close> is \<open>io.Copy\<close> from an \<open>io.LimitReader\<close> of \<open>n\<close> bytes, which ends without a further
  read once it has delivered them, and at once when \<open>n\<close> is not positive.
\<close>

type_synonym reader = "bytes \<times> bool"

definition readLimited :: "int \<Rightarrow> reader \<Rightarrow> bytes \<times> bool" where
  "readLimited n r = (take (nat n) (fst r), snd r \<and> int (length (fst r)) < n)"

definition Data ::
  "'r redis \<Rightarrow> Backend \<Rightarrow> call_env \<Rightarrow> string \<Rightarrow> reader \<Rightarrow> Session \<Rightarrow> ('r, 'z) sworld_scheme \<Rightarrow>
   smtp_result \<times> Session \<times> ('r, 'z) sworld_scheme" where
  "Data R b x msgID r s w =
     (if rcptTo s = [] then
        (Some \<lparr>smtpCode = 503, smtpMessage = ''RCPT command required first''\<rparr>, s, w)
      else
        (case CheckUserRecipients R (authUser s) (int (length (rcptTo s))) w of
           (Some e, w1) \<Rightarrow>
             (Some \<lparr>smtpCode = 450, smtpMessage = ''Recipient rate limit exceeded''\<rparr>, s,
              record_metric (RecordMessageRejected ''rate_limited'') w1)
         | (None, w1) \<Rightarrow>
             (let maxSize = smtp_MaxMessageSize (cfg_SMTP (be_config b));
                  (buf, failed) = readLimited (wrap64 (maxSize + 1)) r;
                  n = int (length buf)
              in if failed then
                   (Some \<lparr>smtpCode = 451, smtpMessage = ''Failed to read message''\<rparr>, s,
                    record_metric (RecordMessageRejected ''read_error'') w1)
                 else if maxSize < n then
                   (Some \<lparr>smtpCode = 552, smtpMessage = ''Message too large''\<rparr>, s,
                    record_metric (RecordMessageRejected ''too_large'') w1)
                 else
                   (case spoolWrite (be_spool b) x msgID buf (disk w1) of
                      (Some e, k) \<Rightarrow>
                        (Some \<lparr>smtpCode = 451, smtpMessage = ''Failed to accept message''\<rparr>, s,
                         record_metric (RecordMessageRejected ''spool_error'') (w1\<lparr>disk := k\<rparr>))
                    | (None, k) \<Rightarrow>
                        (None, s,
                         record_metric (RecordStage ''incoming'' 0)
                           (record_metric (RecordMessageAccepted (authUser s) n) (w1\<lparr>disk := k\<rparr>)))))))"

definition Reset :: "Session \<Rightarrow> Session" where
  "Reset s = s\<lparr>mailFrom := [], rcptTo := []\<rparr>"

section \<open>Authentication\<close>

record saslServer =
  mech :: string
  sasl_username :: string
  sasl_password :: string
  sasl_step :: int

definition NewSasl :: "string \<Rightarrow> saslServer" where
  "NewSasl m = \<lparr>mech = m, sasl_username = [], sasl_password = [], sasl_step = 0\<rparr>"

text \<open>
  The three results of a step: a challenge and not done, done, and an error.
\<close>

datatype sasl_error =
    UnsupportedMechanism string | InvalidPlain | InvalidLoginStep | SaslSMTP SMTPError
datatype sasl_result = SaslChallenge string | SaslDone | SaslError sasl_error

text \<open>What a step measures: the time of the rate limiter and two durations.\<close>

record auth_env =
  ae_now :: time
  ae_elapsed :: duration
  ae_redis :: duration

definition authenticate ::
  "'r redis \<Rightarrow> Backend \<Rightarrow> auth_env \<Rightarrow> string \<Rightarrow> string \<Rightarrow> Session \<Rightarrow> ('r, 'z) lworld_scheme \<Rightarrow>
   sasl_result \<times> Session \<times> ('r, 'z) lworld_scheme" where
  "authenticate R b x username password s w =
     (if (case be_ipAuth b of None \<Rightarrow> False | Some a \<Rightarrow> IsAllowed a (clientIP s)) then
        (SaslDone, s\<lparr>authUser := username, authenticated := True\<rparr>,
         record_metric (RecordAuthAttempt ''ip'' ''success'' (ae_elapsed x)) w)
      else
        (case CheckIPFailedAuth R (ae_now x) (clientIP s) w of
           (Some e, w1) \<Rightarrow>
             (SaslError (SaslSMTP
                \<lparr>smtpCode = 421, smtpMessage = ''Too many failed authentication attempts''\<rparr>), s,
              record_metric (RecordAuthAttempt ''redis'' ''rate_limited'' (ae_elapsed x)) w1)
         | (None, w1) \<Rightarrow>
             (case Authenticate R (ae_redis x) username password w1 of
                (Some e, w2) \<Rightarrow>
                  (SaslError (SaslSMTP \<lparr>smtpCode = 535, smtpMessage = ''Authentication failed''\<rparr>), s, w2)
              | (None, w2) \<Rightarrow>
                  (SaslDone, s\<lparr>authUser := username, authenticated := True\<rparr>, w2))))"

definition nextPlain ::
  "'r redis \<Rightarrow> Backend \<Rightarrow> auth_env \<Rightarrow> bytes \<Rightarrow> Session \<Rightarrow> ('r, 'z) lworld_scheme \<Rightarrow>
   sasl_result \<times> Session \<times> ('r, 'z) lworld_scheme" where
  "nextPlain R b x response s w =
     (case splitOn CHR 0x00 response of
        [a, username, password] \<Rightarrow> authenticate R b x username password s w
      | _ \<Rightarrow> (SaslError InvalidPlain, s, w))"

definition nextLogin ::
  "'r redis \<Rightarrow> Backend \<Rightarrow> auth_env \<Rightarrow> bytes \<Rightarrow> saslServer \<Rightarrow> Session \<Rightarrow> ('r, 'z) lworld_scheme \<Rightarrow>
   sasl_result \<times> saslServer \<times> Session \<times> ('r, 'z) lworld_scheme" where
  "nextLogin R b x response q0 s w =
     (let q = q0\<lparr>sasl_step := wrap64 (sasl_step q0 + 1)\<rparr>
      in if sasl_step q = 1 then (SaslChallenge ''Username:'', q, s, w)
         else if sasl_step q = 2 then
           (SaslChallenge ''Password:'', q\<lparr>sasl_username := response\<rparr>, s, w)
         else if sasl_step q = 3 then
           (let q = q\<lparr>sasl_password := response\<rparr>;
                (r, s', w') = authenticate R b x (sasl_username q) (sasl_password q) s w
            in (r, q, s', w'))
         else (SaslError InvalidLoginStep, q, s, w))"

definition Next ::
  "'r redis \<Rightarrow> Backend \<Rightarrow> auth_env \<Rightarrow> bytes \<Rightarrow> saslServer \<Rightarrow> Session \<Rightarrow> ('r, 'z) lworld_scheme \<Rightarrow>
   sasl_result \<times> saslServer \<times> Session \<times> ('r, 'z) lworld_scheme" where
  "Next R b x response q s w =
     (if mech q = ''PLAIN'' then
        (case nextPlain R b x response s w of (r, s', w') \<Rightarrow> (r, q, s', w'))
      else if mech q = ''LOGIN'' then nextLogin R b x response q s w
      else (SaslError (UnsupportedMechanism (mech q)), q, s, w))"

section \<open>Names of TLS versions\<close>

definition tlsVersionName :: "16 word \<Rightarrow> string" where
  "tlsVersionName v =
     (if v = 0x0301 then ''TLS1.0''
      else if v = 0x0302 then ''TLS1.1''
      else if v = 0x0303 then ''TLS1.2''
      else if v = 0x0304 then ''TLS1.3''
      else ''Unknown(0x'' @ showHex (unat v) @ '')'')"

end
