(* ===== verification/SessionLaws.thy ===== *)
theory SessionLaws
  imports Session
begin

text \<open>
  What holds of a session whatever calls the library makes: who can send, what is spooled, what is
  counted. The calls of one session are the events of a machine, an instance of \<open>event_system\<close>.
\<close>

section \<open>Frames\<close>

lemma disk_more:
  fixes w w' :: "('r, 'z) sworld_scheme"
  shows "lworld.more w' = lworld.more w \<Longrightarrow> disk w' = disk w"
  by (cases w; cases w') simp

lemma disk_record_metric [simp]:
  fixes w :: "('r, 'z) sworld_scheme"
  shows "disk (record_metric f w) = disk w"
  unfolding record_metric_def by (cases w) simp

lemma disk_set_rds [simp]:
  fixes w :: "('r, 'z) sworld_scheme"
  shows "disk (set_rds r w) = disk w"
  unfolding set_rds_def by (cases w) simp

lemma more_connCount: "lworld.more (connCount w) = lworld.more w"
  unfolding connCount_def by simp

lemma more_connUncount: "lworld.more (connUncount w) = lworld.more w"
  unfolding connUncount_def by simp

lemma disk_connCount [simp]:
  fixes w :: "('r, 'z) sworld_scheme"
  shows "disk (connCount w) = disk w"
  using disk_more [OF more_connCount [of w]] .

lemma disk_connUncount [simp]:
  fixes w :: "('r, 'z) sworld_scheme"
  shows "disk (connUncount w) = disk w"
  using disk_more [OF more_connUncount [of w]] .

lemma check_frame_disk: "check_frame w w' \<Longrightarrow> disk w' = disk w"
  by (rule disk_more) (simp add: check_frame_def)

lemmas limit_frames =
  CheckIPConnection_frame CheckIPFailedAuth_frame CheckUserMessages_frame CheckGlobalMessages_frame
  CheckUserRecipients_frame

lemma limit_mets:
  "checkLimit R now k n d w = (a, w') \<Longrightarrow> mets w' = mets w"
  by (simp add: checkLimit_frame)

lemma Authenticate_disk: "Authenticate R d u p w = (e, w') \<Longrightarrow> disk w' = disk w"
  by (auto simp: Authenticate_def Let_def split: prod.splits reply.splits if_splits)

section \<open>Each handler\<close>

lemma Mail_D:
  "Mail R t1 t2 f s w = (e, s', w') \<Longrightarrow>
     (e = None \<longrightarrow> authenticated s \<and> s' = s\<lparr>mailFrom := f\<rparr>) \<and> (e \<noteq> None \<longrightarrow> s' = s) \<and> disk w' = disk w"
  by (auto simp: Mail_def split: if_splits prod.splits option.splits
      dest!: CheckUserMessages_frame [THEN check_frame_disk] CheckGlobalMessages_frame [THEN check_frame_disk])

lemma Rcpt_D:
  "Rcpt b to s = (e, s') \<Longrightarrow>
     (e = None \<longrightarrow> mailFrom s \<noteq> [] \<and> s' = s\<lparr>rcptTo := rcptTo s @ [to]\<rparr> \<and>
        int (length (rcptTo s)) < smtp_MaxRecipients (cfg_SMTP (be_config b))) \<and>
     (e \<noteq> None \<longrightarrow> s' = s)"
  by (auto simp: Rcpt_def split: if_splits)

lemma Data_D:
  assumes "Data R b x m r s w = (e, s', w')"
  shows "s' = s \<and> (e = None \<longrightarrow> rcptTo s \<noteq> []) \<and>
    (disk w' = disk w \<or> (\<exists>buf e'. spoolWrite (be_spool b) x m buf (disk w) = (e', disk w') \<and> (e = None \<longleftrightarrow> e' = None)))"
proof (cases "CheckUserRecipients R (authUser s) (int (length (rcptTo s))) w")
  case (Pair c w1)
  have "disk w1 = disk w" by (rule check_frame_disk [OF CheckUserRecipients_frame [OF Pair]])
  with Pair assms show ?thesis
    by (auto simp: Data_def Let_def split: if_splits option.splits prod.splits; blast)
qed

lemma Data_success:
  assumes "Data R b x m r s w = (None, s', w')"
  shows "\<exists>buf. readLimited (wrap64 (smtp_MaxMessageSize (cfg_SMTP (be_config b)) + 1)) r = (buf, False) \<and>
    int (length buf) \<le> smtp_MaxMessageSize (cfg_SMTP (be_config b)) \<and>
    spoolWrite (be_spool b) x m buf (disk w) = (None, disk w')"
proof (cases "CheckUserRecipients R (authUser s) (int (length (rcptTo s))) w")
  case (Pair c w1)
  have "disk w1 = disk w" by (rule check_frame_disk [OF CheckUserRecipients_frame [OF Pair]])
  with Pair assms show ?thesis
    by (auto simp: Data_def Let_def split: if_splits option.splits prod.splits)
qed

text \<open>A body of at most the maximal size is read whole; a longer one is cut one byte too late.\<close>

lemma readLimited_whole:
  assumes "0 \<le> k" "k < MaxInt64" "readLimited (wrap64 (k + 1)) r = (buf, False)" "int (length buf) \<le> k"
  shows "r = (buf, False)"
proof -
  obtain d e where r: "r = (d, e)" by fastforce
  have w: "wrap64 (k + 1) = k + 1" using assms(1,2) by (intro wrap64_id) auto
  have "buf = take (nat (k + 1)) d" "\<not> (e \<and> int (length d) < k + 1)"
    using assms(3) unfolding w by (auto simp: readLimited_def r)
  moreover from this have "int (length d) \<le> k" using assms(1,4) by (auto simp: min_def split: if_splits)
  ultimately show ?thesis using assms(1) by (simp add: r)
qed

lemma authenticate_D:
  "authenticate R b x u p s w = (r, s', w') \<Longrightarrow>
     disk w' = disk w \<and>
     (r = SaslDone \<longrightarrow> s' = s\<lparr>authUser := u, authenticated := True\<rparr>) \<and> (r \<noteq> SaslDone \<longrightarrow> s' = s)"
  by (auto simp: authenticate_def split: if_splits prod.splits option.splits
      dest!: CheckIPFailedAuth_frame [THEN check_frame_disk] Authenticate_disk)

lemma Next_D:
  "Next R b x rs q s w = (r, q', s', w') \<Longrightarrow>
     disk w' = disk w \<and> (s' = s \<or> (\<exists>u. s' = s\<lparr>authUser := u, authenticated := True\<rparr> \<and> r = SaslDone))"
  by (auto simp: Next_def nextPlain_def nextLogin_def Let_def split: if_splits prod.splits list.splits
      dest!: authenticate_D)

section \<open>The machine of a session\<close>

datatype session_call =
    CallMail time time string | CallRcpt string | CallData call_env string reader | CallReset
  | CallAuth string | CallNext auth_env bytes

type_synonym 'r session_state = "Session \<times> saslServer option \<times> 'r sworld"

fun sessionCall :: "'r redis \<Rightarrow> Backend \<Rightarrow> 'r session_state \<Rightarrow> session_call \<Rightarrow> 'r session_state" where
  "sessionCall R b (s, q, w) (CallMail t1 t2 f) = (case Mail R t1 t2 f s w of (e, s', w') \<Rightarrow> (s', q, w'))"
| "sessionCall R b (s, q, w) (CallRcpt to) = (case Rcpt b to s of (e, s') \<Rightarrow> (s', q, w))"
| "sessionCall R b (s, q, w) (CallData x m r) = (case Data R b x m r s w of (e, s', w') \<Rightarrow> (s', q, w'))"
| "sessionCall R b (s, q, w) CallReset = (Reset s, q, w)"
| "sessionCall R b (s, q, w) (CallAuth m) = (s, Some (NewSasl m), w)"
| "sessionCall R b (s, None, w) (CallNext x rs) = (s, None, w)"
| "sessionCall R b (s, Some q, w) (CallNext x rs) =
     (case Next R b x rs q s w of (r, q', s', w') \<Rightarrow> (s', Some q', w'))"

definition freshSession :: "'r session_state \<Rightarrow> bool" where
  "freshSession st \<longleftrightarrow>
     \<not> authenticated (fst st) \<and> mailFrom (fst st) = [] \<and> rcptTo (fst st) = []"

definition sessionInv :: "Backend \<Rightarrow> 'r session_state \<Rightarrow> bool" where
  "sessionInv b st \<longleftrightarrow>
     (mailFrom (fst st) \<noteq> [] \<or> rcptTo (fst st) \<noteq> [] \<longrightarrow> authenticated (fst st)) \<and>
     int (length (rcptTo (fst st))) \<le> max 0 (smtp_MaxRecipients (cfg_SMTP (be_config b)))"

lemma sessionInv_step: "sessionInv b st \<Longrightarrow> sessionInv b (sessionCall R b st c)"
  by (cases "(R, b, st, c)" rule: sessionCall.cases)
    (auto simp: sessionInv_def Reset_def split: prod.splits
      dest!: Mail_D Rcpt_D Data_D Next_D split: option.splits)

interpretation session_machine: event_system freshSession "sessionCall R b" "sessionInv b" for R b
proof unfold_locales
  show "sessionInv b st" if "freshSession st" for st
    using that by (simp add: freshSession_def sessionInv_def)
  show "sessionInv b (sessionCall R b st c)" if "sessionInv b st" for st c
    using that by (rule sessionInv_step)
qed

text \<open>A message is spooled only for a client that has authenticated.\<close>

lemma Data_authenticated:
  assumes "freshSession st0" "run (sessionCall R b) st0 cs = (s, q, w)"
    and "Data R b x m r s w = (None, s', w')"
  shows "authenticated s \<and> int (length (rcptTo s)) \<le> smtp_MaxRecipients (cfg_SMTP (be_config b)) \<and> rcptTo s \<noteq> []"
proof -
  have "sessionInv b (s, q, w)"
    using session_machine.run_start_inv [OF assms(1), of b R cs] assms(2) by simp
  moreover have "rcptTo s \<noteq> []" using Data_D [OF assms(3)] by simp
  ultimately show ?thesis by (cases "rcptTo s") (auto simp: sessionInv_def)
qed

text \<open>The disk changes only with a call of \<open>Data\<close> for a session that has recipients.\<close>

lemma sessionCall_disk:
  "sessionCall R b (s, q, w) c = (s', q', w') \<Longrightarrow> disk w' \<noteq> disk w \<Longrightarrow>
     \<exists>x m r. c = CallData x m r \<and> rcptTo s \<noteq> []"
  by (cases "(R, b, (s, q, w), c)" rule: sessionCall.cases)
    (auto split: prod.splits dest!: Mail_D Next_D simp: Data_def)

section \<open>Authentication\<close>

definition ipAllows :: "Backend \<Rightarrow> string \<Rightarrow> bool" where
  "ipAllows b ip \<longleftrightarrow> (case be_ipAuth b of None \<Rightarrow> False | Some a \<Rightarrow> IsAllowed a ip)"

lemma authenticate_ip:
  "ipAllows b (clientIP s) \<Longrightarrow> fst (authenticate R b x u p s w) = SaslDone"
  by (simp add: authenticate_def ipAllows_def)

text \<open>Whoever gets through is on the allowlist or was accepted by Redis.\<close>

lemma authenticate_done:
  assumes "authenticate R b x u p s w = (SaslDone, s', w')" "\<not> ipAllows b (clientIP s)"
  shows "\<exists>w1. CheckIPFailedAuth R (ae_now x) (clientIP s) w = (None, w1) \<and>
    Authenticate R (ae_redis x) u p w1 = (None, w')"
  using assms by (auto simp: authenticate_def ipAllows_def split: if_splits prod.splits option.splits)

lemma authenticate_session:
  "authenticate R b x u p s w = (SaslDone, s', w') \<Longrightarrow> s' = s\<lparr>authUser := u, authenticated := True\<rparr>"
  by (auto simp: authenticate_def split: if_splits prod.splits option.splits)

lemma nextPlain_response:
  "CHR 0x00 \<notin> set u \<Longrightarrow> CHR 0x00 \<notin> set p \<Longrightarrow>
     nextPlain R b x (CHR 0x00 # u @ CHR 0x00 # p) s w = authenticate R b x u p s w"
  by (simp add: nextPlain_def splitOn_append splitOn_free)

text \<open>The dialogue of the mechanism LOGIN: two questions, then the attempt.\<close>

lemma login_dialogue:
  assumes "Next R b x1 r1 (NewSasl ''LOGIN'') s w = (a1, q1, s1, w1)"
    and "Next R b x2 u q1 s1 w1 = (a2, q2, s2, w2)"
    and "Next R b x3 p q2 s2 w2 = (a3, q3, s3, w3)"
  shows "a1 = SaslChallenge ''Username:'' \<and> a2 = SaslChallenge ''Password:'' \<and>
    (a3, s3, w3) = authenticate R b x3 u p s w"
  using assms by (auto simp: Next_def NewSasl_def nextLogin_def wrap64_id split: prod.splits)

lemma login_after:
  assumes "mech q = ''LOGIN''" "3 \<le> sasl_step q" "sasl_step q < MaxInt64"
  shows "\<exists>q'. Next R b x rs q s w = (SaslError InvalidLoginStep, q', s, w)"
  using assms by (auto simp: Next_def nextLogin_def wrap64_id)

section \<open>Counting\<close>

text \<open>The messages accepted and rejected so far.\<close>

definition acceptedTotal :: "metrics \<Rightarrow> nat" where
  "acceptedTotal ms = length (filter (\<lambda>c. case c of Inc m ls \<Rightarrow> m = MessagesAccepted | _ \<Rightarrow> False) ms)"

definition rejectedTotal :: "metrics \<Rightarrow> nat" where
  "rejectedTotal ms = length (filter (\<lambda>c. case c of Inc m ls \<Rightarrow> m = MessagesRejected | _ \<Rightarrow> False) ms)"

lemma totals_append [simp]:
  "acceptedTotal (xs @ ys) = acceptedTotal xs + acceptedTotal ys"
  "rejectedTotal (xs @ ys) = rejectedTotal xs + rejectedTotal ys"
  by (simp_all add: acceptedTotal_def rejectedTotal_def)

lemma totals_Cons [simp]:
  "acceptedTotal [] = 0" "rejectedTotal [] = 0"
  "acceptedTotal (Inc m ls # xs) = (if m = MessagesAccepted then 1 else 0) + acceptedTotal xs"
  "acceptedTotal (Observe m ls v # xs) = acceptedTotal xs"
  "acceptedTotal (Add m v # xs) = acceptedTotal xs"
  "rejectedTotal (Inc m ls # xs) = (if m = MessagesRejected then 1 else 0) + rejectedTotal xs"
  "rejectedTotal (Observe m ls v # xs) = rejectedTotal xs"
  "rejectedTotal (Add m v # xs) = rejectedTotal xs"
  by (simp_all add: acceptedTotal_def rejectedTotal_def)

lemma CheckUserRecipients_totals:
  "CheckUserRecipients R u n w = (e, w') \<Longrightarrow>
     acceptedTotal (mets w') = acceptedTotal (mets w) \<and> rejectedTotal (mets w') = rejectedTotal (mets w)"
  by (auto simp: recipient_defs RecordRateLimitHit_def split: prod.splits if_splits)

text \<open>Each call of \<open>Data\<close> that had recipients is counted once, as what it was.\<close>

lemma Data_totals:
  assumes "Data R b x m r s w = (e, s', w')"
  shows "acceptedTotal (mets w') = acceptedTotal (mets w) + (if e = None then 1 else 0) \<and>
    rejectedTotal (mets w') = rejectedTotal (mets w) + (if e \<noteq> None \<and> rcptTo s \<noteq> [] then 1 else 0)"
proof (cases "CheckUserRecipients R (authUser s) (int (length (rcptTo s))) w")
  case (Pair c w1)
  then show ?thesis
    using assms CheckUserRecipients_totals [OF Pair]
    by (auto simp: Data_def Let_def RecordMessageRejected_def RecordMessageAccepted_def RecordStage_def
        split: if_splits option.splits prod.splits)
qed

section \<open>Connections\<close>

lemma connCount_simps [simp]:
  "mets (connCount w) = mets w" "mets (connUncount w) = mets w"
  "rds (connCount w) = rds w" "rds (connUncount w) = rds w"
  "limiter (connCount w) = IncrementConnection (limiter w)"
  "limiter (connUncount w) = DecrementConnection (limiter w)"
  by (simp_all add: connCount_def connUncount_def)

lemma CheckIPConnection_gauge:
  "CheckIPConnection R now ip w = (e, w') \<Longrightarrow>
     gaugeVal (mets w') ConnectionsCurrent = gaugeVal (mets w) ConnectionsCurrent"
  by (auto simp: CheckIPConnection_def RecordRateLimitHit_def split: if_splits prod.splits bool.splits
      dest!: checkLimit_frame)

text \<open>The gauge of current connections and the limiter's counter move together.\<close>

definition gaugeGap :: "('r, 'z) lworld_scheme \<Rightarrow> int" where
  "gaugeGap w = gaugeVal (mets w) ConnectionsCurrent - connections w"

lemma NewSession_gauge:
  assumes "NewSession R b now addr tls uuid t w = (Some r, w')" "in_int64 (connections w + 1)"
  shows "gaugeGap w' = gaugeGap w"
proof (cases "CheckIPConnection R now (extractIP addr) w")
  case (Pair e w1)
  have "connections w1 = connections w"
    using check_frame_conns [OF CheckIPConnection_frame [OF Pair]] by simp
  then show ?thesis
    using assms CheckIPConnection_gauge [OF Pair] Pair
    by (auto simp: NewSession_def Let_def gaugeGap_def RecordConnection_def connections_def
        GetCurrentConnections_def IncrementConnection_def wrap64_id split: option.splits)
qed

lemma Logout_gauge:
  assumes "Logout b now s w = (True, w')" "in_int64 (connections w - 1)"
  shows "gaugeGap w' = gaugeGap w"
  using assms
  by (auto simp: Logout_def Let_def gaugeGap_def RecordConnectionClose_def connections_def
      GetCurrentConnections_def DecrementConnection_def wrap64_id split: option.splits)

lemma listenerLabel_OK: "configOK c \<Longrightarrow> listenerLabel c \<noteq> None"
  by (auto simp: listenerLabel_def configOK_def split: list.splits)

lemma Logout_closes:
  assumes "configOK (be_config b)" "in_int64 (connections w - 1)"
  shows "case Logout b now s w of
    (ok, w') \<Rightarrow> ok \<and> connections w' = connections w - 1 \<and> gaugeGap w' = gaugeGap w"
proof -
  obtain ok w' where l: "Logout b now s w = (ok, w')" by fastforce
  have ok: ok using l listenerLabel_OK [OF assms(1)] by (auto simp: Logout_def Let_def split: option.splits)
  then show ?thesis
    using l Logout_gauge [of b now s w w'] assms(2)
    by (auto simp: Logout_def Let_def connections_def GetCurrentConnections_def DecrementConnection_def wrap64_id
        split: option.splits)
qed

lemma NewSession_admits:
  assumes "NewSession R b now addr tls uuid t w = (Some (Inr s), w')"
  shows "connections w < connectionCap w \<and> freshSession (s, q, w'')"
  using assms conn_limits.check_passes [of R "(now, extractIP addr)" w]
  by (auto simp: NewSession_def Let_def connCheck_def freshSession_def split: prod.splits option.splits)

lemma NewSession_no_panic:
  "configOK (be_config b) \<Longrightarrow> fst (NewSession R b now addr tls uuid t w) \<noteq> None"
  using listenerLabel_OK [of "be_config b"]
  by (auto simp: NewSession_def Let_def split: prod.splits option.splits)

end
