(* ===== verification/SpoolHousekeeping.thy ===== *)
theory SpoolHousekeeping
  imports SpoolStore
begin

text \<open>
  Listing a stage, the retention clean-up, the creation of the spool, and the calls that cannot
  fail when no system call does.
\<close>

section \<open>Listing\<close>

lemma emlName_iff: "emlName name = Some m \<longleftrightarrow> name = m @ ''.eml'' \<and> m \<noteq> []"
proof
  assume "emlName name = Some m"
  then have l: "4 < length name" "drop (length name - 4) name = ''.eml''"
    and m: "m = take (length name - 4) name"
    by (auto simp: emlName_def split: if_splits)
  from l m have "name = m @ ''.eml''" by (metis append_take_drop_id)
  moreover have "length m > 0" using l(1) m by simp
  ultimately show "name = m @ ''.eml'' \<and> m \<noteq> []" by blast
qed (auto simp: emlName_def)

lemma set_map_filter: "y \<in> set (List.map_filter f xs) \<longleftrightarrow> (\<exists>x \<in> set xs. f x = Some y)"
  by (induction xs) (auto simp: List.map_filter_def)

lemma mem_files_iff: "p \<in> fst ` set (files s) \<longleftrightarrow> fileAt s p \<noteq> None"
  by (simp add: fileAt_def mem_keys_iff del: map_of_files)

lemma dirEntries_file:
  "(n, False) \<in> set (dirEntries s d) \<longleftrightarrow>
     (\<exists>p. fileAt s p \<noteq> None \<and> dirOf p = d \<and> baseOf p = n)"
proof -
  have "(n, False) \<in> set (dirEntries s d) \<longleftrightarrow>
      (\<exists>p \<in> fst ` set (files s). dirOf p = d \<and> baseOf p = n)"
    by (auto simp: dirEntries_def)
  then show ?thesis by (simp only: mem_files_iff Bex_def)
qed

lemma stageDir_not_special: "stageDir sp st \<noteq> ''.''" "stageDir sp st \<noteq> ''/''"
proof -
  have "last (splitOn slash (stageDir sp st)) = stageName st"
    using splitOn_render [OF joinedDir_good joinedDir_not_Nil, OF properName_stage]
      last_joinedDir joinedDir_not_Nil
    by (metis joinPath_dir last_ConsR properName_stage stageDir_def)
  moreover have "last (splitOn slash ''.'') = ''.''" "last (splitOn slash ''/'') = []" by simp_all
  ultimately show "stageDir sp st \<noteq> ''.''" "stageDir sp st \<noteq> ''/''"
    using properName_stage by metis+
qed

text \<open>A file in the directory of a stage is that directory, a slash and its name.\<close>

lemma file_in_stage:
  assumes "dirOf p = stageDir sp st"
  shows "p = stageDir sp st @ slash # baseOf p"
proof -
  have "butlast (splitOn slash p) \<noteq> []" "dirOf p = joinWith slash (butlast (splitOn slash p))"
    using assms stageDir_not_special [of sp st] by (auto simp: dirOf_def Let_def split: if_splits)
  then have "joinWith slash (butlast (splitOn slash p) @ [baseOf p]) = dirOf p @ slash # baseOf p"
    by (simp add: joinWith_snoc)
  then show ?thesis
    using assms by (simp add: baseOf_def join_split)
qed

lemma baseOf_free: "slash \<notin> set (baseOf p)"
  by (simp add: baseOf_def) (meson last_in_set splitOn_not_Nil splitOn_parts_free)

lemma file_entry_iff:
  assumes "validID m"
  shows "(m @ ''.eml'', False) \<in> set (dirEntries s (stageDir sp st)) \<longleftrightarrow> msgAt sp s st m \<noteq> None"
proof
  assume "(m @ ''.eml'', False) \<in> set (dirEntries s (stageDir sp st))"
  then obtain p where p: "fileAt s p \<noteq> None" "dirOf p = stageDir sp st" "baseOf p = m @ ''.eml''"
    by (auto simp: dirEntries_file)
  then have "p = stagePath sp st m"
    using file_in_stage [OF p(2)] assms by (simp add: stagePath_eq)
  with p(1) show "msgAt sp s st m \<noteq> None" by (simp add: msgAt_def)
next
  assume "msgAt sp s st m \<noteq> None"
  moreover have "baseOf (stagePath sp st m) = m @ ''.eml''"
    using assms baseOf_file [of "m @ ''.eml''" "stageDir sp st"] by (simp add: stagePath_eq)
  ultimately show "(m @ ''.eml'', False) \<in> set (dirEntries s (stageDir sp st))"
    unfolding dirEntries_file msgAt_def
    using dirOf_stagePath [OF assms] by (intro exI [of _ "stagePath sp st m"]) simp
qed

lemma set_eml_names:
  "m \<in> set (List.map_filter (\<lambda>(name, isDir). if isDir then None else emlName name) es) \<longleftrightarrow>
     m \<noteq> [] \<and> (m @ ''.eml'', False) \<in> set es"
proof
  assume "m \<noteq> [] \<and> (m @ ''.eml'', False) \<in> set es"
  moreover have "emlName (m @ ''.eml'') = Some m" if "m \<noteq> []" using that by (simp add: emlName_iff)
  ultimately show "m \<in> set (List.map_filter (\<lambda>(name, isDir). if isDir then None else emlName name) es)"
    unfolding set_map_filter by (intro bexI [of _ "(m @ ''.eml'', False)"]) auto
qed (auto simp: set_map_filter emlName_iff split: if_splits)

lemma ListMessages_set:
  assumes "ListMessages F sp st s = Inr ms"
  shows "m \<in> set ms \<longleftrightarrow> validID m \<and> m \<noteq> [] \<and> msgAt sp s st m \<noteq> None"
proof -
  have ms: "ms = List.map_filter (\<lambda>(name, isDir). if isDir then None else emlName name)
      (dirEntries s (stageDir sp st))"
    using assms by (auto simp: ListMessages_def readDir_def split: option.splits sum.splits if_splits)
  have "m \<in> set ms \<longleftrightarrow> m \<noteq> [] \<and> (m @ ''.eml'', False) \<in> set (dirEntries s (stageDir sp st))"
    unfolding ms by (rule set_eml_names)
  moreover have "validID m" if e: "(m @ ''.eml'', False) \<in> set (dirEntries s (stageDir sp st))"
  proof -
    obtain p where "baseOf p = m @ ''.eml''" using e by (auto simp: dirEntries_file)
    then show ?thesis using baseOf_free [of p] by simp
  qed
  ultimately show ?thesis using file_entry_iff by blast
qed

text \<open>The files of a directory have different names, so nothing is listed twice.\<close>

lemma distinct_filtered_names:
  assumes "keys_distinct (files s)"
  shows "distinct (map baseOf (filter (\<lambda>p. dirOf p = stageDir sp st) (map fst (files s))))"
proof -
  have "inj_on baseOf {p. dirOf p = stageDir sp st}"
  proof (rule inj_onI)
    fix p q
    assume "p \<in> {p. dirOf p = stageDir sp st}" "q \<in> {p. dirOf p = stageDir sp st}" "baseOf p = baseOf q"
    then have "p = stageDir sp st @ slash # baseOf q" "q = stageDir sp st @ slash # baseOf q"
      using file_in_stage [of p sp st] file_in_stage [of q sp st] by simp_all
    then show "p = q" by simp
  qed
  then have "inj_on baseOf (set (filter (\<lambda>p. dirOf p = stageDir sp st) (map fst (files s))))"
    by (rule inj_on_subset) auto
  then show ?thesis
    unfolding distinct_map [of baseOf] by (intro conjI distinct_filter assms)
qed

lemma distinct_map_filter:
  assumes "distinct (map fst (filter P xs))"
    and "\<And>x z. f x = Some z \<Longrightarrow> P x" "\<And>x y z. f x = Some z \<Longrightarrow> f y = Some z \<Longrightarrow> fst x = fst y"
  shows "distinct (List.map_filter f xs)"
  using assms(1)
proof (induction xs)
  case (Cons x xs)
  then have IH: "distinct (List.map_filter f xs)" by (simp split: if_splits)
  show ?case
  proof (cases "f x")
    case (Some z)
    have "z \<notin> set (List.map_filter f xs)"
    proof
      assume "z \<in> set (List.map_filter f xs)"
      then obtain y where y: "y \<in> set xs" "f y = Some z" by (auto simp: set_map_filter)
      then have "P x" "P y" "fst x = fst y" using assms(2,3) Some by blast+
      with Cons.prems y(1) show False by auto
    qed
    with Some IH show ?thesis by (simp add: List.map_filter_def)
  qed (use IH in \<open>simp add: List.map_filter_def\<close>)
qed (simp add: List.map_filter_def)

lemma ListMessages_distinct:
  assumes "ListMessages F sp st s = Inr ms" "keys_distinct (files s)"
  shows "distinct ms"
proof -
  let ?d = "stageDir sp st"
  let ?fs = "map (\<lambda>p. (baseOf p, False)) (filter (\<lambda>p. dirOf p = ?d) (map fst (files s)))"
  let ?ds = "map (\<lambda>p. (baseOf p, True)) (filter (\<lambda>p. dirOf p = ?d) (dirs s))"
  have ms: "ms = List.map_filter (\<lambda>(name, isDir). if isDir then None else emlName name) (dirEntries s ?d)"
    using assms(1) by (auto simp: ListMessages_def readDir_def split: option.splits sum.splits if_splits)
  have "filter (\<lambda>e. \<not> snd e) (dirEntries s ?d) = sort_key fst ?fs"
    by (simp add: dirEntries_def filter_sort filter_map o_def)
  then have "distinct (map fst (filter (\<lambda>e. \<not> snd e) (dirEntries s ?d)))"
    using distinct_filtered_names [OF assms(2)]
    by (metis (no_types, lifting) fst_conv map_eq_conv map_map mset_eq_imp_distinct_iff mset_map
        mset_sort comp_apply)
  then show ?thesis
    unfolding ms
    by (rule distinct_map_filter) (auto simp: emlName_iff split: if_splits prod.splits)
qed

end
