(* ===== verification/SpoolLifecycle.thy ===== *)
theory SpoolLifecycle
  imports SpoolHousekeeping
begin

text \<open>
  The retention clean-up as a function of the files, what holds of a message through any sequence
  of moves, and the creation of the spool up to the first message written and read.
\<close>

section \<open>Cleanup\<close>

definition expired :: "time \<Rightarrow> duration \<Rightarrow> inode option \<Rightarrow> bool" where
  "expired now ret i = (case i of None \<Rightarrow> False | Some n \<Rightarrow> ret < timeSub now (mtime n))"

text \<open>No file of a disk is called \<open>.\<close> or \<open>..\<close>.\<close>

definition properDisk :: "fs \<Rightarrow> bool" where
  "properDisk s \<longleftrightarrow> (\<forall>p. fileAt s p \<noteq> None \<longrightarrow> properName (baseOf p))"

definition cleanupEntry ::
  "os_faults \<Rightarrow> time \<Rightarrow> path \<Rightarrow> duration \<Rightarrow> string \<times> bool \<Rightarrow> fs \<Rightarrow> fs" where
  "cleanupEntry F now d ret e s =
     (if snd e then s
      else
        (case entryInfo F (joinPath [d, fst e]) s of
           Inl e \<Rightarrow> s
         | Inr t \<Rightarrow>
             if ret < timeSub now t then snd (removeFile F (joinPath [d, fst e]) s) else s))"

lemma cleanupEntries_fold: "cleanupEntries F now d ret es s = fold (cleanupEntry F now d ret) es s"
proof (induction es arbitrary: s)
  case (Cons e es)
  moreover have "cleanupEntries F now d ret (e # es) s =
      cleanupEntries F now d ret es (cleanupEntry F now d ret e s)"
    by (cases e) (simp add: cleanupEntry_def split: sum.split)
  ultimately show ?case by simp
qed simp

lemma cleanupEntry_file:
  "fileAt (cleanupEntry F now d ret e s) p = fileAt s p \<or>
   fileAt (cleanupEntry F now d ret e s) p = None \<and> \<not> snd e \<and> p = joinPath [d, fst e] \<and>
     expired now ret (fileAt s p)"
proof (cases "removeFile F (joinPath [d, fst e]) s")
  case (Pair r s')
  then show ?thesis
    by (cases "p = joinPath [d, fst e]")
      (auto simp: cleanupEntry_def entryInfo_def expired_def dest!: removeFile_D
        split: option.splits sum.splits)
qed

lemma cleanupEntry_dirs: "dirs (cleanupEntry F now d ret e s) = dirs s"
proof (cases "removeFile F (joinPath [d, fst e]) s")
  case (Pair r s')
  then show ?thesis
    by (auto simp: cleanupEntry_def entryInfo_def dest!: removeFile_D
        split: option.splits sum.splits)
qed

lemma cleanupEntry_no_faults:
  "fileAt (cleanupEntry no_faults now d ret e s) p =
     (if \<not> snd e \<and> p = joinPath [d, fst e] \<and> expired now ret (fileAt s p) then None
      else fileAt s p)"
  by (auto simp: cleanupEntry_def entryInfo_def removeFile_def expired_def
      split: option.splits sum.splits)

lemma fold_dirs: "(\<And>x s. dirs (f x s) = dirs s) \<Longrightarrow> dirs (fold f xs s) = dirs s"
  by (induction xs arbitrary: s) auto

lemma expired_None [simp]: "\<not> expired now ret None"
  by (simp add: expired_def)

lemma cleanupEntries_no_faults:
  "fileAt (cleanupEntries no_faults now d ret es s) p =
     (if (\<exists>e \<in> set es. \<not> snd e \<and> p = joinPath [d, fst e]) \<and> expired now ret (fileAt s p) then None
      else fileAt s p)"
  unfolding cleanupEntries_fold
  by (induction es arbitrary: s) (auto simp: cleanupEntry_no_faults)

lemma cleanupEntries_file:
  "fileAt (cleanupEntries F now d ret es s) p = fileAt s p \<or>
   fileAt (cleanupEntries F now d ret es s) p = None \<and>
     (\<exists>e \<in> set es. \<not> snd e \<and> p = joinPath [d, fst e]) \<and> expired now ret (fileAt s p)"
  unfolding cleanupEntries_fold
proof (induction es arbitrary: s)
  case (Cons e es)
  show ?case using cleanupEntry_file [of F now d ret e s p] Cons.IH [of "cleanupEntry F now d ret e s"]
    by auto
qed simp

lemma entry_path:
  assumes "properDisk s" "e \<in> set (dirEntries s (stageDir sp st))" "\<not> snd e"
  shows "dirOf (joinPath [stageDir sp st, fst e]) = stageDir sp st"
    and "fileAt s (joinPath [stageDir sp st, fst e]) \<noteq> None"
proof -
  have "(fst e, False) \<in> set (dirEntries s (stageDir sp st))" using assms(2,3) by (metis prod.collapse)
  then obtain p where p: "fileAt s p \<noteq> None" "dirOf p = stageDir sp st" "baseOf p = fst e"
    unfolding dirEntries_file by blast
  then have "joinPath [stageDir sp st, fst e] = stageDir sp st @ slash # fst e"
    using joinPath_file [OF properName_stage, of "fst e" "basePath sp" st] assms(1)
    by (auto simp: properDisk_def stageDir_def)
  then have "joinPath [stageDir sp st, fst e] = p"
    using file_in_stage [OF p(2)] p(3) by simp
  with p show "dirOf (joinPath [stageDir sp st, fst e]) = stageDir sp st"
    and "fileAt s (joinPath [stageDir sp st, fst e]) \<noteq> None" by simp_all
qed

lemma file_entry:
  assumes "properDisk s" "fileAt s p \<noteq> None" "dirOf p = stageDir sp st"
  shows "\<exists>e \<in> set (dirEntries s (stageDir sp st)). \<not> snd e \<and> p = joinPath [stageDir sp st, fst e]"
proof -
  have "(baseOf p, False) \<in> set (dirEntries s (stageDir sp st))"
    using assms(2,3) by (auto simp: dirEntries_file)
  moreover have "joinPath [stageDir sp st, baseOf p] = p"
    using joinPath_file [OF properName_stage, of "baseOf p" "basePath sp" st] assms
      file_in_stage [OF assms(3)] by (simp add: properDisk_def stageDir_def)
  ultimately show ?thesis by (intro bexI [of _ "(baseOf p, False)"]) simp_all
qed

lemma cleanupStage_file:
  assumes "properDisk s"
  shows "fileAt (cleanupStage F sp now (st, ret) s) p = fileAt s p \<or>
    fileAt (cleanupStage F sp now (st, ret) s) p = None \<and> 0 < ret \<and> dirOf p = stageDir sp st \<and>
      expired now ret (fileAt s p)"
proof -
  have "dirOf p = stageDir sp st"
    if "e \<in> set (dirEntries s (stageDir sp st))" "\<not> snd e" "p = joinPath [stageDir sp st, fst e]" for e
    using entry_path(1) [OF assms that(1,2)] that(3) by simp
  then show ?thesis
    using cleanupEntries_file [of F now "stageDir sp st" ret "dirEntries s (stageDir sp st)" s p]
    by (auto simp: cleanupStage_def readDir_def split: option.splits)
qed

lemma cleanupStage_no_faults:
  assumes "properDisk s" "dirExists s (stageDir sp st)"
  shows "fileAt (cleanupStage no_faults sp now (st, ret) s) p =
    (if 0 < ret \<and> dirOf p = stageDir sp st \<and> expired now ret (fileAt s p) then None else fileAt s p)"
proof (cases "fileAt s p")
  case None
  then show ?thesis using cleanupStage_file [OF assms(1)] by (metis expired_None)
next
  case (Some n)
  have "(\<exists>e \<in> set (dirEntries s (stageDir sp st)). \<not> snd e \<and> p = joinPath [stageDir sp st, fst e]) \<longleftrightarrow>
      dirOf p = stageDir sp st"
    using entry_path(1) [OF assms(1)] file_entry [OF assms(1)] Some by fastforce
  then show ?thesis
    using assms(2) by (auto simp: cleanupStage_def readDir_def cleanupEntries_no_faults)
qed

lemma cleanupStage_dirs: "dirs (cleanupStage F sp now sr s) = dirs s"
  by (auto simp: cleanupStage_def cleanupEntries_fold fold_dirs cleanupEntry_dirs
      split: prod.splits sum.splits)

lemma properDisk_subset:
  "properDisk s \<Longrightarrow> (\<And>p. fileAt t p = fileAt s p \<or> fileAt t p = None) \<Longrightarrow> properDisk t"
  unfolding properDisk_def by metis

lemma properDisk_cleanupStage:
  assumes "properDisk s"
  shows "properDisk (cleanupStage F sp now sr s)"
proof (rule properDisk_subset [OF assms])
  fix p
  show "fileAt (cleanupStage F sp now sr s) p = fileAt s p \<or> fileAt (cleanupStage F sp now sr s) p = None"
    using cleanupStage_file [OF assms, of F sp now "fst sr" "snd sr" p] unfolding prod.collapse
    by (elim disjE conjE) simp_all
qed

text \<open>With any faults: a file that is gone was older than the retention of its own stage.\<close>

lemma Cleanup_file:
  assumes "properDisk s"
  shows "fileAt (Cleanup F sp now s) p = fileAt s p \<or>
    fileAt (Cleanup F sp now s) p = None \<and>
      (\<exists>(st, ret) \<in> set (retention sp). 0 < ret \<and> dirOf p = stageDir sp st \<and>
         expired now ret (fileAt s p))"
proof -
  have "fileAt (fold (cleanupStage F sp now) rs s) p = fileAt s p \<or>
    fileAt (fold (cleanupStage F sp now) rs s) p = None \<and>
      (\<exists>(st, ret) \<in> set rs. 0 < ret \<and> dirOf p = stageDir sp st \<and> expired now ret (fileAt s p))" for rs
    using assms
  proof (induction rs arbitrary: s)
    case (Cons sr rs)
    obtain st ret where sr: "sr = (st, ret)" by fastforce
    show ?case
      using cleanupStage_file [OF Cons.prems, of F sp now st ret p]
        Cons.IH [OF properDisk_cleanupStage [OF Cons.prems, of F sp now sr]] sr
      by auto
  qed simp
  then show ?thesis by (simp add: Cleanup_def)
qed

text \<open>Without faults: all of these are gone.\<close>

lemma Cleanup_no_faults:
  assumes "properDisk s" "\<forall>st. dirExists s (stageDir sp st)"
  shows "fileAt (Cleanup no_faults sp now s) p =
    (if \<exists>(st, ret) \<in> set (retention sp). 0 < ret \<and> dirOf p = stageDir sp st \<and>
          expired now ret (fileAt s p)
     then None else fileAt s p)"
proof -
  have "fileAt (fold (cleanupStage no_faults sp now) rs s) p =
    (if \<exists>(st, ret) \<in> set rs. 0 < ret \<and> dirOf p = stageDir sp st \<and> expired now ret (fileAt s p)
     then None else fileAt s p)" for rs
    using assms
  proof (induction rs arbitrary: s)
    case (Cons sr rs)
    obtain st ret where sr: "sr = (st, ret)" by fastforce
    have "\<forall>st. dirExists (cleanupStage no_faults sp now sr s) (stageDir sp st)"
      using Cons.prems(2) by (simp add: dirExists_def cleanupStage_dirs)
    then show ?case
      using cleanupStage_no_faults [OF Cons.prems(1), of sp st now ret p]
        Cons.IH [OF properDisk_cleanupStage [OF Cons.prems(1)]] sr Cons.prems(2)
      by auto
  qed simp
  then show ?thesis by (simp add: Cleanup_def)
qed

section \<open>A message through any sequence of moves\<close>

text \<open>
  Some stage holds the message with the data, and no stage holds it with any other data.
\<close>

definition messageWhole :: "Spool \<Rightarrow> string \<Rightarrow> bytes \<Rightarrow> fs \<Rightarrow> bool" where
  "messageWhole sp m d s \<longleftrightarrow>
     (\<exists>st. msgAt sp s st m = Some d) \<and> (\<forall>st. msgAt sp s st m \<in> {None, Some d})"

datatype move_call = MoveCall os_faults time string Stage Stage

fun runMove :: "Spool \<Rightarrow> fs \<Rightarrow> move_call \<Rightarrow> fs" where
  "runMove sp s (MoveCall F now m a b) = snd (Move F sp now m a b s)"

fun sameDevice :: "move_call \<Rightarrow> bool" where
  "sameDevice (MoveCall F now m a b) \<longleftrightarrow> validID m \<and> (\<forall>p q. fault F (OpRename p q) \<noteq> Some EXDEV)"

lemma Move_same_device:
  assumes "sameDevice (MoveCall F now m a b)" "Move F sp now m a b s = (r, s')"
  shows "s' = s \<or> (\<exists>n. fileAt s (stagePath sp a m) = Some n \<and>
    s' = put_files (AList.update (stagePath sp b m) n (AList.delete (stagePath sp a m) (files s))) s)"
  using assms by (auto simp: Move_def Let_def rename_def split: option.splits prod.splits if_splits)

lemma runMove_whole:
  assumes "sameDevice e" "validID m" "messageWhole sp m d s"
  shows "messageWhole sp m d (runMove sp s e)"
proof -
  obtain F now k a b where e: "e = MoveCall F now k a b" by (cases e)
  obtain r s' where mv: "Move F sp now k a b s = (r, s')" by fastforce
  consider "s' = s" | n where "fileAt s (stagePath sp a k) = Some n"
      "s' = put_files (AList.update (stagePath sp b k) n (AList.delete (stagePath sp a k) (files s))) s"
    using Move_same_device [OF assms(1) [unfolded e] mv] by blast
  then have "messageWhole sp m d s'"
  proof cases
    case (2 n)
    have at: "msgAt sp s' st m =
        (if st = b \<and> m = k then Some (idata n)
         else if st = a \<and> m = k then None else msgAt sp s st m)" for st
      using assms(1,2) e 2(2) by (simp add: msgAt_def)
    have "m = k \<Longrightarrow> idata n = d"
      using assms(3) 2(1) by (auto simp: messageWhole_def msgAt_def dest!: spec [of _ a])
    moreover obtain c where "msgAt sp s c m = Some d" using assms(3) by (auto simp: messageWhole_def)
    ultimately have "\<exists>st. msgAt sp s' st m = Some d"
      unfolding at by (cases "m = k") auto
    moreover have "\<forall>st. msgAt sp s' st m \<in> {None, Some d}"
      using assms(3) \<open>m = k \<Longrightarrow> idata n = d\<close> unfolding at messageWhole_def by auto
    ultimately show ?thesis by (simp add: messageWhole_def)
  qed (use assms(3) in simp)
  then show ?thesis by (simp add: e mv)
qed

lemma run_moves_whole:
  "list_all sameDevice es \<Longrightarrow> validID m \<Longrightarrow> messageWhole sp m d s \<Longrightarrow>
     messageWhole sp m d (run (runMove sp) s es)"
  by (induction es arbitrary: s) (simp_all add: runMove_whole)

section \<open>A new spool\<close>

definition emptyDisk :: fs where
  "emptyDisk = \<lparr>files = [], dirs = [], trail = []\<rparr>"

lemma mkdirAll_fresh:
  "files s = [] \<Longrightarrow> mkdirAll no_faults p s = (None, s\<lparr>dirs := remdups (dirs s @ pathPrefixes p)\<rparr>)"
  by (simp add: mkdirAll_def fileAt_def list_ex_iff del: map_of_files)

lemma initStages_fresh:
  "files s = [] \<Longrightarrow> trail s = [] \<Longrightarrow>
     \<exists>s'. initStages no_faults sp sts s = (None, s') \<and> files s' = [] \<and> trail s' = [] \<and>
       set (dirs s') = set (dirs s) \<union> (\<Union>st \<in> set sts. set (pathPrefixes (stageDir sp st)))"
proof (induction sts arbitrary: s)
  case (Cons st sts)
  show ?case
    using Cons.IH [of "s\<lparr>dirs := remdups (dirs s @ pathPrefixes (stageDir sp st))\<rparr>"] Cons.prems
    by (auto simp: mkdirAll_fresh)
qed simp

lemma stageDir_prefix: "stageDir sp st \<in> set (pathPrefixes (stageDir sp st))"
proof -
  let ?cs = "splitOn slash (stageDir sp st)"
  have "stageDir sp st \<noteq> []"
    using render_not_Nil [OF joinedDir_good [OF properName_stage]]
    by (simp add: stageDir_def joinPath_dir [OF properName_stage])
  moreover have "joinWith slash (take (Suc (length ?cs - 1)) ?cs) = stageDir sp st"
    using splitOn_not_Nil [of slash "stageDir sp st"] by (simp add: join_split)
  moreover have "length ?cs - 1 \<in> set [0..<length ?cs]" by simp
  ultimately show ?thesis
    unfolding pathPrefixes_def Let_def set_filter set_map
    by (intro CollectI conjI image_eqI [where x = "length ?cs - 1"]) simp_all
qed

lemma splitOn_prefix_length:
  assumes "q \<in> set (pathPrefixes p)"
  shows "length (splitOn slash q) \<le> length (splitOn slash p)"
proof -
  obtain k where k: "k < length (splitOn slash p)" "q = joinWith slash (take (Suc k) (splitOn slash p))"
    using assms by (auto simp: pathPrefixes_def Let_def)
  have "splitOn slash q = take (Suc k) (splitOn slash p)"
    unfolding k(2)
    by (rule split_join) (auto dest: in_set_takeD splitOn_parts_free simp: take_eq_Nil)
  then show ?thesis by simp
qed

lemma length_split_stageDir: "length (splitOn slash (stageDir sp a)) = length (splitOn slash (stageDir sp b))"
proof -
  have "length (splitOn slash (stageDir sp st)) =
      (if fst (joinedDir (basePath sp) (stageName st)) then 1 else 0) +
      length (snd (joinedDir (basePath sp) (stageName st)))" for st
    using splitOn_render [OF joinedDir_good [OF properName_stage] joinedDir_not_Nil, of "basePath sp" st]
    by (simp add: stageDir_def joinPath_dir [OF properName_stage])
  then show ?thesis by (simp add: joinedDir_def)
qed

text \<open>On an empty disk, where no system call fails, the spool is created.\<close>

lemma NewSpool_fresh:
  obtains s where "NewSpool no_faults base ret emptyDisk = (Inr \<lparr>basePath = base, retention = ret\<rparr>, s)"
    and "files s = []" "trail s = []"
    and "\<And>st. dirExists s (stageDir \<lparr>basePath = base, retention = ret\<rparr> st)"
    and "\<And>st n. slash \<notin> set n \<Longrightarrow> n \<noteq> [] \<Longrightarrow> \<not> dirExists s (stageDir \<lparr>basePath = base, retention = ret\<rparr> st @ slash # n)"
proof -
  let ?sp = "\<lparr>basePath = base, retention = ret\<rparr>"
  obtain s where s: "initStages no_faults ?sp AllStages emptyDisk = (None, s)" "files s = []" "trail s = []"
    "set (dirs s) = (\<Union>st \<in> set AllStages. set (pathPrefixes (stageDir ?sp st)))"
    using initStages_fresh [of emptyDisk ?sp AllStages] by (auto simp: emptyDisk_def)
  have all: "st \<in> set AllStages" for st by (cases st) (simp_all add: AllStages_def)
  have "\<not> dirExists s (stageDir ?sp st @ slash # n)" if n: "slash \<notin> set n" "n \<noteq> []" for st n
  proof -
    have len: "length (splitOn slash (stageDir ?sp st @ slash # n)) =
        Suc (length (splitOn slash (stageDir ?sp st)))"
      using n by (simp add: splitOn_last)
    then have "stageDir ?sp st @ slash # n \<notin> set (dirs s)"
      using splitOn_prefix_length length_split_stageDir [of ?sp st] unfolding s(4)
      by (metis UN_E Suc_n_not_le_n)
    moreover have "stageDir ?sp st @ slash # n \<noteq> ''.''" by (cases "stageDir ?sp st") auto
    moreover have "stageDir ?sp st @ slash # n \<noteq> ''/''" using n(2) by (cases "stageDir ?sp st") auto
    ultimately show ?thesis by (simp add: dirExists_def)
  qed
  moreover have "dirExists s (stageDir ?sp st)" for st
    using s(4) all stageDir_prefix [of ?sp st] by (auto simp: dirExists_def)
  ultimately show ?thesis
    using that s by (simp add: NewSpool_def initializeSpool_def)
qed

section \<open>A spool that is ready\<close>

text \<open>
  The disk the spool expects: its directories are there and no directory has the name of one of its
  files.
\<close>

definition spoolReady :: "Spool \<Rightarrow> fs \<Rightarrow> bool" where
  "spoolReady sp s \<longleftrightarrow>
     (\<forall>st. dirExists s (stageDir sp st)) \<and>
     (\<forall>st n. slash \<notin> set n \<longrightarrow> n \<noteq> [] \<longrightarrow> \<not> dirExists s (stageDir sp st @ slash # n))"

lemma ready_paths:
  assumes "spoolReady sp s" "validID m"
  shows "dirExists s (dirOf (stagePath sp st m))" "\<not> dirExists s (stagePath sp st m)"
    "dirExists s (dirOf (stagePath sp st m @ ''.tmp''))" "\<not> dirExists s (stagePath sp st m @ ''.tmp'')"
proof -
  show "dirExists s (dirOf (stagePath sp st m))" "dirExists s (dirOf (stagePath sp st m @ ''.tmp''))"
    using assms by (simp_all add: spoolReady_def dirOf_stagePath dirOf_tmpFile)
  show "\<not> dirExists s (stagePath sp st m)"
    using assms by (simp add: spoolReady_def stagePath_eq)
  have "stagePath sp st m @ ''.tmp'' = stageDir sp st @ slash # (m @ ''.eml.tmp'')"
    using assms(2) by (simp add: stagePath_eq)
  then show "\<not> dirExists s (stagePath sp st m @ ''.tmp'')"
    using assms unfolding spoolReady_def by simp
qed

text \<open>Without faults a move of a message that is there succeeds, and so does a write.\<close>

lemma Move_ready:
  assumes "spoolReady sp s" "validID m" "fileAt s (stagePath sp a m) = Some n"
  shows "Move no_faults sp now m a b s =
    (None, put_files (AList.update (stagePath sp b m) n (AList.delete (stagePath sp a m) (files s))) s)"
  using assms ready_paths [OF assms(1,2)] by (simp add: Move_def Let_def statFile_def rename_def)

lemma spoolReady_files [simp]: "spoolReady sp (put_files al s) \<longleftrightarrow> spoolReady sp s"
  by (simp add: spoolReady_def)

lemma spoolReady_writeBytes [simp]: "spoolReady sp (writeBytes p d now n s) \<longleftrightarrow> spoolReady sp s"
  by (simp add: spoolReady_def)

lemma Write_ready:
  assumes "spoolReady sp s" "validID m" "fileAt s (stagePath sp StageTmp m @ ''.tmp'') = None"
  shows "\<exists>s'. Write no_faults sp now m d s = (None, s') \<and> spoolReady sp s' \<and>
    (\<forall>p. p \<noteq> stagePath sp StageTmp m @ ''.tmp'' \<longrightarrow> p \<noteq> stagePath sp StageTmp m \<longrightarrow>
       p \<noteq> stagePath sp StageIncoming m \<longrightarrow> fileAt s' p = fileAt s p) \<and>
    fileAt s' (stagePath sp StageTmp m @ ''.tmp'') = None"
proof -
  let ?tp = "stagePath sp StageTmp m" and ?tf = "stagePath sp StageTmp m @ ''.tmp''"
  let ?n = "\<lparr>idata = d, mtime = now\<rparr>"
  note r = ready_paths [OF assms(1,2), of StageTmp]
  define s1 where "s1 = put_files (AList.update ?tf \<lparr>idata = [], mtime = now\<rparr> (files s)) s"
  define s2 where "s2 = writeBytes ?tf d now (length d) s1"
  define s3 where "s3 = put_files (AList.update ?tp ?n (AList.delete ?tf (files s2))) s2"
  have o: "openExcl no_faults ?tf now s = (None, s1)" using assms(3) r by (simp add: openExcl_def s1_def)
  have w: "writeFile no_faults ?tf d now s1 = (None, s2)" by (simp add: writeFile_def s2_def)
  have n: "rename no_faults ?tf ?tp s2 = (None, s3)" using r by (simp add: rename_def s3_def s2_def s1_def)
  have rd: "spoolReady sp s3" using assms(1) by (simp add: s3_def s2_def s1_def)
  have at: "fileAt s3 ?tp = Some ?n" by (simp add: s3_def)
  have "Write no_faults sp now m d s =
      (None, put_files (AList.update (stagePath sp StageIncoming m) ?n (AList.delete ?tp (files s3))) s3)"
    using Move_ready [OF rd assms(2) at, of now StageIncoming]
    by (simp add: Write_def Let_def o w n syncFile_def)
  then show ?thesis using rd assms(2) by (auto simp: s3_def s2_def s1_def)
qed

lemma NewSpool_ready:
  assumes "NewSpool no_faults base ret emptyDisk = (Inr sp, s)"
  shows "spoolReady sp s" and "files s = []" and "trail s = []"
proof -
  obtain t where "NewSpool no_faults base ret emptyDisk = (Inr \<lparr>basePath = base, retention = ret\<rparr>, t)"
    and "files t = []" "trail t = []"
    and "\<And>st. dirExists t (stageDir \<lparr>basePath = base, retention = ret\<rparr> st)"
    and "\<And>st n. slash \<notin> set n \<Longrightarrow> n \<noteq> [] \<Longrightarrow>
      \<not> dirExists t (stageDir \<lparr>basePath = base, retention = ret\<rparr> st @ slash # n)"
    by (rule NewSpool_fresh [where base = base and ret = ret], rule that, assumption+)
  with assms show "spoolReady sp s" "files s = []" "trail s = []" by (auto simp: spoolReady_def)
qed

lemma NewSpool_total: "\<exists>sp s. NewSpool no_faults base ret emptyDisk = (Inr sp, s) \<and> basePath sp = base"
  by (rule NewSpool_fresh [where base = base and ret = ret]) auto

end
