(* ===== verification/SpoolRefinement.thy ===== *)
theory SpoolRefinement
  imports SpoolLifecycle
begin

text \<open>
  The spool as its clients may think of it: a table of messages by stage and identifier. Every
  operation either does to the table what it says or fails; it fails only when a system call did, or
  for the reason the table gives.
\<close>

section \<open>The table\<close>

text \<open>\<open>st_stuck\<close>: the identifiers for which a failed write has left its temporary file.\<close>

record store =
  st_msgs :: "Stage \<times> string \<Rightarrow> bytes option"
  st_stuck :: "string set"

datatype spool_op =
    OpPut os_faults time string bytes
  | OpMove os_faults time string Stage Stage
  | OpDrop os_faults Stage string
  | OpGet os_faults Stage string

datatype spool_answer = Done | Failed | Got bytes

definition faulty :: "os_faults \<Rightarrow> bool" where
  "faulty F \<longleftrightarrow> (\<exists>x. fault F x \<noteq> None)"

inductive store_step :: "spool_op \<Rightarrow> spool_answer \<Rightarrow> store \<Rightarrow> store \<Rightarrow> bool" where
  put: "m \<notin> st_stuck S \<Longrightarrow>
     store_step (OpPut F t m d) Done S
       (S\<lparr>st_msgs := (st_msgs S)((StageTmp, m) := None, (StageIncoming, m) := Some d)\<rparr>)"
| put_stuck: "m \<in> st_stuck S \<Longrightarrow> store_step (OpPut F t m d) Failed S S"
| put_failed: "faulty F \<Longrightarrow> x \<in> {st_msgs S (StageTmp, m), Some d} \<Longrightarrow> P \<in> {st_stuck S, insert m (st_stuck S)} \<Longrightarrow>
     store_step (OpPut F t m d) Failed S \<lparr>st_msgs = (st_msgs S)((StageTmp, m) := x), st_stuck = P\<rparr>"
| move: "st_msgs S (a, m) = Some d \<Longrightarrow>
     store_step (OpMove F t m a b) Done S
       (S\<lparr>st_msgs := (st_msgs S)((a, m) := None, (b, m) := Some d)\<rparr>)"
| move_failed: "faulty F \<or> st_msgs S (a, m) = None \<Longrightarrow> store_step (OpMove F t m a b) Failed S S"
| drop: "store_step (OpDrop F st m) Done S (S\<lparr>st_msgs := (st_msgs S)((st, m) := None)\<rparr>)"
| drop_failed: "faulty F \<Longrightarrow> store_step (OpDrop F st m) Failed S S"
| get: "st_msgs S (st, m) = Some d \<Longrightarrow> store_step (OpGet F st m) (Got d) S S"
| get_failed: "faulty F \<or> st_msgs S (st, m) = None \<Longrightarrow> store_step (OpGet F st m) Failed S S"

text \<open>A history of the table: the operations with their answers.\<close>

fun store_history :: "(spool_op \<times> spool_answer) list \<Rightarrow> store \<Rightarrow> store \<Rightarrow> bool" where
  "store_history [] S S' \<longleftrightarrow> S' = S"
| "store_history ((e, a) # es) S S' \<longleftrightarrow> (\<exists>S1. store_step e a S S1 \<and> store_history es S1 S')"

section \<open>The spool\<close>

definition doneOr :: "'e option \<Rightarrow> spool_answer" where
  "doneOr e = (if e = None then Done else Failed)"

definition spoolOp :: "Spool \<Rightarrow> spool_op \<Rightarrow> fs \<Rightarrow> spool_answer \<times> fs" where
  "spoolOp sp e s =
     (case e of
        OpPut F t m d \<Rightarrow> (case Write F sp t m d s of (r, s') \<Rightarrow> (doneOr r, s'))
      | OpMove F t m a b \<Rightarrow> (case Move F sp t m a b s of (r, s') \<Rightarrow> (doneOr r, s'))
      | OpDrop F st m \<Rightarrow> (case Delete F sp st m s of (r, s') \<Rightarrow> (doneOr r, s'))
      | OpGet F st m \<Rightarrow> (case Read F sp st m s of Inl e \<Rightarrow> Failed | Inr d \<Rightarrow> Got d, s))"

fun spoolOps :: "Spool \<Rightarrow> spool_op list \<Rightarrow> fs \<Rightarrow> spool_answer list \<times> fs" where
  "spoolOps sp [] s = ([], s)"
| "spoolOps sp (e # es) s =
     (case spoolOp sp e s of (a, s1) \<Rightarrow> (case spoolOps sp es s1 of (as, s2) \<Rightarrow> (a # as, s2)))"

text \<open>
  The operations that are considered: proper identifiers, and system calls that fail on one device
  and do not say of a file that is there that it is not.
\<close>

fun opFaults :: "spool_op \<Rightarrow> os_faults" where
  "opFaults (OpPut F t m d) = F"
| "opFaults (OpMove F t m a b) = F"
| "opFaults (OpDrop F st m) = F"
| "opFaults (OpGet F st m) = F"

fun opID :: "spool_op \<Rightarrow> string" where
  "opID (OpPut F t m d) = m"
| "opID (OpMove F t m a b) = m"
| "opID (OpDrop F st m) = m"
| "opID (OpGet F st m) = m"

definition oneDevice :: "os_faults \<Rightarrow> bool" where
  "oneDevice F \<longleftrightarrow> (\<forall>p q. fault F (OpRename p q) \<noteq> Some EXDEV) \<and> (\<forall>p. fault F (OpRemove p) \<noteq> Some ENOENT)"

definition goodOp :: "spool_op \<Rightarrow> bool" where
  "goodOp e \<longleftrightarrow> validID (opID e) \<and> oneDevice (opFaults e)"

definition storeOf :: "Spool \<Rightarrow> fs \<Rightarrow> store" where
  "storeOf sp s =
     \<lparr>st_msgs = (\<lambda>(st, m). if validID m then msgAt sp s st m else None),
      st_stuck = {m. validID m \<and> fileAt s (stagePath sp StageTmp m @ ''.tmp'') \<noteq> None}\<rparr>"

section \<open>Each operation\<close>

lemma fault_faulty: "fault F x = Some e \<Longrightarrow> faulty F"
  by (auto simp: faulty_def)

lemma spoolReady_dirs: "dirs s' = dirs s \<Longrightarrow> spoolReady sp s' = spoolReady sp s"
  by (simp add: spoolReady_def dirExists_def)

text \<open>On one device a move renames, or fails and does nothing.\<close>

lemma Move_one_device:
  assumes "oneDevice F" "Move F sp now m a b s = (r, s')" "spoolReady sp s" "validID m"
  shows "r = None \<and> (\<exists>n. fileAt s (stagePath sp a m) = Some n \<and>
      s' = put_files (AList.update (stagePath sp b m) n (AList.delete (stagePath sp a m) (files s))) s) \<or>
    r \<noteq> None \<and> s' = s \<and> (faulty F \<or> fileAt s (stagePath sp a m) = None)"
  using assms(1,2) ready_paths [OF assms(3,4)]
  by (auto simp: Move_def Let_def rename_def statFile_def oneDevice_def
      split: option.splits prod.splits if_splits dest: fault_faulty)

lemma tmp_paths_eq [simp]:
  "validID m \<Longrightarrow> validID k \<Longrightarrow> stagePath sp a m @ ''.tmp'' = stagePath sp b k @ ''.tmp'' \<longleftrightarrow> a = b \<and> m = k"
  by simp

text \<open>Removing the temporary file after a failure.\<close>

lemma remove_tmp:
  assumes "fileAt s p \<noteq> None"
  shows "dirs (snd (removeFile F p s)) = dirs s"
    and "fileAt (snd (removeFile F p s)) \<in> {fileAt s, (fileAt s)(p := None)}"
  using assms by (cases "removeFile F p s"; auto dest!: removeFile_D)+

lemma Write_one_device:
  assumes F: "oneDevice F" and w: "Write F sp now m d s = (r, s')" and rdy: "spoolReady sp s" and m: "validID m"
  defines "tf \<equiv> stagePath sp StageTmp m @ ''.tmp''" and "tp \<equiv> stagePath sp StageTmp m"
    and "inc \<equiv> stagePath sp StageIncoming m" and "n \<equiv> \<lparr>idata = d, mtime = now\<rparr>"
  shows "spoolReady sp s' \<and>
    (r = None \<and> fileAt s tf = None \<and> fileAt s' = (fileAt s)(tf := None, tp := None, inc \<mapsto> n) \<or>
     r \<noteq> None \<and> fileAt s' = fileAt s \<and> (faulty F \<or> fileAt s tf \<noteq> None) \<or>
     r \<noteq> None \<and> faulty F \<and> fileAt s tf = None \<and> (\<exists>x. fileAt s' = (fileAt s)(tf := x)) \<or>
     r \<noteq> None \<and> faulty F \<and> fileAt s tf = None \<and> fileAt s' = (fileAt s)(tf := None, tp \<mapsto> n))"
proof -
  note rp = ready_paths [OF rdy m, of StageTmp, folded tf_def tp_def]
  have ne: "tf \<noteq> tp" "tf \<noteq> inc" "tp \<noteq> inc" using m by (simp_all add: tf_def tp_def inc_def)
  obtain r1 s1 where o: "openExcl F tf now s = (r1, s1)" by fastforce
  show ?thesis
  proof (cases r1)
    case (Some e)
    then have "s' = s" "r \<noteq> None"
      using w o openExcl_D [OF o] by (auto simp: Write_def Let_def tf_def)
    moreover have "faulty F \<or> fileAt s tf \<noteq> None"
      using o Some rp by (auto simp: openExcl_def split: option.splits if_splits dest: fault_faulty)
    ultimately show ?thesis using rdy by simp
  next
    case None
    have s1: "fileAt s tf = None" "s1 = put_files (AList.update tf \<lparr>idata = [], mtime = now\<rparr> (files s)) s"
      using openExcl_D [OF o] None by auto
    obtain r2 s2 where wr: "writeFile F tf d now s1 = (r2, s2)" by fastforce
    obtain j where s2: "s2 = writeBytes tf d now j s1" "r2 = None \<longrightarrow> s2 = writeBytes tf d now (length d) s1"
      using writeFile_D [OF wr] by blast
    have d2: "dirs s2 = dirs s" "fileAt s2 tf \<noteq> None" "fileAt s2 = (fileAt s)(tf := fileAt s2 tf)"
      using s2(1) s1(2) by auto
    have undo: "spoolReady sp (snd (removeFile F tf s2)) \<and> (\<exists>x. fileAt (snd (removeFile F tf s2)) = (fileAt s)(tf := x))"
      using remove_tmp [OF d2(2), of F] d2(1,3) rdy spoolReady_dirs by (metis fun_upd_upd insertE singletonD)
    obtain r3 s3 where rn: "rename F tf tp s2 = (r3, s3)" by fastforce
    consider (failed) "s' = snd (removeFile F tf s2)" "r \<noteq> None" "faulty F"
      | (renamed) "r2 = None" "r3 = None" "Move F sp now m StageTmp StageIncoming s3 = (None, s') \<and> r = None \<or>
          (\<exists>e. Move F sp now m StageTmp StageIncoming s3 = (Some e, s')) \<and> r \<noteq> None"
    proof -
      have f2: "r2 \<noteq> None \<Longrightarrow> faulty F"
        using wr by (auto simp: writeFile_def split: option.splits dest: fault_faulty)
      have fs: "syncFile F tf s2 \<noteq> None \<Longrightarrow> faulty F"
        by (auto simp: syncFile_def dest: fault_faulty)
      have "dirExists s2 (dirOf tp)" "\<not> dirExists s2 tp"
        using rp(1,2) d2(1) by (simp_all add: dirExists_def)
      then have f3: "r3 \<noteq> None \<Longrightarrow> faulty F \<and> s3 = s2"
        using rn d2(2) by (auto simp: rename_def split: option.splits dest: fault_faulty)
      have eq: "Write F sp now m d s =
          (case r2 of Some e \<Rightarrow> (Some (WritingData e), snd (removeFile F tf s2))
           | None \<Rightarrow>
               (case syncFile F tf s2 of Some e \<Rightarrow> (Some (SyncingFile e), snd (removeFile F tf s2))
                | None \<Rightarrow>
                    (case r3 of Some e \<Rightarrow> (Some (RenamingFile e), snd (removeFile F tf s3))
                     | None \<Rightarrow>
                         (case Move F sp now m StageTmp StageIncoming s3 of
                            (Some e, s4) \<Rightarrow> (Some (MovingToIncoming e), s4)
                          | (None, s4) \<Rightarrow> (None, s4)))))"
        using o wr rn None unfolding tf_def tp_def
        by (cases r2; cases "syncFile F (stagePath sp StageTmp m @ ''.tmp'') s2") (simp_all add: Write_def Let_def)
      show thesis
      proof (cases "r2 = None \<and> syncFile F tf s2 = None \<and> r3 = None")
        case True
        then show thesis using w eq renamed by (auto split: prod.splits option.splits)
      next
        case False
        then show thesis using w eq f2 fs f3 failed by (auto split: option.splits)
      qed
    qed
    then show ?thesis
    proof cases
      case renamed
      have at2: "fileAt s2 tf = Some n" using s2(2) renamed(1) by (simp add: n_def)
      then have s3: "s3 = put_files (AList.update tp n (AList.delete tf (files s2))) s2"
        using rename_D [OF rn] renamed(2) by auto
      have at3: "fileAt s3 = (fileAt s)(tf := None, tp \<mapsto> n)" using d2(3) ne by (auto simp: s3 fun_eq_iff)
      have rdy3: "spoolReady sp s3" using rdy d2(1) spoolReady_dirs by (metis dirs_put_files s3)
      from renamed(3) show ?thesis
      proof
        assume mv: "Move F sp now m StageTmp StageIncoming s3 = (None, s') \<and> r = None"
        then have "s' = put_files (AList.update inc n (AList.delete tp (files s3))) s3"
          using Move_one_device [OF F _ rdy3 m, of now StageTmp StageIncoming None s'] at3
          by (auto simp: tp_def inc_def)
        then have "fileAt s' = (fileAt s)(tf := None, tp := None, inc \<mapsto> n)" "spoolReady sp s'"
          using at3 rdy3 ne by (auto simp: fun_eq_iff)
        then show ?thesis using mv s1(1) by simp
      next
        assume "(\<exists>e. Move F sp now m StageTmp StageIncoming s3 = (Some e, s')) \<and> r \<noteq> None"
        then obtain e where mv: "Move F sp now m StageTmp StageIncoming s3 = (Some e, s')" "r \<noteq> None" by blast
        then have "s' = s3" "faulty F"
          using Move_one_device [OF F mv(1) rdy3 m] at3 by (auto simp: tp_def)
        then show ?thesis using at3 rdy3 mv(2) s1(1) by simp
      qed
    qed (use undo s1(1) in blast)
  qed
qed

section \<open>The refinement\<close>

text \<open>What the table sees of a change of the files.\<close>

lemma storeOf_msgs:
  "st_msgs (storeOf sp s) = (\<lambda>(st, k). if validID k then map_option idata (fileAt s (stagePath sp st k)) else None)"
  by (auto simp: storeOf_def msgAt_def fun_eq_iff)

lemma storeOf_stuck: "k \<in> st_stuck (storeOf sp s) \<longleftrightarrow> validID k \<and> fileAt s (stagePath sp StageTmp k @ ''.tmp'') \<noteq> None"
  by (simp add: storeOf_def)

lemma storeOf_cong: "fileAt s' = fileAt s \<Longrightarrow> storeOf sp s' = storeOf sp s"
  by (auto simp: storeOf_def msgAt_def fun_eq_iff)

lemma storeOf_message:
  assumes "validID m" "fileAt s' = (fileAt s)(stagePath sp st m := x)"
  shows "storeOf sp s' = (storeOf sp s)\<lparr>st_msgs := (st_msgs (storeOf sp s))((st, m) := map_option idata x)\<rparr>"
proof -
  have "st_stuck (storeOf sp s') = st_stuck (storeOf sp s)"
    using assms by (auto simp: storeOf_stuck)
  moreover have "st_msgs (storeOf sp s') = (st_msgs (storeOf sp s))((st, m) := map_option idata x)"
    using assms by (auto simp: storeOf_msgs fun_eq_iff)
  ultimately show ?thesis by simp
qed

lemma storeOf_tmp:
  assumes "validID m" "fileAt s' = (fileAt s)(stagePath sp StageTmp m @ ''.tmp'' := x)"
  shows "storeOf sp s' = (storeOf sp s)\<lparr>st_stuck :=
    (if x = None then st_stuck (storeOf sp s) - {m} else insert m (st_stuck (storeOf sp s)))\<rparr>"
proof -
  have "st_msgs (storeOf sp s') = st_msgs (storeOf sp s)"
    using assms by (auto simp: storeOf_msgs fun_eq_iff)
  moreover have "st_stuck (storeOf sp s') =
      (if x = None then st_stuck (storeOf sp s) - {m} else insert m (st_stuck (storeOf sp s)))"
    using assms by (auto simp: storeOf_def)
  ultimately show ?thesis by simp
qed

lemma doneOr_Failed: "r \<noteq> None \<Longrightarrow> doneOr r = Failed"
  by (simp add: doneOr_def)

lemma put_step:
  assumes "oneDevice F" "validID m" "Write F sp now m d s = (r, s')" "spoolReady sp s"
  shows "store_step (OpPut F now m d) (doneOr r) (storeOf sp s) (storeOf sp s') \<and> spoolReady sp s'"
proof -
  let ?S = "storeOf sp s" and ?tf = "stagePath sp StageTmp m @ ''.tmp''" and ?tp = "stagePath sp StageTmp m"
  let ?inc = "stagePath sp StageIncoming m" and ?n = "\<lparr>idata = d, mtime = now\<rparr>"
  note D = Write_one_device [OF assms(1,3,4,2)]
  consider (finished) "r = None" "fileAt s ?tf = None" "fileAt s' = (fileAt s)(?tf := None, ?tp := None, ?inc \<mapsto> ?n)"
    | (same) "r \<noteq> None" "fileAt s' = fileAt s" "faulty F \<or> fileAt s ?tf \<noteq> None"
    | (left_over) x where "r \<noteq> None" "faulty F" "fileAt s ?tf = None" "fileAt s' = (fileAt s)(?tf := x)"
    | (in_tmp) "r \<noteq> None" "faulty F" "fileAt s ?tf = None" "fileAt s' = (fileAt s)(?tf := None, ?tp \<mapsto> ?n)"
    using D by (elim conjE disjE exE) metis+
  then have "store_step (OpPut F now m d) (doneOr r) ?S (storeOf sp s')"
  proof cases
    case finished
    have "st_msgs (storeOf sp s') = (st_msgs ?S)((StageTmp, m) := None, (StageIncoming, m) := Some d)"
      using finished(3) assms(2) by (auto simp: storeOf_msgs fun_eq_iff)
    moreover have "st_stuck (storeOf sp s') = st_stuck ?S" "m \<notin> st_stuck ?S"
      using finished(2,3) assms(2) by (auto simp: storeOf_def)
    ultimately have "storeOf sp s' = ?S\<lparr>st_msgs := (st_msgs ?S)((StageTmp, m) := None, (StageIncoming, m) := Some d)\<rparr>"
      by simp
    with store_step.put [OF \<open>m \<notin> st_stuck ?S\<close>] show ?thesis by (simp add: doneOr_def finished(1))
  next
    case same
    have "m \<in> st_stuck ?S" if "\<not> faulty F" using same(3) that assms(2) by (simp add: storeOf_stuck)
    have eq: "\<lparr>st_msgs = (st_msgs ?S)((StageTmp, m) := st_msgs ?S (StageTmp, m)), st_stuck = st_stuck ?S\<rparr> = ?S"
      by simp
    have "store_step (OpPut F now m d) Failed ?S ?S"
    proof (cases "faulty F")
      case True
      from store_step.put_failed [OF this, of "st_msgs ?S (StageTmp, m)" ?S m d "st_stuck ?S" now]
      show ?thesis unfolding eq by simp
    next
      case False
      with \<open>\<not> faulty F \<Longrightarrow> m \<in> st_stuck ?S\<close> show ?thesis by (intro store_step.put_stuck) simp
    qed
    then show ?thesis by (simp add: doneOr_Failed [OF same(1)] storeOf_cong [OF same(2)])
  next
    case left_over
    have "storeOf sp s' = \<lparr>st_msgs = (st_msgs ?S)((StageTmp, m) := st_msgs ?S (StageTmp, m)),
        st_stuck = (if x = None then st_stuck ?S else insert m (st_stuck ?S))\<rparr>"
    proof -
      have "m \<notin> st_stuck ?S" using left_over(3) by (simp add: storeOf_stuck)
      then show ?thesis by (simp add: storeOf_tmp [OF assms(2) left_over(4)])
    qed
    with store_step.put_failed [OF left_over(2), of "st_msgs ?S (StageTmp, m)" ?S m d
        "if x = None then st_stuck ?S else insert m (st_stuck ?S)" now]
    show ?thesis by (simp add: doneOr_Failed [OF left_over(1)])
  next
    case in_tmp
    have "fileAt s' = (fileAt s)(?tp \<mapsto> ?n)" using in_tmp(3,4) by (metis fun_upd_triv)
    then have "storeOf sp s' = \<lparr>st_msgs = (st_msgs ?S)((StageTmp, m) := Some d), st_stuck = st_stuck ?S\<rparr>"
      using storeOf_message [OF assms(2), of s' s sp StageTmp "Some ?n"] by simp
    with store_step.put_failed [OF in_tmp(2), of "Some d" ?S m d "st_stuck ?S" now]
    show ?thesis by (simp add: doneOr_Failed [OF in_tmp(1)])
  qed
  then show ?thesis using D by simp
qed

lemma move_step:
  assumes "oneDevice F" "validID m" "Move F sp now m a b s = (r, s')" "spoolReady sp s"
  shows "store_step (OpMove F now m a b) (doneOr r) (storeOf sp s) (storeOf sp s') \<and> spoolReady sp s'"
proof -
  let ?S = "storeOf sp s"
  consider (finished) n where "r = None" "fileAt s (stagePath sp a m) = Some n"
      "s' = put_files (AList.update (stagePath sp b m) n (AList.delete (stagePath sp a m) (files s))) s"
    | (failed) "r \<noteq> None" "s' = s" "faulty F \<or> fileAt s (stagePath sp a m) = None"
    using Move_one_device [OF assms(1,3,4,2)] by (elim conjE disjE exE) metis+
  then show ?thesis
  proof cases
    case finished
    have "st_msgs (storeOf sp s') = (st_msgs ?S)((a, m) := None, (b, m) := Some (idata n))"
      using assms(2) by (auto simp: finished(3) storeOf_msgs fun_eq_iff)
    moreover have "st_stuck (storeOf sp s') = st_stuck ?S"
      using assms(2) by (auto simp: finished(3) storeOf_def)
    ultimately have "storeOf sp s' = ?S\<lparr>st_msgs := (st_msgs ?S)((a, m) := None, (b, m) := Some (idata n))\<rparr>"
      by simp
    moreover have "st_msgs ?S (a, m) = Some (idata n)" using finished(2) assms(2) by (simp add: storeOf_msgs)
    ultimately show ?thesis
      using store_step.move [of ?S a m "idata n" F now b] assms(4) finished(1,3) by (simp add: doneOr_def)
  next
    case failed
    then have "faulty F \<or> st_msgs ?S (a, m) = None" using assms(2) by (auto simp: storeOf_msgs)
    then show ?thesis using store_step.move_failed assms(4) failed(2) by (simp add: doneOr_Failed [OF failed(1)])
  qed
qed

lemma drop_step:
  assumes "oneDevice F" "validID m" "Delete F sp st m s = (r, s')" "spoolReady sp s"
  shows "store_step (OpDrop F st m) (doneOr r) (storeOf sp s) (storeOf sp s') \<and> spoolReady sp s'"
proof -
  let ?S = "storeOf sp s" and ?p = "stagePath sp st m"
  have nd: "?p \<notin> set (dirs s)" using ready_paths(2) [OF assms(4,2)] by (auto simp: dirExists_def)
  consider (gone) "r = None" "fileAt s ?p \<noteq> None" "s' = put_files (AList.delete ?p (files s)) s"
    | (missing) "r = None" "s' = s" "fileAt s ?p = None"
    | (failed) "r \<noteq> None" "s' = s" "faulty F"
  proof (cases "fault F (OpRemove ?p)")
    case None
    have "r = None \<and> s' = (if fileAt s ?p = None then s else put_files (AList.delete ?p (files s)) s)"
      using assms(3) nd by (auto simp: Delete_def removeFile_def None)
    then show thesis using gone missing by (cases "fileAt s ?p = None") simp_all
  next
    case (Some e)
    then have "e \<noteq> ENOENT" using assms(1) by (auto simp: oneDevice_def)
    then have "r \<noteq> None \<and> s' = s" using assms(3) by (auto simp: Delete_def removeFile_def Some)
    then show thesis using failed fault_faulty [OF Some] by blast
  qed
  then show ?thesis
  proof cases
    case gone
    then have "storeOf sp s' = ?S\<lparr>st_msgs := (st_msgs ?S)((st, m) := None)\<rparr>"
      using storeOf_message [OF assms(2), of s' s sp st None] by simp
    then show ?thesis using gone assms(4) store_step.drop [of F st m ?S] by (simp add: doneOr_def)
  next
    case missing
    then have "?S\<lparr>st_msgs := (st_msgs ?S)((st, m) := None)\<rparr> = ?S"
      using assms(2) by (auto simp: storeOf_msgs fun_eq_iff intro!: store.equality)
    then show ?thesis using missing assms(4) store_step.drop [of F st m ?S] by (simp add: doneOr_def)
  next
    case failed
    then show ?thesis using store_step.drop_failed [OF failed(3)] assms(4) by (simp add: doneOr_Failed [OF failed(1)])
  qed
qed

lemma get_step:
  assumes "validID m" "spoolReady sp s"
  shows "store_step (OpGet F st m) (case Read F sp st m s of Inl e \<Rightarrow> Failed | Inr d \<Rightarrow> Got d) (storeOf sp s) (storeOf sp s)"
  using assms ready_paths(2) [OF assms(2,1), of st]
  by (auto simp: Read_def readFile_def storeOf_msgs split: option.split sum.split
      intro!: store_step.get store_step.get_failed dest: fault_faulty)

lemma spoolOp_step:
  assumes "goodOp e" "spoolOp sp e s = (a, s')" "spoolReady sp s"
  shows "store_step e a (storeOf sp s) (storeOf sp s') \<and> spoolReady sp s'"
proof (cases e)
  case (OpPut F t m d)
  then show ?thesis
    using assms put_step [of F m sp t d s] by (auto simp: spoolOp_def goodOp_def split: prod.splits)
next
  case (OpMove F t m a b)
  then show ?thesis
    using assms move_step [of F m sp t a b s] by (auto simp: spoolOp_def goodOp_def split: prod.splits)
next
  case (OpDrop F st m)
  then show ?thesis
    using assms drop_step [of F m sp st s] by (auto simp: spoolOp_def goodOp_def split: prod.splits)
next
  case (OpGet F st m)
  then show ?thesis
    using assms get_step [of m sp s F st] by (auto simp: spoolOp_def goodOp_def)
qed

lemma spoolOps_history:
  assumes "list_all goodOp es" "spoolReady sp s" "spoolOps sp es s = (as, s')"
  shows "store_history (zip es as) (storeOf sp s) (storeOf sp s') \<and> length as = length es \<and> spoolReady sp s'"
  using assms
proof (induction es arbitrary: s as)
  case (Cons e es)
  obtain a s1 where a: "spoolOp sp e s = (a, s1)" by fastforce
  obtain bs where bs: "spoolOps sp es s1 = (bs, s')" "as = a # bs"
    using Cons.prems(3) a by (auto split: prod.splits)
  have "store_step e a (storeOf sp s) (storeOf sp s1)" "spoolReady sp s1"
    using spoolOp_step [OF _ a Cons.prems(2)] Cons.prems(1) by auto
  then show ?case using Cons.IH [OF _ _ bs(1)] Cons.prems(1) bs(2) by auto
qed simp

text \<open>A new spool on an empty disk is the empty table.\<close>

lemma storeOf_new:
  assumes "NewSpool no_faults base ret emptyDisk = (Inr sp, s)"
  shows "storeOf sp s = \<lparr>st_msgs = (\<lambda>_. None), st_stuck = {}\<rparr>" "spoolReady sp s"
  using NewSpool_ready [OF assms]
  by (simp_all add: storeOf_def msgAt_def fileAt_def fun_eq_iff del: map_of_files)

end
