(* ===== verification/SpoolProperties.thy ===== *)
theory SpoolProperties
  imports SpoolRefinement
begin

text \<open>
  The properties of the spool, each with an instance where it has hypotheses.
\<close>

section \<open>A small spool for the instances\<close>

definition demoSpool :: Spool where
  "demoSpool = \<lparr>basePath = ''/q'', retention = [(StageDone, Hour)]\<rparr>"

definition demoDisk :: fs where
  "demoDisk = snd (NewSpool no_faults ''/q'' [(StageDone, Hour)] emptyDisk)"

lemma demo_NewSpool: "NewSpool no_faults ''/q'' [(StageDone, Hour)] emptyDisk = (Inr demoSpool, demoDisk)"
  using NewSpool_total [of "''/q''" "[(StageDone, Hour)]"]
  by (auto simp: demoDisk_def demoSpool_def NewSpool_def Let_def split: prod.splits option.splits)

lemmas demo_ready = NewSpool_ready [OF demo_NewSpool]

lemma demo_free [simp]: "fileAt demoDisk p = None"
  using demo_ready(2) by (simp add: fileAt_def del: map_of_files)

definition demoWritten :: fs where
  "demoWritten = snd (Write no_faults demoSpool 5 ''m'' ''body'' demoDisk)"

lemma demo_Write: "Write no_faults demoSpool 5 ''m'' ''body'' demoDisk = (None, demoWritten)"
  using Write_ready [OF demo_ready(1), of "''m''" 5 "''body''"] by (auto simp: demoWritten_def)

lemma demoWritten_ready: "spoolReady demoSpool demoWritten"
  using Write_ready [OF demo_ready(1), of "''m''" 5 "''body''"] demo_Write by auto

lemma demo_msg: "msgAt demoSpool demoWritten StageIncoming ''m'' = Some ''body''"
  using Write_success(1) [OF demo_Write] by simp

section \<open>Writing and reading\<close>

lemma ListMessages_ready:
  "spoolReady sp s \<Longrightarrow> \<exists>ms. ListMessages no_faults sp st s = Inr ms"
  by (simp add: ListMessages_def readDir_def spoolReady_def)

lemma keys_distinct_single:
  "keys_distinct (files s) \<Longrightarrow> keys_distinct (AList.update p n (files s))"
  by (rule keys_distinct_update)

text \<open>C27: On an empty disk, with no failing system call, the spool is created under any base path; a message with
  any identifier that is not empty and has no slash can be written to it, is read back from
  \<open>incoming\<close> byte for byte, and is the only message listed there.\<close>

theorem spool_roundtrip:
  assumes "validID m" "m \<noteq> []"
  shows "case NewSpool no_faults base ret emptyDisk of
      (Inl e, s0) \<Rightarrow> False
    | (Inr sp, s0) \<Rightarrow>
        (case Write no_faults sp now m d s0 of
           (Some e, s1) \<Rightarrow> False
         | (None, s1) \<Rightarrow>
             Read no_faults sp StageIncoming m s1 = Inr d \<and>
             (case ListMessages no_faults sp StageIncoming s1 of Inl e \<Rightarrow> False | Inr ms \<Rightarrow> set ms = {m}))"
proof -
  obtain sp s0 where sp: "NewSpool no_faults base ret emptyDisk = (Inr sp, s0)" using NewSpool_total by blast
  note new = NewSpool_ready [OF sp]
  have free: "fileAt s0 p = None" for p using new(2) by (simp add: fileAt_def del: map_of_files)
  obtain s1 where w: "Write no_faults sp now m d s0 = (None, s1)" and r: "spoolReady sp s1"
    using Write_ready [OF new(1) assms(1) free] by blast
  obtain ms where ms: "ListMessages no_faults sp StageIncoming s1 = Inr ms"
    using ListMessages_ready [OF r] by blast
  have "msgAt sp s1 StageIncoming k \<noteq> None \<longleftrightarrow> k = m" if "validID k" for k
  proof (cases "k = m")
    case False
    then have "msgAt sp s1 StageIncoming k = msgAt sp s0 StageIncoming k"
      using Write_success(3) [OF w assms(1) that] by simp
    with False free show ?thesis by (simp add: msgAt_def)
  qed (use Write_success(1) [OF w assms(1)] in simp)
  then have "set ms = {m}" using ListMessages_set [OF ms] assms by auto
  then show ?thesis
    using sp w ms Write_success(1) [OF w assms(1)] by (simp add: Read_no_faults)
qed

theorem spool_roundtrip_witness:
  "\<exists>s1. Write no_faults demoSpool 7 ''id'' ''hello'' demoDisk = (None, s1) \<and>
     Read no_faults demoSpool StageIncoming ''id'' s1 = Inr ''hello''"
  using spool_roundtrip [of "''id''", where base = "''/q''" and ret = "[(StageDone, Hour)]" and now = 7 and d = "''hello''"]
  by (auto simp: demo_NewSpool split: prod.splits option.splits)

text \<open>C2: Writing is atomic for a reader, and for the next start after a crash at any moment: whatever
  fails, in every state the disk goes through every message is as before the write, except that the
  new one may be in \<open>tmp\<close> or \<open>incoming\<close>, and then with all of its data. The rename from \<open>tmp\<close> to
  \<open>incoming\<close> must stay on one device.\<close>

theorem write_atomic:
  assumes "Write F sp now m d s = (r, s')" "validID m"
    and "fault F (OpRename (stagePath sp StageTmp m) (stagePath sp StageIncoming m)) \<noteq> Some EXDEV"
  shows "\<forall>al \<in> set (trail s'). al \<in> set (trail s) \<or> wholeView sp s m d al"
  using Write_trail [OF assms] by blast

theorem write_atomic_witness:
  "list_all (\<lambda>al. al \<in> set (trail demoDisk) \<or> wholeView demoSpool demoDisk ''m'' ''body'' al)
     (trail demoWritten)"
  unfolding list_all_iff using write_atomic [OF demo_Write] by simp

text \<open>C3: A message is never lost: under any sequence of moves between stages, of any messages and
  with any failures, as long as renames stay on one device, some stage holds the message with its
  data and no stage ever holds it with other data.\<close>

theorem moves_keep_message:
  assumes "list_all sameDevice es" "validID m" "messageWhole sp m d s"
  shows "messageWhole sp m d (run (runMove sp) s es)"
  using run_moves_whole [OF assms] .

theorem moves_keep_message_witness:
  "messageWhole demoSpool ''m'' ''body''
     (run (runMove demoSpool) demoWritten
        [MoveCall no_faults 9 ''m'' StageIncoming StageParsed,
         MoveCall no_faults 9 ''m'' StageParsed StageFiltered])"
proof (rule moves_keep_message)
  have "msgAt demoSpool demoWritten st ''m'' \<in> {None, Some ''body''}" for st
    using Write_success [OF demo_Write] by (cases "st = StageTmp \<or> st = StageIncoming") (auto simp: msgAt_def)
  then show "messageWhole demoSpool ''m'' ''body'' demoWritten"
    using demo_msg by (auto simp: messageWhole_def)
qed simp_all

text \<open>What was written is what is read after the message has been taken through any stages, each
  visited once, whether the moves are renames or copies across devices.\<close>

theorem spool_write_moves_read:
  assumes "Write F sp now m d s = (None, s1)" "validID m" "distinct (StageIncoming # map snd bs)"
    and "moveAlong (spoolMove sp) m StageIncoming bs s1 = (None, s2)"
    and "Read G sp (last (StageIncoming # map snd bs)) m s2 = Inr d'"
  shows "d' = d"
proof (rule spool_store.write_moves_read)
  show "spoolWrite sp (F, now) m d s = (None, s1)" using assms(1) by simp
  show "spoolRead sp (G, now) (last (StageIncoming # map snd bs)) m s2 = Inr d'" using assms(5) by simp
qed (rule assms)+

lemma demo_move:
  "\<exists>s2. Move no_faults demoSpool 9 ''m'' StageIncoming StageParsed demoWritten = (None, s2)"
proof -
  obtain n where "fileAt demoWritten (stagePath demoSpool StageIncoming ''m'') = Some n"
    using demo_msg by (auto simp: msgAt_def)
  from Move_ready [OF demoWritten_ready _ this] show ?thesis by auto
qed

theorem spool_write_moves_read_witness:
  "\<exists>s2 d'. Move no_faults demoSpool 9 ''m'' StageIncoming StageParsed demoWritten = (None, s2) \<and>
     Read no_faults demoSpool StageParsed ''m'' s2 = Inr d' \<and> d' = ''body''"
proof -
  obtain s2 where mv: "Move no_faults demoSpool 9 ''m'' StageIncoming StageParsed demoWritten = (None, s2)"
    using demo_move by blast
  have "msgAt demoSpool s2 StageParsed ''m'' = Some ''body''" using Move_moves [OF mv] demo_msg by simp
  then have rd: "Read no_faults demoSpool StageParsed ''m'' s2 = Inr ''body''" by (simp add: Read_no_faults)
  have "''body'' = ''body''"
    by (rule spool_write_moves_read [OF demo_Write, of "[((no_faults, 9), StageParsed)]" s2 no_faults])
      (use mv rd in simp_all)
  then show ?thesis using mv rd by blast
qed

text \<open>C28: A move with any failures either moves the message, which then is in the new stage and no
  longer in the old one, or reports an error and leaves it where it was; other messages and other
  stages are never touched.\<close>

theorem move_outcome:
  assumes "Move F sp now m a b s = (r, s')" "validID m" "a \<noteq> b"
  shows "(r = None \<longrightarrow> msgAt sp s a m \<noteq> None \<and> msgAt sp s' b m = msgAt sp s a m \<and> msgAt sp s' a m = None) \<and>
    (r \<noteq> None \<longrightarrow> msgAt sp s' a m = msgAt sp s a m) \<and>
    (\<forall>st k. validID k \<longrightarrow> k \<noteq> m \<or> st \<noteq> a \<and> st \<noteq> b \<longrightarrow> msgAt sp s' st k = msgAt sp s st k)"
proof (intro conjI impI allI)
  assume "r = None"
  then show "msgAt sp s a m \<noteq> None" "msgAt sp s' b m = msgAt sp s a m" "msgAt sp s' a m = None"
    using Move_D(3) [OF assms] by (simp_all add: msgAt_def)
next
  assume "r \<noteq> None"
  then show "msgAt sp s' a m = msgAt sp s a m" using Move_keeps assms by (metis option.exhaust)
next
  fix st k assume "validID k" "k \<noteq> m \<or> st \<noteq> a \<and> st \<noteq> b"
  then show "msgAt sp s' st k = msgAt sp s st k" using Move_frame [OF assms(1,2) _ assms(3)] by blast
qed

theorem move_outcome_witness:
  "\<exists>s'. Move no_faults demoSpool 9 ''m'' StageIncoming StageParsed demoWritten = (None, s') \<and>
     msgAt demoSpool s' StageParsed ''m'' = Some ''body'' \<and> msgAt demoSpool s' StageIncoming ''m'' = None"
proof -
  obtain s2 where mv: "Move no_faults demoSpool 9 ''m'' StageIncoming StageParsed demoWritten = (None, s2)"
    using demo_move by blast
  from move_outcome [OF mv] mv demo_msg show ?thesis by simp
qed

section \<open>Moving across devices\<close>

text \<open>The only failing call is a rename between two devices.\<close>

definition crossDevice :: "path \<Rightarrow> path \<Rightarrow> os_faults" where
  "crossDevice p q = \<lparr>fault = (\<lambda>x. if x = OpRename p q then Some EXDEV else None), short = (\<lambda>_. 0)\<rparr>"

lemma crossDevice_fault [simp]:
  "fault (crossDevice p q) (OpRename p q) = Some EXDEV"
  "fault (crossDevice p q) (OpStat x) = None" "fault (crossDevice p q) (OpOpen x) = None"
  "fault (crossDevice p q) (OpTrunc x) = None" "fault (crossDevice p q) (OpReadFile x) = None"
  "fault (crossDevice p q) (OpWrite x) = None" "fault (crossDevice p q) (OpSync x) = None"
  "fault (crossDevice p q) (OpRemove x) = None"
  by (simp_all add: crossDevice_def)

text \<open>The fallback of a move to a copy is not atomic: between two devices the move succeeds, and
  on the way the new stage holds every beginning of the message, the empty one included.\<close>

theorem cross_device_partial:
  assumes "spoolReady sp s" "validID m" "a \<noteq> b" "msgAt sp s a m = Some d" "k \<le> length d"
  shows "\<exists>s'. Move (crossDevice (stagePath sp a m) (stagePath sp b m)) sp now m a b s = (None, s') \<and>
    msgAt sp s' b m = Some d \<and> (\<exists>al \<in> set (trail s'). msgIn sp al b m = Some (take k d))"
proof -
  let ?p = "stagePath sp a m" and ?q = "stagePath sp b m"
  let ?F = "crossDevice ?p ?q"
  obtain n where n: "fileAt s ?p = Some n" "idata n = d" using assms(4) by (auto simp: msgAt_def)
  define s1 where "s1 = put_files (AList.update ?q \<lparr>idata = [], mtime = now\<rparr> (files s)) s"
  define s2 where "s2 = writeBytes ?q d now (length d) s1"
  define s3 where "s3 = put_files (AList.delete ?p (files s2)) s2"
  have ne: "?p \<noteq> ?q" using assms(2,3) by simp
  have o: "openTrunc ?F ?q now s = (None, s1)"
    using ready_paths [OF assms(1,2), of b] by (simp add: openTrunc_def s1_def)
  have c: "ioCopy ?F now ?p ?q s1 = (None, s2)"
    using n ne by (simp add: ioCopy_def writeFile_def s1_def s2_def)
  have "copyFile ?F now ?p ?q s = (None, s2)"
    using n by (simp add: copyFile_def o c syncFile_def)
  moreover have "fileAt s2 ?p = Some n" using n ne by (simp add: s2_def s1_def)
  ultimately have mv: "Move ?F sp now m a b s = (None, s3)"
    using n by (simp add: Move_def Let_def statFile_def rename_def removeFile_def s3_def)
  have "writePrefix ?q d now (files s1) k \<in> set (trail s3)"
    using assms(5) by (cases "k = length d") (auto simp: s3_def s2_def writeBytes_def)
  moreover have "msgIn sp (writePrefix ?q d now (files s1) k) b m = Some (take k d)"
    by (simp add: msgIn_def writePrefix_def)
  moreover have "msgAt sp s3 b m = Some d" using ne by (simp add: msgAt_def s3_def s2_def)
  ultimately show ?thesis using mv by blast
qed

theorem cross_device_partial_witness:
  "\<exists>s'. Move (crossDevice (stagePath demoSpool StageIncoming ''m'') (stagePath demoSpool StageParsed ''m''))
         demoSpool 9 ''m'' StageIncoming StageParsed demoWritten = (None, s') \<and>
     msgAt demoSpool s' StageParsed ''m'' = Some ''body'' \<and>
     (\<exists>al \<in> set (trail s'). msgIn demoSpool al StageParsed ''m'' = Some ''bo'')"
  using cross_device_partial [OF demoWritten_ready _ _ demo_msg, of StageParsed 2 9] by simp

section \<open>Cleaning up and listing\<close>

text \<open>C17: Cleaning up, without failing calls, removes exactly the files that are older than the
  retention of the stage they are in; a retention that is not positive, and a stage with none (as
  \<open>tmp\<close> in the daemon's configuration), keeps everything.\<close>

theorem cleanup_exact:
  assumes "properDisk s" "\<forall>st. dirExists s (stageDir sp st)"
  shows "fileAt (Cleanup no_faults sp now s) p =
    (if \<exists>(st, ret) \<in> set (retention sp). 0 < ret \<and> dirOf p = stageDir sp st \<and>
          expired now ret (fileAt s p)
     then None else fileAt s p)"
  using Cleanup_no_faults [OF assms] .

lemma demo_proper: "properDisk demoWritten"
proof -
  have only: "fileAt demoWritten p \<noteq> None \<Longrightarrow> p = stagePath demoSpool StageIncoming ''m''" for p
    using Write_ready [OF demo_ready(1), of "''m''" 5 "''body''"] demo_Write Write_success(2) [OF demo_Write]
    by (cases "p = stagePath demoSpool StageTmp ''m'' @ ''.tmp'' \<or> p = stagePath demoSpool StageTmp ''m''")
      (auto simp: msgAt_def)
  have "baseOf (stagePath demoSpool StageIncoming ''m'') = ''m.eml''"
    using baseOf_file [of "''m.eml''"] by (simp add: stagePath_eq)
  then have "properName (baseOf p)" if "fileAt demoWritten p \<noteq> None" for p
    using only [OF that] by simp
  then show ?thesis unfolding properDisk_def by blast
qed

theorem cleanup_exact_witness:
  "fileAt (Cleanup no_faults demoSpool 9 demoWritten) (stagePath demoSpool StageIncoming ''m'') =
     fileAt demoWritten (stagePath demoSpool StageIncoming ''m'')"
proof -
  have "\<forall>st. dirExists demoWritten (stageDir demoSpool st)"
    using demoWritten_ready by (simp add: spoolReady_def)
  from cleanup_exact [OF demo_proper this, of 9 "stagePath demoSpool StageIncoming ''m''"]
  show ?thesis
    by (simp add: demoSpool_def dirOf_stagePath stageDir_inj [of "\<lparr>basePath = ''/q'', retention = [(StageDone, Hour)]\<rparr>"])
qed

text \<open>C16: Cleaning up with any failing calls never removes a file that is younger than the retention of
  its stage, nor one outside the stages, and changes no file.\<close>

theorem cleanup_safe:
  assumes "properDisk s" "fileAt (Cleanup F sp now s) p \<noteq> fileAt s p"
  shows "fileAt (Cleanup F sp now s) p = None \<and>
    (\<exists>st ret n. (st, ret) \<in> set (retention sp) \<and> 0 < ret \<and> dirOf p = stageDir sp st \<and>
       fileAt s p = Some n \<and> ret < timeSub now (mtime n))"
  using Cleanup_file [OF assms(1), of F sp now p] assms(2)
  by (cases "fileAt s p") (auto simp: expired_def)

definition demoOld :: fs where
  "demoOld = put_files [(stagePath demoSpool StageDone ''m'', \<lparr>idata = ''x'', mtime = 0\<rparr>)] demoWritten"

theorem cleanup_safe_witness:
  "fileAt (Cleanup no_faults demoSpool (2 * Hour) demoOld) (stagePath demoSpool StageDone ''m'') = None"
proof -
  let ?p = "stagePath demoSpool StageDone ''m''"
  have base: "baseOf ?p = ''m.eml''" using baseOf_file [of "''m.eml''"] by (simp add: stagePath_eq)
  have pr: "properDisk demoOld" using base by (auto simp: properDisk_def demoOld_def split: if_splits)
  have dirs: "\<forall>st. dirExists demoOld (stageDir demoSpool st)"
    using demoWritten_ready by (simp add: demoOld_def spoolReady_def)
  have "fileAt (Cleanup no_faults demoSpool (2 * Hour) demoOld) ?p \<noteq> fileAt demoOld ?p"
    unfolding Cleanup_no_faults [OF pr dirs]
    by (simp add: demoOld_def demoSpool_def dirOf_stagePath expired_def timeSub_def Hour_def)
  from cleanup_safe [OF pr this] show ?thesis by simp
qed

text \<open>Listing a stage gives each of its messages once: the identifiers are exactly those, not empty
  and without a slash, of the messages in the stage.\<close>

theorem list_exact:
  assumes "ListMessages F sp st s = Inr ms" "keys_distinct (files s)"
  shows "set ms = {m. validID m \<and> m \<noteq> [] \<and> msgAt sp s st m \<noteq> None} \<and> distinct ms \<and>
    Count F sp st s = Inr (card {m. validID m \<and> m \<noteq> [] \<and> msgAt sp s st m \<noteq> None})"
proof -
  have st: "set ms = {m. validID m \<and> m \<noteq> [] \<and> msgAt sp s st m \<noteq> None}"
    using ListMessages_set [OF assms(1)] by blast
  moreover have "distinct ms" using ListMessages_distinct [OF assms] .
  moreover have "Count F sp st s = Inr (length ms)" by (simp add: Count_def assms(1))
  ultimately show ?thesis by (metis distinct_card)
qed

theorem list_exact_witness:
  "\<exists>ms. ListMessages no_faults demoSpool StageDone demoOld = Inr ms \<and> distinct ms \<and> ''m'' \<in> set ms"
proof -
  have "spoolReady demoSpool demoOld" using demoWritten_ready by (simp add: demoOld_def)
  then obtain ms where ms: "ListMessages no_faults demoSpool StageDone demoOld = Inr ms"
    using ListMessages_ready by blast
  have "keys_distinct (files demoOld)" by (simp add: demoOld_def)
  from list_exact [OF ms this] ms show ?thesis by (auto simp: msgAt_def demoOld_def)
qed

section \<open>The spool as a table\<close>

text \<open>C4: The spool refines a table of messages: whatever sequence of writes, moves, deletions and reads is carried out,
  with any calls failing but on one device, the answers and the messages on the disk are those of a
  history of the table, in which an operation does what it says or fails without effect, except that
  a failed write may leave its message in \<open>tmp\<close> or its temporary file; and it fails only for a failing
  call, a message that is not there, or such a file.\<close>

theorem spool_refines:
  assumes "spoolReady sp s0" "list_all goodOp es" "spoolOps sp es s0 = (as, s)"
  shows "store_history (zip es as) (storeOf sp s0) (storeOf sp s) \<and> length as = length es"
  using spoolOps_history [OF assms(2,1,3)] by simp

definition demoOps :: "spool_op list" where
  "demoOps = [OpMove no_faults 9 ''m'' StageIncoming StageParsed, OpGet no_faults StageIncoming ''m'',
     OpGet no_faults StageParsed ''m'']"

theorem spool_refines_witness:
  "\<exists>s a. store_history (zip demoOps [a, Failed, Got ''body'']) (storeOf demoSpool demoWritten) (storeOf demoSpool s)"
proof -
  obtain s2 where mv: "Move no_faults demoSpool 9 ''m'' StageIncoming StageParsed demoWritten = (None, s2)"
    using demo_move by blast
  have "msgAt demoSpool s2 StageParsed ''m'' = Some ''body''" "msgAt demoSpool s2 StageIncoming ''m'' = None"
    using Move_moves [OF mv] demo_msg by simp_all
  then have "Read no_faults demoSpool StageParsed ''m'' s2 = Inr ''body''"
    "\<exists>e. Read no_faults demoSpool StageIncoming ''m'' s2 = Inl e"
    using Read_no_faults by (auto, metis option.distinct(1) sumE)
  then have "spoolOps demoSpool demoOps demoWritten = ([Done, Failed, Got ''body''], s2)"
    using mv by (auto simp: demoOps_def spoolOp_def doneOr_def)
  moreover have "list_all goodOp demoOps" by (simp add: demoOps_def goodOp_def oneDevice_def)
  ultimately show ?thesis using spool_refines [OF demoWritten_ready] by blast
qed

end
