(* ===== verification/SessionProperties.thy ===== *)
theory SessionProperties
  imports SessionLaws SpoolProperties
begin

text \<open>
  The properties of the SMTP session, each with an instance where it has hypotheses.
\<close>

section \<open>How a session became authenticated\<close>

lemma sessionCall_authenticated:
  assumes "sessionCall R b (s, q, w) c = (s', q', w')" "authenticated s'" "\<not> authenticated s"
  shows "\<exists>x rs q0. c = CallNext x rs \<and> q = Some q0 \<and> fst (Next R b x rs q0 s w) = SaslDone"
  using assms
  by (cases "(R, b, (s, q, w), c)" rule: sessionCall.cases)
    (auto simp: Reset_def split: prod.splits option.splits dest!: Mail_D Rcpt_D Data_D Next_D)

lemma run_authenticated:
  assumes "\<not> authenticated (fst st0)" "authenticated (fst (run (sessionCall R b) st0 cs))"
  shows "\<exists>pre x rs post s q w. cs = pre @ CallNext x rs # post \<and>
    run (sessionCall R b) st0 pre = (s, Some q, w) \<and> fst (Next R b x rs q s w) = SaslDone"
  using assms(2)
proof (induction cs rule: rev_induct)
  case (snoc c cs)
  obtain s q w where st: "run (sessionCall R b) st0 cs = (s, q, w)" by (metis prod_cases3)
  obtain s' q' w' where st': "sessionCall R b (s, q, w) c = (s', q', w')" by (metis prod_cases3)
  show ?case
  proof (cases "authenticated s")
    case True
    then obtain pre x rs post s0 q0 w0 where "cs = pre @ CallNext x rs # post"
      "run (sessionCall R b) st0 pre = (s0, Some q0, w0)" "fst (Next R b x rs q0 s0 w0) = SaslDone"
      using snoc.IH st by auto
    then show ?thesis
      by (intro exI [of _ pre] exI [of _ x] exI [of _ rs] exI [of _ "post @ [c]"] exI) auto
  next
    case False
    have "authenticated s'" using snoc.prems st st' by (simp add: run_append)
    from sessionCall_authenticated [OF st' this False] st show ?thesis
      by (intro exI [of _ cs]) auto
  qed
qed (use assms(1) in simp)

section \<open>A session for the instances\<close>

text \<open>A server that answers \<open>GET\<close> with one string and any other command with zero.\<close>

definition oneRedis :: "string \<Rightarrow> 'r redis" where
  "oneRedis v cs r = (map (\<lambda>c. case c of CGet k \<Rightarrow> RStr v | _ \<Rightarrow> RInt 0) cs, r)"

lemma redis1_oneRedis [simp]:
  "redis1 (oneRedis v) c r = ((case c of CGet k \<Rightarrow> RStr v | _ \<Rightarrow> RInt 0), r)"
  by (simp add: redis1_def oneRedis_def)

definition demoConfig :: Config where
  "demoConfig = DefaultConfig\<lparr>cfg_SMTP := (cfg_SMTP DefaultConfig)\<lparr>smtp_MaxMessageSize := 8, smtp_MaxRecipients := 2\<rparr>\<rparr>"

definition demoBackend :: Backend where
  "demoBackend = \<lparr>be_config = demoConfig, be_spool = demoSpool, be_ipAuth = None\<rparr>"

definition roomyLimits :: limits where
  "roomyLimits = \<lparr>userMessagesPerHour = 9, userRecipientsPerHour = 9, ipConnectionsPerMinute = 9,
     ipFailedAuthPerHour = 9, globalMessagesPerSecond = 9, globalConcurrentConns = 9\<rparr>"

definition demoServer :: "unit sworld" where
  "demoServer = \<lparr>rds = (), mets = [], limiter = NewLimiter roomyLimits, disk = demoDisk\<rparr>"

definition demoSession :: Session where
  "demoSession = \<lparr>sessionID = ''s'', clientIP = ''10.0.0.1'', authUser = [], authenticated = False,
     mailFrom = [], rcptTo = [], tlsState = None, startTime = 0\<rparr>"

definition demoAuthEnv :: auth_env where
  "demoAuthEnv = \<lparr>ae_now = 0, ae_elapsed = 0, ae_redis = 0\<rparr>"

definition demoCalls :: "session_call list" where
  "demoCalls =
     [CallAuth ''PLAIN'', CallNext demoAuthEnv (CHR 0x00 # ''u'' @ CHR 0x00 # ''pw''),
      CallMail 0 0 ''a@b'', CallRcpt ''c@d'']"

definition readySession :: Session where
  "readySession = demoSession\<lparr>authUser := ''u'', authenticated := True, mailFrom := ''a@b'', rcptTo := [''c@d'']\<rparr>"

lemma limiter_set_rds [simp]: "limiter (set_rds r w) = limiter w"
  by (simp add: set_rds_def)

lemma checkLimit_oneRedis: "0 \<le> n \<Longrightarrow> checkLimit (oneRedis v) now k n d w = (True, w\<lparr>rds := rds w\<rparr>)"
  by (simp add: checkLimit_def checkRedisLimit_def oneRedis_def)

lemma demo_run:
  "\<exists>q w. run (sessionCall (oneRedis ''pw'') demoBackend) (demoSession, None, demoServer) demoCalls =
     (readySession, Some q, w) \<and> limiter w = NewLimiter roomyLimits \<and> disk w = demoDisk"
proof -
  have auth: "\<exists>w1. authenticate (oneRedis ''pw'') demoBackend demoAuthEnv ''u'' ''pw'' demoSession demoServer =
      (SaslDone, demoSession\<lparr>authUser := ''u'', authenticated := True\<rparr>, w1) \<and>
      limiter w1 = NewLimiter roomyLimits \<and> disk w1 = demoDisk"
    by (simp add: authenticate_def demoBackend_def CheckIPFailedAuth_def checkLimit_oneRedis demoServer_def
        NewLimiter_def roomyLimits_def Authenticate_def Let_def set_rds_def record_metric_def)
  then obtain w1 where a: "authenticate (oneRedis ''pw'') demoBackend demoAuthEnv ''u'' ''pw'' demoSession demoServer =
      (SaslDone, demoSession\<lparr>authUser := ''u'', authenticated := True\<rparr>, w1)"
    and w1: "limiter w1 = NewLimiter roomyLimits" "disk w1 = demoDisk" by blast
  have n: "Next (oneRedis ''pw'') demoBackend demoAuthEnv (CHR 0x00 # ''u'' @ CHR 0x00 # ''pw'')
      (NewSasl ''PLAIN'') demoSession demoServer =
      (SaslDone, NewSasl ''PLAIN'', demoSession\<lparr>authUser := ''u'', authenticated := True\<rparr>, w1)"
    using nextPlain_response [of "''u''" "''pw''" "oneRedis ''pw''" demoBackend demoAuthEnv demoSession demoServer] a
    by (simp add: Next_def NewSasl_def)
  let ?s = "demoSession\<lparr>authUser := ''u'', authenticated := True\<rparr>"
  have m: "\<exists>w2. Mail (oneRedis ''pw'') 0 0 ''a@b'' ?s w1 = (None, ?s\<lparr>mailFrom := ''a@b''\<rparr>, w2) \<and>
      limiter w2 = NewLimiter roomyLimits \<and> disk w2 = demoDisk"
    using w1 by (simp add: Mail_def CheckUserMessages_def CheckGlobalMessages_def checkLimit_oneRedis
        NewLimiter_def roomyLimits_def)
  then obtain w2 where m2: "Mail (oneRedis ''pw'') 0 0 ''a@b'' ?s w1 = (None, ?s\<lparr>mailFrom := ''a@b''\<rparr>, w2)"
    and w2: "limiter w2 = NewLimiter roomyLimits" "disk w2 = demoDisk" by blast
  have r: "Rcpt demoBackend ''c@d'' (?s\<lparr>mailFrom := ''a@b''\<rparr>) = (None, readySession)"
    by (simp add: Rcpt_def readySession_def demoBackend_def demoConfig_def demoSession_def)
  show ?thesis
    using w2 by (simp only: demoCalls_def run.simps sessionCall.simps n m2 r prod.case) simp
qed

lemma demo_Data:
  assumes "limiter w = NewLimiter roomyLimits" "disk w = demoDisk"
  shows "\<exists>w'. Data (oneRedis ''pw'') demoBackend (no_faults, 7) ''id'' (''hello'', False) readySession w =
    (None, readySession, w')"
proof -
  obtain k where k: "Write no_faults demoSpool 7 ''id'' ''hello'' demoDisk = (None, k)"
    using Write_ready [OF demo_ready(1), of "''id''" 7 "''hello''"] by auto
  have s: "sscanfD ''pw'' = None" by (simp add: sscanfD_def parseDigits_def isDigit_def)
  have "CheckUserRecipients (oneRedis ''pw'') ''u'' 1 w = (None, w\<lparr>rds := rds w\<rparr>)"
    using assms s by (simp add: recipient_defs currentCount_def wrap64_def NewLimiter_def
        roomyLimits_def oneRedis_def)
  then show ?thesis
    using assms k by (simp add: Data_def readySession_def demoSession_def demoBackend_def demoConfig_def
        readLimited_def wrap64_def Let_def)
qed

section \<open>Sending\<close>

text \<open>C6: Whatever calls the library makes, in whatever order, a message is accepted only in a session
  in which the client has authenticated before, in a dialogue that ended with success, and with at
  least one and at most the configured number of recipients.\<close>

theorem accepted_authenticated:
  assumes "freshSession st0" "run (sessionCall R b) st0 cs = (s, q, w)"
    and "Data R b x m r s w = (None, s', w')"
  shows "authenticated s \<and> 1 \<le> length (rcptTo s) \<and>
    int (length (rcptTo s)) \<le> smtp_MaxRecipients (cfg_SMTP (be_config b)) \<and>
    (\<exists>pre y rs post s1 q1 w1. cs = pre @ CallNext y rs # post \<and>
       run (sessionCall R b) st0 pre = (s1, Some q1, w1) \<and> fst (Next R b y rs q1 s1 w1) = SaslDone)"
proof -
  have a: "authenticated s \<and> int (length (rcptTo s)) \<le> smtp_MaxRecipients (cfg_SMTP (be_config b)) \<and> rcptTo s \<noteq> []"
    by (rule Data_authenticated [OF assms])
  moreover have "\<exists>pre y rs post s1 q1 w1. cs = pre @ CallNext y rs # post \<and>
       run (sessionCall R b) st0 pre = (s1, Some q1, w1) \<and> fst (Next R b y rs q1 s1 w1) = SaslDone"
    by (rule run_authenticated) (use assms(1,2) a in \<open>simp_all add: freshSession_def\<close>)
  ultimately show ?thesis by (cases "rcptTo s") simp_all
qed

theorem accepted_authenticated_witness:
  "\<exists>q w w'. run (sessionCall (oneRedis ''pw'') demoBackend) (demoSession, None, demoServer) demoCalls =
       (readySession, q, w) \<and>
     Data (oneRedis ''pw'') demoBackend (no_faults, 7) ''id'' (''hello'', False) readySession w =
       (None, readySession, w') \<and> authenticated readySession \<and> 1 \<le> length (rcptTo readySession)"
proof -
  obtain q w where r: "run (sessionCall (oneRedis ''pw'') demoBackend) (demoSession, None, demoServer) demoCalls =
      (readySession, Some q, w)" "limiter w = NewLimiter roomyLimits" "disk w = demoDisk"
    using demo_run by blast
  obtain w' where d: "Data (oneRedis ''pw'') demoBackend (no_faults, 7) ''id'' (''hello'', False) readySession w =
      (None, readySession, w')"
    using demo_Data [OF r(2,3)] by blast
  have "freshSession (demoSession, None :: saslServer option, demoServer)"
    by (simp add: freshSession_def demoSession_def)
  from accepted_authenticated [OF this r(1) d] r(1) d show ?thesis by blast
qed

text \<open>C18: An accepted message was read to its end without an error, is no longer than the configured
  size, and is in the spool's \<open>incoming\<close> stage byte for byte; the other messages are as before. The configured
  maximal size must be below the largest 64-bit integer; at that value it does not hold (\<open>size_overflow\<close>).\<close>

theorem accepted_whole:
  assumes "Data R b x m r s w = (None, s', w')" "validID m"
    and "0 < smtp_MaxMessageSize (cfg_SMTP (be_config b))" "smtp_MaxMessageSize (cfg_SMTP (be_config b)) < MaxInt64"
  shows "snd r = False \<and> int (length (fst r)) \<le> smtp_MaxMessageSize (cfg_SMTP (be_config b)) \<and>
    msgAt (be_spool b) (disk w') StageIncoming m = Some (fst r) \<and>
    (\<forall>k st. validID k \<longrightarrow> k \<noteq> m \<longrightarrow>
       msgAt (be_spool b) (disk w') st k = msgAt (be_spool b) (disk w) st k)"
proof -
  obtain buf where buf: "readLimited (wrap64 (smtp_MaxMessageSize (cfg_SMTP (be_config b)) + 1)) r = (buf, False)"
    "int (length buf) \<le> smtp_MaxMessageSize (cfg_SMTP (be_config b))"
    "spoolWrite (be_spool b) x m buf (disk w) = (None, disk w')"
    using Data_success [OF assms(1)] by blast
  have "r = (buf, False)"
    using readLimited_whole [OF _ _ buf(1,2)] assms(3,4) by simp
  then show ?thesis
    using buf(2) Write_success [OF buf(3) assms(2)] by simp
qed

theorem accepted_whole_witness:
  "\<exists>w'. Data (oneRedis ''pw'') demoBackend (no_faults, 7) ''id'' (''hello'', False) readySession demoServer =
       (None, readySession, w') \<and> msgAt demoSpool (disk w') StageIncoming ''id'' = Some ''hello''"
proof -
  obtain w' where d: "Data (oneRedis ''pw'') demoBackend (no_faults, 7) ''id'' (''hello'', False) readySession demoServer =
      (None, readySession, w')"
    using demo_Data [of demoServer] by (auto simp: demoServer_def)
  have "be_spool demoBackend = demoSpool" "smtp_MaxMessageSize (cfg_SMTP (be_config demoBackend)) = 8"
    by (simp_all add: demoBackend_def demoConfig_def)
  with accepted_whole [OF d] d show ?thesis by simp
qed

text \<open>The configuration accepts the largest integer as the maximal message size, but the reader's
  limit is that size plus one, which wraps around: then every message is accepted, whatever its
  contents and even when reading it fails, and what is spooled is empty.\<close>

theorem size_overflow:
  assumes "Data R b x m r s w = (None, s', w')" "validID m"
    and "smtp_MaxMessageSize (cfg_SMTP (be_config b)) = MaxInt64"
  shows "msgAt (be_spool b) (disk w') StageIncoming m = Some []"
proof -
  have "wrap64 (smtp_MaxMessageSize (cfg_SMTP (be_config b)) + 1) = - 9223372036854775808"
    unfolding assms(3) by (rule wrap64_Max)
  then obtain buf where "buf = []" "spoolWrite (be_spool b) x m buf (disk w) = (None, disk w')"
    using Data_success [OF assms(1)] by (auto simp: readLimited_def)
  then show ?thesis using Write_success(1) assms(2) by blast
qed

definition hugeBackend :: Backend where
  "hugeBackend = demoBackend\<lparr>be_config := demoConfig\<lparr>cfg_SMTP := (cfg_SMTP demoConfig)\<lparr>smtp_MaxMessageSize := MaxInt64\<rparr>\<rparr>\<rparr>"

theorem size_overflow_witness:
  "\<exists>w'. Data (oneRedis ''pw'') hugeBackend (no_faults, 7) ''id'' (''hello'', True) readySession demoServer =
       (None, readySession, w') \<and> msgAt demoSpool (disk w') StageIncoming ''id'' = Some [] \<and>
     configOK (be_config hugeBackend)"
proof -
  obtain k where k: "Write no_faults demoSpool 7 ''id'' [] demoDisk = (None, k)"
    using Write_ready [OF demo_ready(1), of "''id''" 7 "[]"] by auto
  have s: "sscanfD ''pw'' = None" by (simp add: sscanfD_def parseDigits_def isDigit_def)
  have "CheckUserRecipients (oneRedis ''pw'') ''u'' 1 demoServer = (None, demoServer\<lparr>rds := rds demoServer\<rparr>)"
    using s by (simp add: recipient_defs currentCount_def wrap64_def NewLimiter_def
        roomyLimits_def oneRedis_def demoServer_def)
  then have "\<exists>w'. Data (oneRedis ''pw'') hugeBackend (no_faults, 7) ''id'' (''hello'', True) readySession demoServer =
      (None, readySession, w')"
    using k by (simp add: Data_def readySession_def demoSession_def hugeBackend_def demoBackend_def
        readLimited_def wrap64_def Let_def demoServer_def)
  then obtain w' where d: "Data (oneRedis ''pw'') hugeBackend (no_faults, 7) ''id'' (''hello'', True) readySession demoServer =
      (None, readySession, w')" by blast
  have "smtp_MaxMessageSize (cfg_SMTP (be_config hugeBackend)) = MaxInt64" "be_spool hugeBackend = demoSpool"
    by (simp_all add: hugeBackend_def demoBackend_def)
  moreover have "configOK (be_config hugeBackend)"
    using DefaultConfig_OK by (simp add: configOK_def hugeBackend_def demoBackend_def demoConfig_def)
  ultimately show ?thesis using size_overflow [OF d] d by simp
qed

text \<open>Every call of \<open>Data\<close> that gets past the missing recipients is counted once: as an accepted
  message when it reports success, as a rejected one when it reports an error. So the two counters
  together tell how often it was called.\<close>

theorem data_counted:
  "case Data R b x m r s w of (e, s', w') \<Rightarrow>
     acceptedTotal (mets w') = acceptedTotal (mets w) + (if e = None then 1 else 0) \<and>
     rejectedTotal (mets w') = rejectedTotal (mets w) + (if e \<noteq> None \<and> rcptTo s \<noteq> [] then 1 else 0)"
  using Data_totals [of R b x m r s w] by (auto split: prod.split)

text \<open>Nothing but a successful or failing write to the spool changes the disk: a call other than
  \<open>Data\<close>, and \<open>Data\<close> without recipients, over the limit, after a read error or for a message too large,
  leaves it as it is.\<close>

theorem session_disk:
  assumes "sessionCall R b (s, q, w) c = (s', q', w')" "disk w' \<noteq> disk w"
  shows "\<exists>x m r buf e. c = CallData x m r \<and> rcptTo s \<noteq> [] \<and> spoolWrite (be_spool b) x m buf (disk w) = (e, disk w')"
proof -
  obtain x m r where c: "c = CallData x m r" "rcptTo s \<noteq> []"
    using sessionCall_disk [OF assms] by blast
  obtain e where "Data R b x m r s w = (e, s', w')"
    using assms(1) c(1) by (auto split: prod.splits)
  from Data_D [OF this] c assms(2) show ?thesis by blast
qed

theorem session_disk_witness:
  "\<exists>s' q' w' buf e. sessionCall (oneRedis ''pw'') demoBackend (readySession, None, demoServer)
       (CallData (no_faults, 7) ''id'' (''hello'', False)) = (s', q', w') \<and>
     spoolWrite demoSpool (no_faults, 7) ''id'' buf demoDisk = (e, disk w')"
proof -
  obtain w' where d: "Data (oneRedis ''pw'') demoBackend (no_faults, 7) ''id'' (''hello'', False) readySession demoServer =
      (None, readySession, w')"
    using demo_Data [of demoServer] by (auto simp: demoServer_def)
  have sp: "be_spool demoBackend = demoSpool" "disk demoServer = demoDisk"
    by (simp_all add: demoBackend_def demoServer_def)
  have c: "sessionCall (oneRedis ''pw'') demoBackend (readySession, None, demoServer)
       (CallData (no_faults, 7) ''id'' (''hello'', False)) = (readySession, None, w')"
    by (simp add: d)
  have "msgAt demoSpool (disk w') StageIncoming ''id'' = Some ''hello''"
    using Data_success [OF d] sp Write_success(1) [of no_faults demoSpool 7 "''id''" _ demoDisk]
    by (auto simp: readLimited_def demoBackend_def demoConfig_def wrap64_def)
  then have "disk w' \<noteq> disk demoServer" by (auto simp: msgAt_def sp)
  from session_disk [OF c this] c sp show ?thesis by auto
qed

section \<open>Authenticating\<close>

text \<open>C9: A client that is not on the allowlist gets through only with the password that Redis holds
  for the user at that moment, and only when its address is within the limit on attempts; the
  session then belongs to that user.\<close>

theorem password_needed:
  assumes "redis_stores R look" "authenticate R b x u p s w = (SaslDone, s', w')"
    and "\<not> ipAllows b (clientIP s)"
  shows "(\<exists>w1. CheckIPFailedAuth R (ae_now x) (clientIP s) w = (None, w1) \<and>
            look (rds w1) (passwordKey u) = Some p) \<and>
    s' = s\<lparr>authUser := u, authenticated := True\<rparr>"
proof -
  obtain w1 where w1: "CheckIPFailedAuth R (ae_now x) (clientIP s) w = (None, w1)"
    "Authenticate R (ae_redis x) u p w1 = (None, w')"
    using authenticate_done [OF assms(2,3)] by blast
  then show ?thesis
    using Authenticate_stored [OF assms(1) w1(2)] authenticate_session [OF assms(2)] by auto
qed

definition memServer :: "mem_redis lworld" where
  "memServer = \<lparr>rds = [(passwordKey ''u'', ''pw'')], mets = [], limiter = NewLimiter roomyLimits\<rparr>"

lemma mem_authenticate:
  "\<exists>w'. authenticate memRedis demoBackend demoAuthEnv ''u'' ''pw'' demoSession memServer =
     (SaslDone, demoSession\<lparr>authUser := ''u'', authenticated := True\<rparr>, w')"
proof -
  have ne: "passwordKey ''u'' \<noteq> ipAuthKey ''10.0.0.1''" by (simp add: passwordKey_def ipAuthKey_def)
  then have "memInt [(passwordKey ''u'', ''pw'')] (ipAuthKey ''10.0.0.1'') = 0" by (simp add: memInt_def)
  then show ?thesis
    using ne
    by (simp add: authenticate_def demoBackend_def CheckIPFailedAuth_def checkLimit_def checkRedisLimit_def
        memServer_def NewLimiter_def roomyLimits_def Authenticate_def Let_def demoSession_def)
qed

theorem password_needed_witness:
  "\<exists>(w1 :: mem_redis lworld) w'. authenticate memRedis demoBackend demoAuthEnv ''u'' ''pw'' demoSession memServer =
       (SaslDone, demoSession\<lparr>authUser := ''u'', authenticated := True\<rparr>, w') \<and>
     map_of (rds w1) (passwordKey ''u'') = Some ''pw''"
proof -
  obtain w' where a: "authenticate memRedis demoBackend demoAuthEnv ''u'' ''pw'' demoSession memServer =
     (SaslDone, demoSession\<lparr>authUser := ''u'', authenticated := True\<rparr>, w')"
    using mem_authenticate by blast
  have "\<not> ipAllows demoBackend (clientIP demoSession)" by (simp add: ipAllows_def demoBackend_def)
  from password_needed [OF redis_stores_memRedis a this] a show ?thesis by blast
qed

text \<open>The dialogue of LOGIN asks for the user name, then for the password, and authenticates with the
  two answers; whatever the client sends with the command itself is not used.\<close>

theorem login_three_steps:
  assumes "Next R b x1 r1 (NewSasl ''LOGIN'') s w = (a1, q1, s1, w1)"
    and "Next R b x2 u q1 s1 w1 = (a2, q2, s2, w2)"
    and "Next R b x3 p q2 s2 w2 = (a3, q3, s3, w3)"
  shows "a1 = SaslChallenge ''Username:'' \<and> a2 = SaslChallenge ''Password:'' \<and>
    (a3, s3, w3) = authenticate R b x3 u p s w"
  using login_dialogue [OF assms] .

theorem login_three_steps_witness:
  "\<exists>q3 w3. (case Next memRedis demoBackend demoAuthEnv [] (NewSasl ''LOGIN'') demoSession memServer of
      (a1, q1, s1, w1) \<Rightarrow>
        (case Next memRedis demoBackend demoAuthEnv ''u'' q1 s1 w1 of
           (a2, q2, s2, w2) \<Rightarrow> Next memRedis demoBackend demoAuthEnv ''pw'' q2 s2 w2)) =
      (SaslDone, q3, demoSession\<lparr>authUser := ''u'', authenticated := True\<rparr>, w3)"
proof -
  obtain a1 q1 s1 w1 where 1: "Next memRedis demoBackend demoAuthEnv [] (NewSasl ''LOGIN'') demoSession memServer =
      (a1, q1, s1, w1)" by (metis prod_cases4)
  obtain a2 q2 s2 w2 where 2: "Next memRedis demoBackend demoAuthEnv ''u'' q1 s1 w1 = (a2, q2, s2, w2)"
    by (metis prod_cases4)
  obtain a3 q3 s3 w3 where 3: "Next memRedis demoBackend demoAuthEnv ''pw'' q2 s2 w2 = (a3, q3, s3, w3)"
    by (metis prod_cases4)
  obtain w' where "authenticate memRedis demoBackend demoAuthEnv ''u'' ''pw'' demoSession memServer =
     (SaslDone, demoSession\<lparr>authUser := ''u'', authenticated := True\<rparr>, w')"
    using mem_authenticate by blast
  with login_three_steps [OF 1 2 3] 1 2 3 show ?thesis by simp
qed

section \<open>Opening and closing\<close>



end
