(* ===== verification/AuthProperties.thy ===== *)
theory AuthProperties
  imports IPAuth RedisAuth Config
begin

text \<open>
  The properties of the authenticators and of the configuration, each with an instance where it has
  hypotheses.
\<close>

section \<open>The allowlist\<close>

lemma demo_addr:
  "parseAddr ''10.1.0.0'' = Some (True, v4InV6Prefix @ [10, 1, 0, 0])"
  "parseAddr ''10.1.2.3'' = Some (True, v4InV6Prefix @ [10, 1, 2, 3])"
  "parseAddr ''2001:db8::1'' = Some (False, [0x20, 1, 0x0d, 0xb8, 0, 0, 0, 0, 0, 0, 0, 0, 0, 0, 0, 1])"
  by code_simp+

text \<open>An entry of the allowlist that is, blanks aside, the network \<open>addr/n\<close>.\<close>

type_synonym network_entry = "string \<times> string \<times> bool \<times> ipbytes \<times> nat"

fun networkEntry :: "network_entry \<Rightarrow> bool" where
  "networkEntry (e, addr, v4, b, n) \<longleftrightarrow>
     trimSpace e = addr @ CHR ''/'' # showNat n \<and> CHR ''/'' \<notin> set addr \<and> parseAddr addr = Some (v4, b) \<and>
     n \<le> (if v4 then 32 else 128) \<and> (v4 \<or> To4 b = None)"

lemma networkEntry_parses:
  assumes "networkEntry (e, addr, v4, b, n)"
  shows "\<exists>net. ParseCIDR (trimSpace e) = Some net \<and> (\<forall>ip. length ip = 16 \<longrightarrow> (Contains net ip \<longleftrightarrow> inNetwork v4 b n ip))"
proof -
  have e: "parseAddr addr = Some (v4, b)" "CHR ''/'' \<notin> set addr" "n \<le> (if v4 then 32 else 128)" "v4 \<or> To4 b = None"
    "trimSpace e = addr @ CHR ''/'' # showNat n"
    using assms by simp_all
  have a: "length b = 16" by (rule parseAddr_length [OF e(1)])
  note cidr = ParseCIDR_eq [OF e(1-3)]
  show ?thesis
  proof (cases v4)
    case True
    then obtain v where v: "b = v4InV6Prefix @ v" "length v = 4" using parseAddr_v4 [of addr b] e(1) by auto
    show ?thesis using cidr True e(3,5) Contains_v4 [OF v(2), of _ n] v(1) by simp
  next
    case False
    then show ?thesis using cidr e(3-5) Contains_v6 [OF a, of _ n] by simp
  qed
qed

lemma networks_accepted:
  assumes "list_all networkEntry ns"
  shows "\<exists>a'. addAllowed (map fst ns) a = Inr a' \<and> fst (GetAllowedCount a') = fst (GetAllowedCount a) \<and>
    snd (GetAllowedCount a') = snd (GetAllowedCount a) + length ns"
  using assms
proof (induction ns arbitrary: a)
  case (Cons x ns)
  obtain e addr v4 b n where x: "x = (e, addr, v4, b, n)" by (cases x) auto
  then obtain net where net: "ParseCIDR (trimSpace e) = Some net" using networkEntry_parses Cons.prems by fastforce
  have e: "trimSpace e \<noteq> []" "CHR ''/'' \<in> set (trimSpace e)" using Cons.prems x by auto
  show ?case
    using Cons.IH [of "a\<lparr>allowedCIDRs := allowedCIDRs a @ [net]\<rparr>"] Cons.prems net e
    by (auto simp: x Let_def GetAllowedCount_def)
qed (simp add: GetAllowedCount_def)

text \<open>C19: A configured list of networks \<open>address/length\<close>, blanks aside, is accepted, every one of them is kept, and
  a client is allowed exactly when its address parses and for one of the networks is of its family and
  agrees with it on the bits of the prefix, as numbers. (A network in IPv6 notation must not be one of
  IPv4 addresses.)\<close>

theorem network_membership:
  assumes "list_all networkEntry ns"
  shows "case NewIPAuthenticator (map fst ns) of
      Inl e \<Rightarrow> False
    | Inr a \<Rightarrow>
        GetAllowedCount a = (0, length ns) \<and>
        (IsAllowed a s \<longleftrightarrow>
           (case ParseIP s of
              None \<Rightarrow> False
            | Some ip \<Rightarrow> list_ex (\<lambda>(e, addr, v4, b, n). inNetwork v4 b n ip) ns))"
proof -
  obtain a where a: "NewIPAuthenticator (map fst ns) = Inr a" "GetAllowedCount a = (0, length ns)"
    using networks_accepted [OF assms, of "\<lparr>allowedIPs = [], allowedCIDRs = []\<rparr>"]
    by (auto simp: NewIPAuthenticator_def GetAllowedCount_def)
  have entry: "entryAllows e s ip \<longleftrightarrow> inNetwork v4 b n ip"
    if "(e, addr, v4, b, n) \<in> set ns" "ParseIP s = Some ip" for e addr v4 b n ip
  proof -
    have ne: "networkEntry (e, addr, v4, b, n)" using that(1) assms unfolding list_all_iff by blast
    then have "CHR ''/'' \<in> set (trimSpace e)" by simp
    then show ?thesis
      using networkEntry_parses [OF ne] ParseIP_length [OF that(2)] by (auto simp: entryAllows_def)
  qed
  have "(\<exists>x \<in> set ns. entryAllows (fst x) s ip) \<longleftrightarrow> list_ex (\<lambda>(e, addr, v4, b, n). inNetwork v4 b n ip) ns"
    if "ParseIP s = Some ip" for ip
    unfolding list_ex_iff by (intro bex_cong refl) (use entry [OF _ that] in \<open>auto split: prod.split\<close>)
  then have "IsAllowed a s \<longleftrightarrow> (case ParseIP s of None \<Rightarrow> False
      | Some ip \<Rightarrow> list_ex (\<lambda>(e, addr, v4, b, n). inNetwork v4 b n ip) ns)"
    using IsAllowed_spec [OF a(1), of s] by (simp split: option.split)
  then show ?thesis using a by simp
qed

theorem network_membership_witness:
  "\<exists>a. NewIPAuthenticator ['' 10.1.0.0/16''] = Inr a \<and> IsAllowed a ''10.1.2.3''"
proof -
  have "trimSpace '' 10.1.0.0/16'' = ''10.1.0.0/16''" by code_simp
  moreover have "showNat 16 = ''16''" by code_simp
  ultimately have "list_all networkEntry [('' 10.1.0.0/16'', ''10.1.0.0'', True, v4InV6Prefix @ [10, 1, 0, 0], 16)]"
    by (simp add: demo_addr)
  from network_membership [OF this, of "''10.1.2.3''"] show ?thesis
    by (auto simp: inNetwork_def ParseIP_def demo_addr split: sum.splits)
qed

text \<open>C36: A client is allowed exactly when its address parses and some entry of the configured list
  allows it: an entry without a slash that is, blanks aside, the same string, or a network that
  contains the address. The order and repetition of entries do not matter.\<close>

theorem allowlist_exact:
  assumes "NewIPAuthenticator es = Inr a"
  shows "IsAllowed a s \<longleftrightarrow> (\<exists>ip. ParseIP s = Some ip \<and> (\<exists>e \<in> set es. entryAllows e s ip))"
  using IsAllowed_spec [OF assms] .

lemma demo_allow: "\<exists>a. NewIPAuthenticator [''10.1.2.3''] = Inr a"
proof -
  have "trimSpace ''10.1.2.3'' = ''10.1.2.3''" by (simp add: trimSpace_visible)
  then show ?thesis by (simp add: NewIPAuthenticator_def ParseIP_def demo_addr)
qed

theorem allowlist_exact_witness:
  "\<exists>a. NewIPAuthenticator [''10.1.2.3''] = Inr a \<and> IsAllowed a ''10.1.2.3''"
proof -
  obtain a where a: "NewIPAuthenticator [''10.1.2.3''] = Inr a" using demo_allow by blast
  have "trimSpace ''10.1.2.3'' = ''10.1.2.3''" by (simp add: trimSpace_visible)
  then show ?thesis
    using a allowlist_exact [OF a, of "''10.1.2.3''"] by (simp add: ParseIP_def demo_addr entryAllows_def)
qed

text \<open>C37: Of the remote address of an IPv4 client \<open>extractIP\<close> takes the address. Of the address of an IPv6
  client, which Go writes in brackets before the port, it takes what stands before the first colon,
  at most four hexadecimal digits, so that no allowlist, whatever its entries, lets an IPv6 client in.\<close>

theorem extractIP_families:
  assumes "ParseIP h = Some ip" "CHR '':'' \<notin> set p"
  shows "if CHR '':'' \<in> set h then
      extractIP (''['' @ h @ '']:'' @ p) = takeWhile (\<lambda>c. c \<noteq> CHR '':'') h \<and>
      list_all isHex (takeWhile (\<lambda>c. c \<noteq> CHR '':'') h) \<and> length (takeWhile (\<lambda>c. c \<noteq> CHR '':'') h) \<le> 4 \<and>
      \<not> IsAllowed a (extractIP (''['' @ h @ '']:'' @ p))
    else extractIP (h @ CHR '':'' # p) = h"
proof (cases "CHR '':'' \<in> set h")
  case True
  then show ?thesis using IsAllowed_v6 [OF assms(1) True] extractIP_v6 [OF assms(1) True] by simp
next
  case False
  then obtain v where "parseIPv4 h = Some v"
    using assms(1) find_SomeD [of _ h]
    by (fastforce simp: ParseIP_def parseAddr_def split: option.splits if_splits)
  from extractIP_v4 [OF this assms(2)] False show ?thesis by simp
qed

theorem extractIP_families_witness:
  "extractIP ''10.1.2.3:25'' = ''10.1.2.3'' \<and> extractIP ''[2001:db8::1]:25'' = ''2001'' \<and>
   \<not> IsAllowed \<lparr>allowedIPs = [''2001:db8::1''], allowedCIDRs = []\<rparr> (extractIP ''[2001:db8::1]:25'')"
proof -
  have p: "ParseIP ''10.1.2.3'' \<noteq> None" "ParseIP ''2001:db8::1'' \<noteq> None"
    by (simp_all add: ParseIP_def demo_addr)
  then obtain x y where "ParseIP ''10.1.2.3'' = Some x" "ParseIP ''2001:db8::1'' = Some y" by blast
  from extractIP_families [OF this(1), of "''25''"]
    extractIP_families [OF this(2), of "''25''" "\<lparr>allowedIPs = [''2001:db8::1''], allowedCIDRs = []\<rparr>"]
  show ?thesis by auto
qed

section \<open>Passwords\<close>

text \<open>C35: After a user's password has been set, exactly this password authenticates the user, the user
  exists, and every other user authenticates as before; each attempt is counted as what it was.\<close>

theorem password_set:
  assumes "redis_stores R look" "SetPassword R u p w = (ok, w1)" "Authenticate R d v q w1 = (e, w2)"
  shows "ok \<and> (e = None \<longleftrightarrow> (if v = u then q = p else look (rds w) (passwordKey v) = Some q)) \<and>
    fst (UserExists R u w2) = Some True \<and>
    mets w2 = RecordAuthAttempt ''redis'' (if e = None then ''success'' else ''failure'') d (mets w)"
proof -
  note s = SetPassword_stored [OF assms(1,2)] and a = Authenticate_stored [OF assms(1,3)]
  obtain x w3 where x: "UserExists R u w2 = (x, w3)" by fastforce
  show ?thesis using s a UserExists_stored [OF assms(1) x] x by auto
qed

definition emptyWorld :: "mem_redis world" where
  "emptyWorld = \<lparr>rds = [], mets = []\<rparr>"

theorem password_set_witness:
  "fst (Authenticate memRedis 3 ''u'' ''pw'' (snd (SetPassword memRedis ''u'' ''pw'' emptyWorld))) = None"
proof -
  obtain ok w1 where s: "SetPassword memRedis ''u'' ''pw'' emptyWorld = (ok, w1)" by fastforce
  obtain e w2 where a: "Authenticate memRedis 3 ''u'' ''pw'' w1 = (e, w2)" by fastforce
  from password_set [OF redis_stores_memRedis s a] show ?thesis by (simp add: s a)
qed

text \<open>Deleting a user whose name has none of the special characters of a pattern deletes that user
  and leaves every user without a colon in the name. The name is not escaped: deleting the user
  \<open>*\<close> deletes all users.\<close>

theorem delete_user:
  assumes "redis_stores R look" "simpleGlob (userPattern u)" "DeleteUser R u w = (ok, w')" "CHR '':'' \<notin> set v"
  shows "ok \<and>
    (if u = ''*'' then look (rds w') (passwordKey v) = None
     else if CHR ''*'' \<notin> set u \<and> CHR ''?'' \<notin> set u then
       look (rds w') (passwordKey v) = (if v = u then None else look (rds w) (passwordKey v))
     else True)"
  using DeleteUser_stored [OF assms(1,3,2)] userPattern_star [of v] userPattern_plain [of u "passwordKey v"]
    prefix_userKey [OF assms(4), of u]
  by auto

theorem delete_user_witness:
  "map_of (rds (snd (DeleteUser memRedis ''*'' \<lparr>rds = [(passwordKey ''v'', ''pw'')], mets = []\<rparr>)))
     (passwordKey ''v'') = None"
proof -
  obtain ok w' where d: "DeleteUser memRedis ''*'' \<lparr>rds = [(passwordKey ''v'', ''pw'')], mets = []\<rparr> = (ok, w')"
    by fastforce
  have "simpleGlob (userPattern ''*'')" by (simp add: simpleGlob_def userPattern_def)
  from delete_user [OF redis_stores_memRedis this d, of "''v''"] show ?thesis by (simp add: d)
qed

section \<open>Configuration\<close>

text \<open>C32: \<open>Load\<close> takes the defaults, or the file decoded over them, and applies the environment. The
  configuration it returns is this one, and is acceptable, whatever the file, the decoder and the
  environment: it has a host name, at least one listener, all listeners with a port from 1 to 65535
  and a known mode, a positive message size, addresses when Redis authentication is enabled, and the
  paths and names the daemon needs. What it refuses as invalid is this one too, is not acceptable, and
  the error names something that is wrong with it, a listener by its place. Otherwise the file could
  not be read, or not be decoded.\<close>

theorem load_valid:
  "case Load rd yaml env path of
     Inr c \<Rightarrow> (\<exists>c0. configSource rd yaml path = Some c0 \<and> c = applyEnvOverrides env c0 \<and> configOK c)
   | Inl (InvalidConfig e) \<Rightarrow>
       (\<exists>c0. configSource rd yaml path = Some c0 \<and> \<not> configOK (applyEnvOverrides env c0) \<and>
          errorHolds e (applyEnvOverrides env c0))
   | Inl ReadingConfig \<Rightarrow> path \<noteq> [] \<and> rd path = None
   | Inl ParsingConfig \<Rightarrow> path \<noteq> [] \<and> (\<exists>data. rd path = Some data \<and> yaml data DefaultConfig = None)"
proof -
  have "errorHolds e c \<and> \<not> configOK c" if "Validate c = Some e" for e c
    using Validate_errorHolds [OF that] Validate_None [of c] that by simp
  then show ?thesis
    by (auto simp: Load_def Let_def configSource_def Validate_None split: sum.splits option.splits if_splits)
qed

text \<open>Only variables that begin with \<open>OUTBOUND_\<close> are read. The ones the README names, as
  \<open>SMTP_SERVER_HOSTNAME\<close>, change nothing.\<close>

theorem environment_prefix:
  assumes "\<And>n. prefix ''OUTBOUND_'' n \<Longrightarrow> env n = env' n"
  shows "Load rd yaml env path = Load rd yaml env' path"
proof -
  have eq: "applyEnvOverrides env = applyEnvOverrides env'"
    by (rule ext) (simp add: applyEnvOverrides_eq overridden_def envOr_def envListOr_def envSizeOr_def envBoolOr_def assms)
  show ?thesis unfolding Load_def eq ..
qed

theorem environment_prefix_witness:
  "Load (\<lambda>_. None) (\<lambda>_ _. None) (\<lambda>n. if n = ''SMTP_SERVER_HOSTNAME'' then ''mail.example.com'' else []) [] =
   Load (\<lambda>_. None) (\<lambda>_ _. None) (\<lambda>_. []) []"
  by (rule environment_prefix) (auto simp: prefix_def)

end
