(* ===== verification/GoJson.thy ===== *)
theory GoJson
  imports GoHex
begin

text \<open>
  What \<open>internal/queue/queue.go\<close> uses of \<open>encoding/json\<close>: \<open>Marshal\<close> of a slice of strings and
  \<open>Unmarshal\<close> into one. A string is its bytes; they need not be valid UTF-8. The nil slice is
  \<open>None\<close>.
\<close>

section \<open>UTF-8\<close>

abbreviation byteIn :: "nat \<Rightarrow> nat \<Rightarrow> char \<Rightarrow> bool" where
  "byteIn a b c \<equiv> a \<le> of_char c \<and> of_char c \<le> b"

text \<open>
  The number of bytes of the character that starts with the byte \<open>c\<close>, and the range of its second
  byte; the others are from 80 to BF.
\<close>

definition utf8Lead :: "char \<Rightarrow> (nat \<times> nat \<times> nat) option" where
  "utf8Lead c =
     (if byteIn 0xC2 0xDF c then Some (2, 0x80, 0xBF)
      else if byteIn 0xE0 0xE0 c then Some (3, 0xA0, 0xBF)
      else if byteIn 0xE1 0xEC c then Some (3, 0x80, 0xBF)
      else if byteIn 0xED 0xED c then Some (3, 0x80, 0x9F)
      else if byteIn 0xEE 0xEF c then Some (3, 0x80, 0xBF)
      else if byteIn 0xF0 0xF0 c then Some (4, 0x90, 0xBF)
      else if byteIn 0xF1 0xF3 c then Some (4, 0x80, 0xBF)
      else if byteIn 0xF4 0xF4 c then Some (4, 0x80, 0x8F)
      else None)"

text \<open>The bytes that follow the first one in the character at the head of \<open>c # s\<close>, none if invalid.\<close>

definition utf8Tail :: "char \<Rightarrow> string \<Rightarrow> nat option" where
  "utf8Tail c s =
     (if of_char c < (0x80 :: nat) then Some 0
      else
        (case utf8Lead c of
           None \<Rightarrow> None
         | Some (n, lo, hi) \<Rightarrow>
             if n \<le> Suc (length s) \<and> byteIn lo hi (hd s) \<and> list_all (byteIn 0x80 0xBF) (take (n - 2) (tl s))
             then Some (n - 1) else None))"

function validUTF8 :: "string \<Rightarrow> bool" where
  "validUTF8 [] = True"
| "validUTF8 (c # s) = (case utf8Tail c s of None \<Rightarrow> False | Some n \<Rightarrow> validUTF8 (drop n s))"
  by pat_completeness auto
termination by (relation "measure length") auto

declare validUTF8.simps(2) [simp del]

text \<open>\<open>utf8.AppendRune\<close> for a rune below 10000 (hexadecimal) that is no surrogate, and one above.\<close>

definition utf8Rune :: "nat \<Rightarrow> string" where
  "utf8Rune r =
     map (\<lambda>n::nat. char_of n)
       (if r < 0x80 then [r]
        else if r < 0x800 then [0xC0 + r div 0x40, 0x80 + r mod 0x40]
        else if r < 0x10000 then [0xE0 + r div 0x1000, 0x80 + r div 0x40 mod 0x40, 0x80 + r mod 0x40]
        else [0xF0 + r div 0x40000, 0x80 + r div 0x1000 mod 0x40, 0x80 + r div 0x40 mod 0x40,
              0x80 + r mod 0x40])"

definition runeError :: nat where
  "runeError = 0xFFFD"

section \<open>Marshal\<close>

definition hex4 :: "nat \<Rightarrow> string" where
  "hex4 r = map (\<lambda>k. hexDigit (r div 16 ^ k mod 16)) [3, 2, 1, 0]"

definition escU :: "nat \<Rightarrow> string" where
  "escU r = CHR 0x5C # CHR ''u'' # hex4 r"

definition quote :: char where "quote = CHR 0x22"
definition bslash :: char where "bslash = CHR 0x5C"

definition shortEscapes :: "(char \<times> char) list" where
  "shortEscapes =
     [(quote, quote), (bslash, bslash), (CHR 0x08, CHR ''b''), (CHR 0x0C, CHR ''f''),
      (CHR 0x0A, CHR ''n''), (CHR 0x0D, CHR ''r''), (CHR 0x09, CHR ''t'')]"

text \<open>A byte below 80; the characters of HTML are escaped too.\<close>

definition escASCII :: "char \<Rightarrow> string" where
  "escASCII c =
     (case map_of shortEscapes c of
        Some e \<Rightarrow> [bslash, e]
      | None \<Rightarrow>
          if of_char c < (0x20 :: nat) \<or> c \<in> {CHR ''<'', CHR ''>'', CHR ''&''} then escU (of_char c)
          else [c])"

definition escChar :: "string \<Rightarrow> string" where
  "escChar bs =
     (if bs = utf8Rune 0x2028 then escU 0x2028
      else if bs = utf8Rune 0x2029 then escU 0x2029
      else bs)"

function escString :: "string \<Rightarrow> string" where
  "escString [] = []"
| "escString (c # s) =
     (if of_char c < (0x80 :: nat) then escASCII c @ escString s
      else
        (case utf8Tail c s of
           None \<Rightarrow> escU runeError @ escString s
         | Some n \<Rightarrow> escChar (c # take n s) @ escString (drop n s)))"
  by pat_completeness auto
termination by (relation "measure length") auto

declare escString.simps(2) [simp del]

definition encodeString :: "string \<Rightarrow> string" where
  "encodeString s = quote # escString s @ [quote]"

definition MarshalStrings :: "string list option \<Rightarrow> string" where
  "MarshalStrings xs =
     (case xs of
        None \<Rightarrow> ''null''
      | Some ss \<Rightarrow> CHR ''['' # joinWith CHR '','' (map encodeString ss) @ '']'')"

section \<open>Unmarshal\<close>

definition jsonSpace :: "char \<Rightarrow> bool" where
  "jsonSpace c \<longleftrightarrow> c \<in> {CHR 0x20, CHR 0x09, CHR 0x0A, CHR 0x0D}"

definition skipSpace :: "string \<Rightarrow> string" where
  "skipSpace = dropWhile jsonSpace"

definition unescapes :: "(char \<times> char) list" where
  "unescapes = (CHR ''/'', CHR ''/'') # map (\<lambda>(c, e). (e, c)) shortEscapes"

text \<open>Four hexadecimal digits after \<open>\u\<close>.\<close>

fun readU :: "string \<Rightarrow> (nat \<times> string) option" where
  "readU (a # b # c # d # s) =
     (if list_all isHex [a, b, c, d] then Some (readHex [a, b, c, d], s) else None)"
| "readU _ = None"

lemma readU_length: "readU s = Some (r, t) \<Longrightarrow> length s = length t + 4"
  by (induction s rule: readU.induct) (auto split: if_splits)

text \<open>The second half of a surrogate pair, when there is one.\<close>

definition lowHalf :: "string \<Rightarrow> (nat \<times> string) option" where
  "lowHalf s =
     (case s of
        b # u # t \<Rightarrow>
          (if b = bslash \<and> u = CHR ''u'' then
             (case readU t of
                Some (r, t') \<Rightarrow> if 0xDC00 \<le> r \<and> r \<le> 0xDFFF then Some (r, t') else None
              | None \<Rightarrow> None)
           else None)
      | _ \<Rightarrow> None)"

lemma lowHalf_length: "lowHalf s = Some (r, t) \<Longrightarrow> length s = length t + 6"
  by (auto simp: lowHalf_def dest!: readU_length split: list.splits if_splits option.splits prod.splits)

text \<open>
  The escape after a backslash: the bytes it stands for and the rest. A lone surrogate becomes the
  replacement character.
\<close>

definition unescape :: "string \<Rightarrow> (string \<times> string) option" where
  "unescape s =
     (case s of
        [] \<Rightarrow> None
      | e # t \<Rightarrow>
          (case map_of unescapes e of
             Some c \<Rightarrow> Some ([c], t)
           | None \<Rightarrow>
               if e \<noteq> CHR ''u'' then None
               else
                 (case readU t of
                    None \<Rightarrow> None
                  | Some (r, t') \<Rightarrow>
                      if r < 0xD800 \<or> 0xDFFF < r then Some (utf8Rune r, t')
                      else if 0xDBFF < r then Some (utf8Rune runeError, t')
                      else
                        (case lowHalf t' of
                           None \<Rightarrow> Some (utf8Rune runeError, t')
                         | Some (r2, t'') \<Rightarrow>
                             Some (utf8Rune (0x10000 + (r - 0xD800) * 0x400 + (r2 - 0xDC00)), t'')))))"

lemma unescape_length: "unescape s = Some (b, t) \<Longrightarrow> length t < length s"
  by (auto simp: unescape_def dest!: readU_length lowHalf_length
      split: list.splits option.splits prod.splits if_splits)

text \<open>A string after its opening quote, up to and without the closing one.\<close>

function readString :: "string \<Rightarrow> (string \<times> string) option" where
  "readString [] = None"
| "readString (c # s) =
     (if c = quote then Some ([], s)
      else if c = bslash then
        (case unescape s of
           None \<Rightarrow> None
         | Some (bs, t) \<Rightarrow> map_option (\<lambda>(x, r). (bs @ x, r)) (readString t))
      else if of_char c < (0x20 :: nat) then None
      else
        (case utf8Tail c s of
           None \<Rightarrow> map_option (\<lambda>(x, r). (utf8Rune runeError @ x, r)) (readString s)
         | Some n \<Rightarrow> map_option (\<lambda>(x, r). (c # take n s @ x, r)) (readString (drop n s))))"
  by pat_completeness auto
termination by (relation "measure length") (auto dest: unescape_length)

declare readString.simps(2) [simp del]

text \<open>
  An element of the array: a string, or \<open>null\<close>, which leaves the empty string; a value of any other
  kind is an error of the decoder.
\<close>

definition readElement :: "string \<Rightarrow> (string \<times> string) option" where
  "readElement s =
     (if prefix ''null'' s then Some ([], drop 4 s)
      else
        (case s of
           [] \<Rightarrow> None
         | c # t \<Rightarrow> if c = quote then readString t else None))"

lemma readString_length: "readString s = Some (x, r) \<Longrightarrow> length r < length s"
proof (induction s arbitrary: x r rule: readString.induct)
  case (2 c s)
  then show ?case
    by (simp add: readString.simps(2) [of c s] split: if_splits option.splits prod.splits)
      (fastforce dest: unescape_length)+
qed simp

lemma readElement_length: "readElement s = Some (x, r) \<Longrightarrow> length r < length s"
proof (cases s)
  case (Cons c t)
  then show "readElement s = Some (x, r) \<Longrightarrow> ?thesis"
    using readString_length [of t x r] by (auto simp: readElement_def prefix_def split: if_splits)
qed (simp add: readElement_def)

lemma length_skipSpace [simp]: "length (skipSpace s) \<le> length s"
  by (simp add: skipSpace_def length_dropWhile_le)

text \<open>The elements of a non-empty array, after the opening bracket and spaces.\<close>

function readElements :: "string \<Rightarrow> (string list \<times> string) option" where
  "readElements s =
     (case readElement s of
        None \<Rightarrow> None
      | Some (x, r) \<Rightarrow>
          (case skipSpace r of
             [] \<Rightarrow> None
           | c # t \<Rightarrow>
               if c = CHR '']'' then Some ([x], t)
               else if c = CHR '','' then
                 map_option (\<lambda>(xs, q). (x # xs, q)) (readElements (skipSpace t))
               else None))"
  by pat_completeness auto
termination
proof (relation "measure length", goal_cases)
  case (2 s p x r c t)
  have "length r < length s" using 2 readElement_length [of s x r] by simp
  moreover have "length (c # t) \<le> length r" using 2 length_skipSpace [of r] by simp
  moreover have "length (skipSpace t) \<le> length t" by simp
  ultimately have "length (skipSpace t) < length s" by (simp del: length_skipSpace)
  then show ?case by simp
qed simp

declare readElements.simps [simp del]

text \<open>\<open>None\<close> is an error, \<open>Some None\<close> the nil slice, which the JSON value \<open>null\<close> leaves.\<close>

definition UnmarshalStrings :: "string \<Rightarrow> string list option option" where
  "UnmarshalStrings s0 =
     (let s = skipSpace s0
      in if prefix ''null'' s then (if skipSpace (drop 4 s) = [] then Some None else None)
         else
           (case s of
              [] \<Rightarrow> None
            | c # t \<Rightarrow>
                if c \<noteq> CHR ''['' then None
                else
                  (case skipSpace t of
                     [] \<Rightarrow> None
                   | d # u \<Rightarrow>
                       if d = CHR '']'' then (if skipSpace u = [] then Some (Some []) else None)
                       else
                         (case readElements (d # u) of
                            None \<Rightarrow> None
                          | Some (xs, r) \<Rightarrow> if skipSpace r = [] then Some (Some xs) else None))))"

section \<open>Decoding what was encoded\<close>

lemma utf8Tail_take:
  assumes "utf8Tail c s = Some n"
  shows "n \<le> length s" "utf8Tail c (take n s @ r) = Some n"
proof -
  have "n \<le> length s \<and> utf8Tail c (take n s @ r) = Some n"
  proof (cases "of_char c < (0x80 :: nat)")
    case False
    then obtain m lo hi where m: "utf8Lead c = Some (m, lo, hi)" "m \<le> Suc (length s)" "n = m - 1"
      "byteIn lo hi (hd s)" "list_all (byteIn 0x80 0xBF) (take (m - 2) (tl s))"
      using assms by (auto simp: utf8Tail_def split: option.splits if_splits)
    then have "2 \<le> m" by (auto simp: utf8Lead_def split: if_splits)
    then obtain d t where s: "s = d # t" using m(2) by (cases s) auto
    obtain k where k: "m = Suc (Suc k)" "n = Suc k"
      using m(3) \<open>2 \<le> m\<close> that [of "m - 2"] by simp
    with m s False show ?thesis by (simp add: utf8Tail_def)
  qed (use assms in \<open>simp add: utf8Tail_def\<close>)
  then show "n \<le> length s" "utf8Tail c (take n s @ r) = Some n" by blast+
qed

lemma readHex_hex4: "n < 0x10000 \<Longrightarrow> readHex (hex4 n) = n"
proof -
  assume "n < 0x10000"
  then have e0: "n div 4096 mod 16 = n div 4096" by simp
  have e1: "16 * (n div 4096) + n div 256 mod 16 = n div 256"
    using mult_div_mod_eq [of 16 "n div 256"] by (simp add: div_mult2_eq [symmetric])
  have e2: "16 * (n div 256) + n div 16 mod 16 = n div 16"
    using mult_div_mod_eq [of 16 "n div 16"] by (simp add: div_mult2_eq [symmetric])
  have e3: "16 * (n div 16) + n mod 16 = n" by (rule mult_div_mod_eq)
  have "readHex (hex4 n) =
      16 * (16 * (16 * (n div 4096 mod 16) + n div 256 mod 16) + n div 16 mod 16) + n mod 16"
    by (simp add: readHex_def hex4_def)
  then show "readHex (hex4 n) = n" unfolding e0 e1 e2 e3 .
qed

lemma readU_hex4: "n < 0x10000 \<Longrightarrow> readU (hex4 n @ r) = Some (n, r)"
  using readHex_hex4 by (simp add: hex4_def isHex_def)

lemma readString_escU:
  assumes "n < 0xD800 \<or> 0xDFFF < n \<and> n < 0x10000"
  shows "readString (escU n @ r) = map_option (\<lambda>(x, q). (utf8Rune n @ x, q)) (readString r)"
proof -
  have "map_of unescapes CHR ''u'' = None" by (simp add: unescapes_def shortEscapes_def quote_def bslash_def)
  then have "unescape (CHR ''u'' # hex4 n @ r) = Some (utf8Rune n, r)"
    using readU_hex4 [of n r] assms by (auto simp: unescape_def)
  then show ?thesis
    by (simp add: escU_def readString.simps(2) [of "CHR 0x5C"] quote_def bslash_def)
qed

lemma utf8Rune_ascii: "of_char c < (0x80 :: nat) \<Longrightarrow> utf8Rune (of_char c) = [c]"
  by (simp add: utf8Rune_def)

lemma shortEscapes_Some:
  assumes "map_of shortEscapes c = Some e"
  shows "map_of unescapes e = Some c"
  using assms by (auto simp: shortEscapes_def unescapes_def quote_def bslash_def split: if_splits)

lemma shortEscapes_None: "map_of shortEscapes c = None \<Longrightarrow> c \<noteq> quote \<and> c \<noteq> bslash"
  by (auto simp: shortEscapes_def split: if_splits)

lemma readString_escASCII:
  assumes "of_char c < (0x80 :: nat)"
  shows "readString (escASCII c @ r) = map_option (\<lambda>(x, q). (c # x, q)) (readString r)"
proof (cases "map_of shortEscapes c")
  case (Some e)
  then have "unescape (e # r) = Some ([c], r)" using shortEscapes_Some by (simp add: unescape_def)
  moreover have "bslash \<noteq> quote" by (simp add: bslash_def quote_def)
  ultimately show ?thesis using Some by (simp add: escASCII_def readString.simps(2) [of bslash])
next
  case None
  show ?thesis
  proof (cases "of_char c < (0x20 :: nat) \<or> c \<in> {CHR ''<'', CHR ''>'', CHR ''&''}")
    case True
    then have "escASCII c = escU (of_char c)" using None by (simp add: escASCII_def)
    then show ?thesis using readString_escU [of "of_char c" r] assms by (simp add: utf8Rune_ascii)
  next
    case False
    then have "escASCII c = [c]" "\<not> of_char c < (0x20 :: nat)" using None by (simp_all add: escASCII_def)
    then show ?thesis
      using shortEscapes_None [OF None] assms by (simp add: readString.simps(2) [of c] utf8Tail_def)
  qed
qed

lemma readString_escChar:
  assumes "\<not> of_char c < (0x80 :: nat)" "utf8Tail c s = Some n"
  shows "readString (escChar (c # take n s) @ r) =
    map_option (\<lambda>(x, q). (c # take n s @ x, q)) (readString r)"
proof (cases "c # take n s = utf8Rune 0x2028 \<or> c # take n s = utf8Rune 0x2029")
  case True
  then have "\<exists>k. escChar (c # take n s) = escU k \<and> k \<in> {0x2028, 0x2029} \<and> c # take n s = utf8Rune k"
    by (auto simp: escChar_def)
  then obtain k where k: "escChar (c # take n s) = escU k" "k = 0x2028 \<or> k = 0x2029" "c # take n s = utf8Rune k"
    by auto
  have "readString (escU k @ r) = map_option (\<lambda>(x, q). ((c # take n s) @ x, q)) (readString r)"
    unfolding k(3) using k(2) by (intro readString_escU) auto
  then show ?thesis unfolding k(1) by simp
next
  case False
  have "c \<noteq> quote" "c \<noteq> bslash" "\<not> of_char c < (0x20 :: nat)"
    using assms(1) by (auto simp: quote_def bslash_def)
  then show ?thesis
    using False utf8Tail_take(1) [OF assms(2)] utf8Tail_take(2) [OF assms(2), of r]
    by (simp add: escChar_def readString.simps(2) [of c])
qed

lemma readString_escString: "validUTF8 s \<Longrightarrow> readString (escString s @ quote # r) = Some (s, r)"
proof (induction s rule: escString.induct)
  case (2 c s)
  then show ?case
  proof (cases "of_char c < (0x80 :: nat)")
    case True
    then have "validUTF8 s" using 2(4) by (simp add: validUTF8.simps(2) utf8Tail_def)
    then show ?thesis using 2(1) True readString_escASCII [OF True] by (simp add: escString.simps(2))
  next
    case False
    then obtain n where n: "utf8Tail c s = Some n" "validUTF8 (drop n s)"
      using 2(4) by (auto simp: validUTF8.simps(2) split: option.splits)
    then show ?thesis
      using 2(3) [OF False n] readString_escChar [OF False n(1)] False by (simp add: escString.simps(2))
  qed
qed (simp add: readString.simps(2))

lemma skipSpace_Cons: "skipSpace (c # s) = (if jsonSpace c then skipSpace s else c # s)"
  by (simp add: skipSpace_def)

lemma readElement_encode: "validUTF8 s \<Longrightarrow> readElement (encodeString s @ r) = Some (s, r)"
  using readString_escString [of s r] by (simp add: readElement_def encodeString_def) (simp add: quote_def)

lemma skipSpace_encode [simp]: "skipSpace (encodeString s @ r) = encodeString s @ r"
  by (simp add: skipSpace_def encodeString_def) (simp add: quote_def jsonSpace_def)

lemma readElements_encode:
  "xs \<noteq> [] \<Longrightarrow> list_all validUTF8 xs \<Longrightarrow>
     readElements (joinWith CHR '','' (map encodeString xs) @ CHR '']'' # r) = Some (xs, r)"
proof (induction xs rule: induct_list012)
  case (2 x)
  then show ?case
    by (simp add: readElements.simps [where s = "encodeString x @ t" for t] readElement_encode skipSpace_def jsonSpace_def)
next
  case (3 x y zs)
  let ?t = "joinWith CHR '','' (map encodeString (y # zs)) @ CHR '']'' # r"
  have sp: "skipSpace ?t = ?t"
    by (cases zs) (simp_all add: encodeString_def, simp_all add: skipSpace_def jsonSpace_def quote_def)
  have ih: "readElements ?t = Some (y # zs, r)" using 3 by simp
  have "readElements (encodeString x @ CHR '','' # ?t) = Some (x # y # zs, r)"
    using 3(4) sp ih
    by (simp add: readElements.simps [where s = "encodeString x @ t" for t] readElement_encode
        skipSpace_Cons jsonSpace_def)
  then show ?case by simp
qed simp

theorem Unmarshal_Marshal:
  assumes "\<forall>ss. xs = Some ss \<longrightarrow> list_all validUTF8 ss"
  shows "UnmarshalStrings (MarshalStrings xs) = Some xs"
proof (cases xs)
  case None
  then show ?thesis
    by (simp add: MarshalStrings_def UnmarshalStrings_def Let_def skipSpace_def jsonSpace_def)
next
  case (Some ss)
  show ?thesis
  proof (cases ss)
    case Nil
    with Some show ?thesis
      by (simp add: MarshalStrings_def UnmarshalStrings_def Let_def skipSpace_def jsonSpace_def)
  next
    case (Cons a as)
    let ?t = "joinWith CHR '','' (map encodeString (a # as)) @ CHR '']'' # []"
    obtain u where t: "?t = quote # u" by (cases as) (simp_all add: encodeString_def)
    have "readElements ?t = Some (a # as, [])"
      using assms Some Cons readElements_encode [of "a # as" "[]"] by simp
    then have el: "readElements (quote # u) = Some (a # as, [])" using t by simp
    have "skipSpace (quote # u) = quote # u" "quote \<noteq> CHR '']''" "skipSpace [] = []"
      by (simp_all add: skipSpace_def jsonSpace_def quote_def)
    moreover have "MarshalStrings xs = CHR ''['' # quote # u"
      using Some Cons t by (simp add: MarshalStrings_def)
    moreover have "skipSpace (CHR ''['' # quote # u) = CHR ''['' # quote # u"
      by (simp add: skipSpace_def jsonSpace_def)
    ultimately show ?thesis using Some Cons el by (simp add: UnmarshalStrings_def Let_def)
  qed
qed

end
