(* ===== verification/GoMail.thy ===== *)
theory GoMail
  imports GoStrings
begin

text \<open>
  What \<open>internal/parser/parser.go\<close> uses of \<open>net/mail\<close> and \<open>net/textproto\<close>: reading the header of a
  message, with folded lines and canonical keys, and looking a field up.
\<close>

section \<open>Lines\<close>

definition LF :: char where "LF = CHR 0x0A"
definition CR :: char where "CR = CHR 0x0D"

text \<open>
  The next line without its end, and what follows it; \<open>None\<close> at the end of the input. The last line
  may have no end.
\<close>

definition readLine :: "bytes \<Rightarrow> (bytes \<times> bytes) option" where
  "readLine s =
     (if s = [] then None
      else
        (let l = takeWhile (\<lambda>c. c \<noteq> LF) s
         in case dropWhile (\<lambda>c. c \<noteq> LF) s of
              [] \<Rightarrow> Some (l, [])
            | c # r \<Rightarrow> Some (if l \<noteq> [] \<and> last l = CR then butlast l else l, r)))"

lemma readLine_length: "readLine s = Some (l, r) \<Longrightarrow> length r < length s"
proof (cases "dropWhile (\<lambda>c. c \<noteq> LF) s")
  case (Cons c t)
  then have "length t < length s" using length_dropWhile_le [of "\<lambda>c. c \<noteq> LF" s] by simp
  then show "readLine s = Some (l, r) \<Longrightarrow> ?thesis" using Cons by (auto simp: readLine_def Let_def split: if_splits)
next
  case Nil
  then show "readLine s = Some (l, r) \<Longrightarrow> ?thesis" by (auto simp: readLine_def Let_def Nil split: if_splits simp del: dropWhile_eq_Nil_conv)
qed

abbreviation blank :: "char \<Rightarrow> bool" where
  "blank c \<equiv> c = CHR 0x20 \<or> c = CHR 0x09"

definition trimBlank :: "string \<Rightarrow> string" where
  "trimBlank s = rev (dropWhile blank (rev (dropWhile blank s)))"

text \<open>The continuation lines that follow: each starts with a blank and is joined by one space.\<close>

function readContinuation :: "bytes \<Rightarrow> bytes \<times> bytes" where
  "readContinuation s =
     (let t = dropWhile blank s
      in if length t = length s then ([], s)
         else
           (case readLine t of
              None \<Rightarrow> ('' '', t)
            | Some (l, r) \<Rightarrow> (case readContinuation r of (c, q) \<Rightarrow> (CHR '' '' # trimBlank l @ c, q))))"
  by pat_completeness auto
termination
proof (relation "measure length", goal_cases)
  case (2 s t p l r)
  have "length r < length t" using 2 readLine_length [of t l r] by simp
  moreover have "length t \<le> length s" using 2 length_dropWhile_le by simp
  ultimately show ?case by simp
qed simp

declare readContinuation.simps [simp del]

definition readContinuedLine :: "bytes \<Rightarrow> (bytes \<times> bytes) option" where
  "readContinuedLine s =
     (case readLine s of
        None \<Rightarrow> None
      | Some (l, r) \<Rightarrow>
          if l = [] then Some ([], r)
          else (case readContinuation r of (c, q) \<Rightarrow> Some (trimBlank l @ c, q)))"

lemma readContinuation_length: "length (snd (readContinuation s)) \<le> length s"
proof (induction s rule: readContinuation.induct)
  case (1 s)
  let ?t = "dropWhile blank s"
  have d: "length ?t \<le> length s" by (rule length_dropWhile_le)
  consider "length ?t = length s" | "readLine ?t = None" "length ?t \<noteq> length s"
    | l r where "readLine ?t = Some (l, r)" "length ?t \<noteq> length s"
    by (cases "readLine ?t") auto
  then show ?case
  proof cases
    case 3
    have "length (snd (readContinuation r)) \<le> length r" using "1.IH" [OF refl 3(2,1) refl] .
    then show ?thesis using 3 d readLine_length [OF 3(1)]
      by (cases "readContinuation r") (simp add: readContinuation.simps [of s] Let_def)
  qed (use d in \<open>simp_all add: readContinuation.simps [of s] Let_def\<close>)
qed

lemma readContinuedLine_length: "readContinuedLine s = Some (l, r) \<Longrightarrow> length r < length s"
proof -
  assume a: "readContinuedLine s = Some (l, r)"
  then obtain l' r' where l': "readLine s = Some (l', r')" "r = r' \<or> r = snd (readContinuation r')"
    by (auto simp: readContinuedLine_def split: option.splits if_splits prod.splits)
  then show "length r < length s"
    using readLine_length [OF l'(1)] readContinuation_length [of r'] by auto
qed

section \<open>Canonical keys\<close>

definition isLower :: "char \<Rightarrow> bool" where "isLower c \<longleftrightarrow> (97 :: nat) \<le> of_char c \<and> of_char c \<le> (122 :: nat)"
definition isUpper :: "char \<Rightarrow> bool" where "isUpper c \<longleftrightarrow> (65 :: nat) \<le> of_char c \<and> of_char c \<le> (90 :: nat)"

definition toUpper :: "char \<Rightarrow> char" where
  "toUpper c = (if isLower c then char_of (of_char c - 32 :: nat) else c)"

definition toLower :: "char \<Rightarrow> char" where
  "toLower c = (if isUpper c then char_of (of_char c + 32 :: nat) else c)"

definition fieldByte :: "char \<Rightarrow> bool" where
  "fieldByte c \<longleftrightarrow> isLower c \<or> isUpper c \<or> isDigit c \<or> c \<in> set ''!#$%&*+-.^_`|~'' \<or> c = CHR 0x27"

fun canonicalize :: "bool \<Rightarrow> string \<Rightarrow> string" where
  "canonicalize upper [] = []"
| "canonicalize upper (c # s) = (if upper then toUpper c else toLower c) # canonicalize (c = CHR ''-'') s"

definition CanonicalMIMEHeaderKey :: "string \<Rightarrow> string" where
  "CanonicalMIMEHeaderKey s = (if list_all fieldByte s then canonicalize True s else s)"

section \<open>Messages\<close>

type_synonym header = "(string \<times> string list) list"

definition addField :: "string \<Rightarrow> string \<Rightarrow> header \<Rightarrow> header" where
  "addField k v h = AList.update k (case map_of h k of None \<Rightarrow> [v] | Some vs \<Rightarrow> vs @ [v]) h"

datatype header_end = HeaderDone | HeaderEOF | HeaderMalformed

text \<open>The fields, how the header ended, and the rest of the input.\<close>

function readFields :: "bytes \<Rightarrow> header \<Rightarrow> header \<times> header_end \<times> bytes" where
  "readFields s h =
     (case readContinuedLine s of
        None \<Rightarrow> (h, HeaderEOF, s)
      | Some (kv, r) \<Rightarrow>
          if kv = [] then (h, HeaderDone, r)
          else if CHR '':'' \<notin> set kv then (h, HeaderMalformed, r)
          else
            (let key = CanonicalMIMEHeaderKey (takeWhile (\<lambda>c. c \<noteq> CHR '':'') kv);
                 val = dropWhile blank (tl (dropWhile (\<lambda>c. c \<noteq> CHR '':'') kv))
             in if key = [] then readFields r h else readFields r (addField key val h)))"
  by pat_completeness auto
termination by (relation "measure (\<lambda>(s, h). length s)") (auto dest: readContinuedLine_length)

declare readFields.simps [simp del]

text \<open>\<open>None\<close> is an error; otherwise the header and the body.\<close>

definition ReadMessage :: "bytes \<Rightarrow> (header \<times> bytes) option" where
  "ReadMessage data =
     (if data \<noteq> [] \<and> blank (hd data) then None
      else
        (case readFields data [] of
           (h, HeaderDone, r) \<Rightarrow> Some (h, r)
         | (h, HeaderEOF, r) \<Rightarrow> if h = [] then None else Some (h, r)
         | (h, HeaderMalformed, r) \<Rightarrow> None))"

definition headerGet :: "header \<Rightarrow> string \<Rightarrow> string" where
  "headerGet h key =
     (case map_of h (CanonicalMIMEHeaderKey key) of Some (v # vs) \<Rightarrow> v | _ \<Rightarrow> [])"

section \<open>Canonical keys are canonical\<close>

lemma toUpper_lower: "isLower c \<Longrightarrow> isUpper (toUpper c) \<and> \<not> isLower (toUpper c)"
  by (auto simp: toUpper_def isLower_def isUpper_def)

lemma toLower_upper: "isUpper c \<Longrightarrow> isLower (toLower c) \<and> \<not> isUpper (toLower c)"
  by (auto simp: toLower_def isLower_def isUpper_def)

lemma hyphen_no_letter: "\<not> isLower CHR ''-''" "\<not> isUpper CHR ''-''"
  by (simp_all add: isLower_def isUpper_def)

lemma toUpper_props [simp]: "toUpper (toUpper c) = toUpper c" "toUpper c = CHR ''-'' \<longleftrightarrow> c = CHR ''-''"
  "fieldByte c \<Longrightarrow> fieldByte (toUpper c)"
proof -
  have up: "isLower c \<or> toUpper c = c" "\<not> isLower d \<Longrightarrow> toUpper d = d" for d by (simp_all add: toUpper_def)
  show "toUpper (toUpper c) = toUpper c" using up toUpper_lower by metis
  show "toUpper c = CHR ''-'' \<longleftrightarrow> c = CHR ''-''" using up(1) toUpper_lower hyphen_no_letter by metis
  show "fieldByte c \<Longrightarrow> fieldByte (toUpper c)" using up(1) toUpper_lower unfolding fieldByte_def by metis
qed

lemma toLower_props [simp]: "toLower (toLower c) = toLower c" "toLower c = CHR ''-'' \<longleftrightarrow> c = CHR ''-''"
  "fieldByte c \<Longrightarrow> fieldByte (toLower c)"
proof -
  have up: "isUpper c \<or> toLower c = c" "\<not> isUpper d \<Longrightarrow> toLower d = d" for d by (simp_all add: toLower_def)
  show "toLower (toLower c) = toLower c" using up toLower_upper by metis
  show "toLower c = CHR ''-'' \<longleftrightarrow> c = CHR ''-''" using up(1) toLower_upper hyphen_no_letter by metis
  show "fieldByte c \<Longrightarrow> fieldByte (toLower c)" using up(1) toLower_upper unfolding fieldByte_def by metis
qed

lemma canonicalize_idem: "canonicalize b (canonicalize b s) = canonicalize b s"
  by (induction b s rule: canonicalize.induct) auto

lemma canonicalize_fieldByte: "list_all fieldByte s \<Longrightarrow> list_all fieldByte (canonicalize b s)"
  by (induction b s rule: canonicalize.induct) auto

lemma Canonical_idem [simp]: "CanonicalMIMEHeaderKey (CanonicalMIMEHeaderKey s) = CanonicalMIMEHeaderKey s"
  using canonicalize_fieldByte [of s True] canonicalize_idem [of True s] by (simp add: CanonicalMIMEHeaderKey_def)

definition canonicalKeys :: "header \<Rightarrow> bool" where
  "canonicalKeys h \<longleftrightarrow> (\<forall>k \<in> fst ` set h. CanonicalMIMEHeaderKey k = k)"

lemma canonicalKeys_addField: "canonicalKeys h \<Longrightarrow> canonicalKeys (addField (CanonicalMIMEHeaderKey x) v h)"
  by (auto simp: canonicalKeys_def addField_def dom_update)

lemma readFields_canonical: "canonicalKeys h \<Longrightarrow> canonicalKeys (fst (readFields s h))"
proof (induction s h rule: readFields.induct)
  case (1 s h)
  show ?case
  proof (cases "readContinuedLine s")
    case (Some p)
    obtain kv r where p: "p = (kv, r)" by (cases p)
    note IH = "1.IH" [OF Some p [symmetric]]
    show ?thesis
      using IH "1.prems" canonicalKeys_addField Some p
      by (simp add: readFields.simps [of s h] Let_def)
  qed (use "1.prems" in \<open>simp add: readFields.simps [of s h]\<close>)
qed

section \<open>A header as it is written\<close>

text \<open>
  A field that reads back as it is: its name has only the characters of names, its value has no line
  break and no blanks around it.
\<close>

definition goodField :: "string \<times> string \<Rightarrow> bool" where
  "goodField f \<longleftrightarrow> fst f \<noteq> [] \<and> list_all fieldByte (fst f) \<and> LF \<notin> set (snd f) \<and>
     (snd f \<noteq> [] \<longrightarrow> \<not> blank (hd (snd f)) \<and> \<not> blank (last (snd f)))"

definition renderField :: "string \<times> string \<Rightarrow> bytes" where
  "renderField f = fst f @ '': '' @ snd f @ [CR, LF]"

definition renderMessage :: "(string \<times> string) list \<Rightarrow> bytes \<Rightarrow> bytes" where
  "renderMessage fs body = concat (map renderField fs) @ [CR, LF] @ body"

definition headerOf :: "(string \<times> string) list \<Rightarrow> header \<Rightarrow> header" where
  "headerOf fs h = foldl (\<lambda>h (k, v). addField (CanonicalMIMEHeaderKey k) v h) h fs"

lemma readLine_CRLF: "LF \<notin> set l \<Longrightarrow> readLine (l @ CR # LF # r) = Some (l, r)"
proof -
  assume a: "LF \<notin> set l"
  have "takeWhile (\<lambda>c. c \<noteq> LF) (l @ CR # LF # r) = l @ [CR]" "dropWhile (\<lambda>c. c \<noteq> LF) (l @ CR # LF # r) = LF # r"
    using a by (auto simp: takeWhile_append dropWhile_append CR_def LF_def)
  then show "readLine (l @ CR # LF # r) = Some (l, r)" by (simp add: readLine_def Let_def)
qed

lemma readContinuation_none: "s = [] \<or> \<not> blank (hd s) \<Longrightarrow> readContinuation s = ([], s)"
  by (cases s) (auto simp: readContinuation.simps [where s = "[]"] readContinuation.simps [where s = "c # t" for c t])

lemma fieldByte_plain: "fieldByte c \<Longrightarrow> \<not> blank c \<and> c \<noteq> LF \<and> c \<noteq> CR \<and> c \<noteq> CHR '':''"
  by (auto simp: fieldByte_def isLower_def isUpper_def isDigit_def LF_def CR_def)

lemma trimBlank_field:
  assumes "goodField f"
  shows "trimBlank (fst f @ '': '' @ snd f) = (if snd f = [] then fst f @ '':'' else fst f @ '': '' @ snd f)"
proof -
  obtain a k where k: "fst f = a # k" "\<not> blank a"
    using assms fieldByte_plain by (cases "fst f") (auto simp: goodField_def)
  show ?thesis
  proof (cases "snd f = []")
    case False
    then obtain v z where v: "snd f = v @ [z]" by (cases "snd f" rule: rev_cases) auto
    then have "\<not> blank z" using assms by (simp add: goodField_def)
    with k v show ?thesis by (simp add: trimBlank_def)
  qed (use k in \<open>simp add: trimBlank_def\<close>)
qed

lemma readContinuedLine_field:
  assumes "goodField f" "s = [] \<or> \<not> blank (hd s)"
  shows "readContinuedLine (renderField f @ s) =
    Some (if snd f = [] then fst f @ '':'' else fst f @ '': '' @ snd f, s)"
proof -
  have "LF \<notin> set (fst f @ '': '' @ snd f)"
    using assms(1) fieldByte_plain by (auto simp: goodField_def list_all_iff LF_def)
  then have "readLine (renderField f @ s) = Some (fst f @ '': '' @ snd f, s)"
    using readLine_CRLF [of "fst f @ '': '' @ snd f" s] by (simp add: renderField_def)
  then show ?thesis
    using trimBlank_field [OF assms(1)] readContinuation_none [OF assms(2)]
    by (simp add: readContinuedLine_def)
qed

lemma Canonical_not_Nil: "k \<noteq> [] \<Longrightarrow> CanonicalMIMEHeaderKey k \<noteq> []"
  by (cases k) (auto simp: CanonicalMIMEHeaderKey_def)

lemma readFields_field:
  assumes "goodField f" "s = [] \<or> \<not> blank (hd s)"
  shows "readFields (renderField f @ s) h = readFields s (addField (CanonicalMIMEHeaderKey (fst f)) (snd f) h)"
proof -
  let ?kv = "if snd f = [] then fst f @ '':'' else fst f @ '': '' @ snd f"
  have nc: "CHR '':'' \<notin> set (fst f)"
    using assms(1) fieldByte_plain by (auto simp: goodField_def list_all_iff)
  then have "takeWhile (\<lambda>c. c \<noteq> CHR '':'') ?kv = fst f"
    "dropWhile blank (tl (dropWhile (\<lambda>c. c \<noteq> CHR '':'') ?kv)) = snd f"
    using assms(1) by (cases "snd f"; auto simp: takeWhile_append dropWhile_append goodField_def)+
  then show ?thesis
    using readContinuedLine_field [OF assms] assms(1) Canonical_not_Nil [of "fst f"]
    by (simp add: readFields.simps [of "renderField f @ s"] goodField_def split del: if_split)
      (simp add: Let_def)
qed

lemma render_head:
  "list_all goodField fs \<Longrightarrow> renderMessage fs body \<noteq> [] \<and> \<not> blank (hd (renderMessage fs body))"
proof (cases fs)
  case (Cons f fs')
  moreover assume "list_all goodField fs"
  ultimately show ?thesis
    using fieldByte_plain by (cases "fst f") (auto simp: goodField_def renderMessage_def renderField_def)
qed (simp add: renderMessage_def CR_def)

lemma readFields_render:
  "list_all goodField fs \<Longrightarrow> readFields (renderMessage fs body) h = (headerOf fs h, HeaderDone, body)"
proof (induction fs arbitrary: h)
  case Nil
  have "readContinuedLine (renderMessage [] body) = Some ([], body)"
    using readLine_CRLF [of "[]" body] by (simp add: readContinuedLine_def renderMessage_def)
  then show ?case by (simp add: readFields.simps [of "renderMessage [] body"] headerOf_def)
next
  case (Cons f fs)
  have "renderMessage (f # fs) body = renderField f @ renderMessage fs body" by (simp add: renderMessage_def)
  then show ?case
    using Cons readFields_field [of f "renderMessage fs body" h] render_head [of fs body]
    by (simp add: headerOf_def split: prod.split)
qed

lemma ReadMessage_render:
  "list_all goodField fs \<Longrightarrow> ReadMessage (renderMessage fs body) = Some (headerOf fs [], body)"
  using readFields_render [of fs body "[]"] render_head [of fs body] by (simp add: ReadMessage_def)

text \<open>The values of a field are those written under any spelling of its name, in their order.\<close>

definition fieldValues :: "string \<Rightarrow> (string \<times> string) list \<Rightarrow> string list" where
  "fieldValues key fs =
     map snd (filter (\<lambda>f. CanonicalMIMEHeaderKey (fst f) = CanonicalMIMEHeaderKey key) fs)"

lemma map_of_headerOf:
  "map_of (headerOf fs h) (CanonicalMIMEHeaderKey key) =
     (case map_of h (CanonicalMIMEHeaderKey key) of
        Some vs \<Rightarrow> Some (vs @ fieldValues key fs)
      | None \<Rightarrow> if fieldValues key fs = [] then None else Some (fieldValues key fs))"
proof (induction fs arbitrary: h)
  case (Cons f fs)
  show ?case
    using Cons [of "addField (CanonicalMIMEHeaderKey (fst f)) (snd f) h"]
    by (auto simp: headerOf_def fieldValues_def addField_def split: option.split prod.splits)
qed (auto simp: headerOf_def fieldValues_def split: option.split)

end
