(* ===== verification/GoTime.thy ===== *)
theory GoTime
  imports GoStrings
begin

text \<open>
  What the program uses of Go's package \<open>time\<close> beyond instants and durations: a time with the offset
  of its zone, and its text in the layout \<open>time.RFC3339\<close>.
\<close>

record ztime =
  instant :: time
  zoneOffset :: int

definition IsZero :: "ztime \<Rightarrow> bool" where
  "IsZero t \<longleftrightarrow> instant t = zeroTime"

section \<open>The calendar\<close>

text \<open>
  Year, month and day of the day \<open>n\<close> (0 is January 1st of 1970) in the Gregorian calendar. Years are
  counted from March in eras of 400 years, so that a leap day is the last day of its year.
\<close>

definition yearOfEra :: "int \<Rightarrow> int" where
  "yearOfEra d = (d - d div 1460 + d div 36524 - d div 146096) div 365"

definition dayOfYear :: "int \<Rightarrow> int" where
  "dayOfYear d = d - (365 * yearOfEra d + yearOfEra d div 4 - yearOfEra d div 100)"

definition civil :: "int \<Rightarrow> int \<times> int \<times> int" where
  "civil n =
     (let z = n + 719468; era = z div 146097; doe = z mod 146097;
          doy = dayOfYear doe; mp = (5 * doy + 2) div 153;
          d = doy - (153 * mp + 2) div 5 + 1;
          m = (if mp < 10 then mp + 3 else mp - 9);
          y = yearOfEra doe + era * 400
      in (if m \<le> 2 then y + 1 else y, m, d))"

section \<open>RFC 3339\<close>

text \<open>A number with at least \<open>w\<close> digits; the sign comes first.\<close>

definition padInt :: "nat \<Rightarrow> int \<Rightarrow> string" where
  "padInt w i =
     (let ds = showNat (nat \<bar>i\<bar>)
      in (if i < 0 then ''-'' else []) @ replicate (w - length ds) CHR ''0'' @ ds)"

definition zoneText :: "int \<Rightarrow> string" where
  "zoneText off =
     (if off = 0 then ''Z''
      else
        (let mins = \<bar>off\<bar> div 60; neg = off \<le> - 60
         in (if neg then ''-'' else ''+'') @ padInt 2 (mins div 60) @ '':'' @ padInt 2 (mins mod 60)))"

definition formatRFC3339 :: "ztime \<Rightarrow> string" where
  "formatRFC3339 t =
     (let s = unixSec (instant t) + zoneOffset t; (y, m, d) = civil (s div 86400); r = s mod 86400
      in padInt 4 y @ ''-'' @ padInt 2 m @ ''-'' @ padInt 2 d @ ''T'' @ padInt 2 (r div 3600) @ '':'' @
         padInt 2 (r div 60 mod 60) @ '':'' @ padInt 2 (r mod 60) @ zoneText (zoneOffset t))"

lemma formatRFC3339_zero: "formatRFC3339 \<lparr>instant = zeroTime, zoneOffset = 0\<rparr> = ''0001-01-01T00:00:00Z''"
  by code_simp

lemma formatRFC3339_leap:
  "formatRFC3339 \<lparr>instant = timeUnix 1709254861, zoneOffset = - 5400\<rparr> = ''2024-02-29T23:31:01-01:30''"
  by code_simp

end
