(* ===== verification/Parser.thy ===== *)
theory Parser
  imports GoMail GoTime
begin

text \<open>
  \<open>internal/parser/parser.go\<close>: the metadata of a message. The parsers of \<open>net/mail\<close> for address
  lists and dates are parameters: \<open>pal\<close> gives the addresses of a list, \<open>pdate\<close> a date, \<open>None\<close> an
  error. Logging is left out.
\<close>

section \<open>Metadata\<close>

record MessageMetadata =
  mdMessageID :: string
  mdFrom :: string
  mdTo :: "string list"
  mdCc :: "string list"
  mdBcc :: "string list"
  mdSubject :: string
  mdDate :: ztime
  mdContentType :: string
  mdSize :: int
  mdHeaders :: header

type_synonym address_parser = "string \<Rightarrow> string list option"
type_synonym date_parser = "string \<Rightarrow> ztime option"

definition parseAddressList :: "address_parser \<Rightarrow> string \<Rightarrow> string list" where
  "parseAddressList pal addrList =
     (case pal addrList of
        None \<Rightarrow> filter (\<lambda>addr. addr \<noteq> []) (map trimSpace (splitOn CHR '','' addrList))
      | Some addrs \<Rightarrow> addrs)"

text \<open>The addresses of a header field, none when the field is empty or missing.\<close>

definition addressField :: "address_parser \<Rightarrow> header \<Rightarrow> string \<Rightarrow> string list" where
  "addressField pal h key = (let v = headerGet h key in if v \<noteq> [] then parseAddressList pal v else [])"

definition parsedDate :: "date_parser \<Rightarrow> header \<Rightarrow> ztime option" where
  "parsedDate pdate h = (let v = headerGet h ''Date'' in if v \<noteq> [] then pdate v else None)"

definition Parse :: "address_parser \<Rightarrow> date_parser \<Rightarrow> ztime \<Rightarrow> bytes \<Rightarrow> MessageMetadata option" where
  "Parse pal pdate now data =
     (case ReadMessage data of
        None \<Rightarrow> None
      | Some (h, body) \<Rightarrow>
          Some
            \<lparr>mdMessageID = headerGet h ''Message-ID'', mdFrom = headerGet h ''From'',
             mdTo = addressField pal h ''To'', mdCc = addressField pal h ''Cc'',
             mdBcc = addressField pal h ''Bcc'', mdSubject = headerGet h ''Subject'',
             mdDate = (case parsedDate pdate h of None \<Rightarrow> now | Some d \<Rightarrow> if IsZero d then now else d),
             mdContentType = headerGet h ''Content-Type'', mdSize = int (length data), mdHeaders = h\<rparr>)"

definition ParseBody :: "bytes \<Rightarrow> bytes option" where
  "ParseBody data = map_option snd (ReadMessage data)"

definition ExtractRecipients :: "MessageMetadata \<Rightarrow> string list" where
  "ExtractRecipients m = mdTo m @ mdCc m @ mdBcc m"

definition GetHeader :: "MessageMetadata \<Rightarrow> string \<Rightarrow> string" where
  "GetHeader m key = (case map_of (mdHeaders m) key of Some (v # vs) \<Rightarrow> v | _ \<Rightarrow> [])"

definition GetHeaders :: "MessageMetadata \<Rightarrow> string \<Rightarrow> string list" where
  "GetHeaders m key = (case map_of (mdHeaders m) key of Some vs \<Rightarrow> vs | None \<Rightarrow> [])"

end
