(* ===== verification/Queue.thy ===== *)
theory Queue
  imports GoJson Parser "HOL-Library.Multiset"
begin

text \<open>
  \<open>internal/queue/queue.go\<close>: the messages and the delivery queue in SQLite, as the lists of the rows
  of their tables (\<open>internal/db/schema.go\<close>). An SQL statement is what it says about the rows; a call of the database
  can fail, which an argument says. \<open>NULL\<close> is \<open>None\<close>.
\<close>

section \<open>Rows and items\<close>

datatype DeliveryState = StateQueued | StateDelivering | StateDelivered | StateTempFail | StatePermFail

fun deliveryStateName :: "DeliveryState \<Rightarrow> string" where
  "deliveryStateName StateQueued = ''queued''"
| "deliveryStateName StateDelivering = ''delivering''"
| "deliveryStateName StateDelivered = ''delivered''"
| "deliveryStateName StateTempFail = ''temp_fail''"
| "deliveryStateName StatePermFail = ''perm_fail''"

record DeliveryRow =
  dlv_id :: string
  msg_id :: string
  recipient :: string
  mx_hostname :: "string option"
  mx_ip :: "string option"
  state :: DeliveryState
  attempts :: int
  max_attempts :: int
  next_attempt :: int
  last_error :: "string option"
  smtp_code :: "int option"
  smtp_message :: "string option"
  created_at :: int
  updated_at :: int
  delivered_at :: "int option"

record QueueItem =
  DlvID :: string
  MsgID :: string
  Recipient :: string
  MXHostname :: string
  MXIP :: string
  qState :: DeliveryState
  Attempts :: int
  MaxAttempts :: int
  NextAttempt :: time
  LastError :: string
  SMTPCode :: int
  SMTPMessage :: string
  CreatedAt :: time
  UpdatedAt :: time
  DeliveredAt :: "time option"

text \<open>A row of the table of messages; only \<open>NOT NULL\<close> columns always have a value.\<close>

record MessageRow =
  row_msg_id :: string
  row_session_id :: string
  row_auth_user :: "string option"
  row_client_ip :: string
  row_mail_from :: string
  row_rcpt_to :: string
  row_message_size :: int
  row_body_hash :: string
  row_dedup_original :: "string option"
  row_created_at :: int
  row_current_stage :: string
  row_subject :: "string option"
  row_message_id_header :: "string option"
  row_date_header :: "string option"

text \<open>A message; the recipients may be the nil slice.\<close>

record Message =
  msgKey :: string
  msgSessionID :: string
  msgAuthUser :: string
  msgClientIP :: string
  msgMailFrom :: string
  msgRcptTo :: "string list option"
  msgSize :: int
  msgBodyHash :: string
  msgDedupOriginal :: string
  msgCreatedAt :: time
  msgCurrentStage :: string
  msgSubject :: string
  msgMessageIDHeader :: string
  msgDateHeader :: string

text \<open>The two tables.\<close>

record Db =
  deliveries :: "DeliveryRow list"
  messages :: "MessageRow list"

abbreviation messageIDs :: "Db \<Rightarrow> string list" where
  "messageIDs d \<equiv> map row_msg_id (messages d)"

text \<open>
  One call of the database: whether it fails for a reason of its own, and whether its connection
  checks foreign keys (the pragma was set on one connection of the pool).
\<close>

record sql_call =
  sql_fails :: bool
  sql_fk :: bool

definition sql_ok :: sql_call where
  "sql_ok = \<lparr>sql_fails = False, sql_fk = True\<rparr>"

datatype queue_error =
    EnqueueFailed | QueryFailed | UpdateFailed | StatsFailed | PanicNegativeLimit
  | InsertMessageFailed | MessageMissing string | GetMessageFailed | UnmarshalFailed | UpdateStageFailed

section \<open>Operations\<close>

text \<open>\<open>INSERT\<close> fails when the key is taken, or when the message is missing and keys are checked.\<close>

definition EnqueueDelivery ::
  "sql_call \<Rightarrow> string \<Rightarrow> time \<Rightarrow> string \<Rightarrow> string \<Rightarrow> int \<Rightarrow> Db \<Rightarrow> queue_error option \<times> Db" where
  "EnqueueDelivery x dlvID now msgID rcpt maxAttempts d =
     (if sql_fails x \<or> dlvID \<in> dlv_id ` set (deliveries d) \<or>
         sql_fk x \<and> msgID \<notin> set (messageIDs d)
      then (Some EnqueueFailed, d)
      else
        (None,
         d\<lparr>deliveries := deliveries d @
             [\<lparr>dlv_id = dlvID, msg_id = msgID, recipient = rcpt, mx_hostname = None, mx_ip = None,
               state = StateQueued, attempts = 0, max_attempts = maxAttempts,
               next_attempt = unixSec now, last_error = None, smtp_code = None, smtp_message = None,
               created_at = unixSec now, updated_at = unixSec now, delivered_at = None\<rparr>]\<rparr>))"

definition nullString :: "string option \<Rightarrow> string" where
  "nullString s = (case s of None \<Rightarrow> [] | Some x \<Rightarrow> x)"

definition rowToItem :: "DeliveryRow \<Rightarrow> QueueItem" where
  "rowToItem r =
     \<lparr>DlvID = dlv_id r, MsgID = msg_id r, Recipient = recipient r,
      MXHostname = nullString (mx_hostname r), MXIP = nullString (mx_ip r), qState = state r,
      Attempts = attempts r, MaxAttempts = max_attempts r, NextAttempt = timeUnix (next_attempt r),
      LastError = nullString (last_error r),
      SMTPCode = (case smtp_code r of None \<Rightarrow> 0 | Some c \<Rightarrow> c),
      SMTPMessage = nullString (smtp_message r), CreatedAt = timeUnix (created_at r),
      UpdatedAt = timeUnix (updated_at r), DeliveredAt = map_option timeUnix (delivered_at r)\<rparr>"

definition pendingRow :: "time \<Rightarrow> DeliveryRow \<Rightarrow> bool" where
  "pendingRow now r \<longleftrightarrow> state r \<in> {StateQueued, StateTempFail} \<and> next_attempt r \<le> unixSec now"

text \<open>
  \<open>ORDER BY next_attempt ASC\<close> sorts by the time and leaves the order of rows with the same time to the
  database, which visits the rows in an order of its choice, \<open>ord\<close>.
\<close>

type_synonym row_order = "DeliveryRow list \<Rightarrow> DeliveryRow list"

definition visits_rows :: "row_order \<Rightarrow> bool" where
  "visits_rows ord \<longleftrightarrow> (\<forall>rs. mset (ord rs) = mset rs)"

definition orderByNext :: "row_order \<Rightarrow> DeliveryRow list \<Rightarrow> DeliveryRow list" where
  "orderByNext ord rs = sort_key next_attempt (ord rs)"

definition GetPendingDeliveries ::
  "row_order \<Rightarrow> sql_call \<Rightarrow> time \<Rightarrow> int \<Rightarrow> Db \<Rightarrow> queue_error + QueueItem list" where
  "GetPendingDeliveries ord x now limit d =
     (if sql_fails x then Inl QueryFailed
      else if limit < 0 then Inl PanicNegativeLimit
      else Inr (map rowToItem (take (nat limit) (orderByNext ord (filter (pendingRow now) (deliveries d))))))"

record delivery_update =
  u_state :: DeliveryState
  u_mxHostname :: string
  u_mxIP :: string
  u_error :: string
  u_code :: int
  u_message :: string
  u_next :: time

definition updateRow :: "time \<Rightarrow> delivery_update \<Rightarrow> DeliveryRow \<Rightarrow> DeliveryRow" where
  "updateRow now u r =
     r\<lparr>state := u_state u, mx_hostname := Some (u_mxHostname u), mx_ip := Some (u_mxIP u),
       last_error := Some (u_error u), smtp_code := Some (u_code u), smtp_message := Some (u_message u),
       next_attempt := unixSec (u_next u), updated_at := unixSec now,
       delivered_at := (if u_state u = StateDelivered then Some (unixSec now) else None),
       attempts := attempts r + 1\<rparr>"

definition UpdateDeliveryState ::
  "sql_call \<Rightarrow> time \<Rightarrow> string \<Rightarrow> delivery_update \<Rightarrow> Db \<Rightarrow> queue_error option \<times> Db" where
  "UpdateDeliveryState x now dlvID u d =
     (if sql_fails x then (Some UpdateFailed, d)
      else
        (None,
         d\<lparr>deliveries :=
             map (\<lambda>r. if dlv_id r = dlvID then updateRow now u r else r) (deliveries d)\<rparr>))"

text \<open>\<open>GROUP BY state\<close> has a group only for a state that occurs.\<close>

definition GetQueueStats :: "sql_call \<Rightarrow> Db \<Rightarrow> queue_error + (string \<rightharpoonup> nat)" where
  "GetQueueStats x d =
     (if sql_fails x then Inl StatsFailed
      else Inr (\<lambda>s. let n = length (filter (\<lambda>r. deliveryStateName (state r) = s) (deliveries d))
                    in if n = 0 then None else Some n))"

section \<open>Messages\<close>

definition messageRow :: "Message \<Rightarrow> MessageRow" where
  "messageRow m =
     \<lparr>row_msg_id = msgKey m, row_session_id = msgSessionID m, row_auth_user = Some (msgAuthUser m),
      row_client_ip = msgClientIP m, row_mail_from = msgMailFrom m,
      row_rcpt_to = MarshalStrings (msgRcptTo m), row_message_size = msgSize m,
      row_body_hash = msgBodyHash m, row_dedup_original = Some (msgDedupOriginal m),
      row_created_at = unixSec (msgCreatedAt m), row_current_stage = msgCurrentStage m,
      row_subject = Some (msgSubject m), row_message_id_header = Some (msgMessageIDHeader m),
      row_date_header = Some (msgDateHeader m)\<rparr>"

definition AddMessage :: "sql_call \<Rightarrow> Message \<Rightarrow> Db \<Rightarrow> queue_error option \<times> Db" where
  "AddMessage x m d =
     (if sql_fails x \<or> msgKey m \<in> set (messageIDs d) then (Some InsertMessageFailed, d)
      else (None, d\<lparr>messages := messages d @ [messageRow m]\<rparr>))"

text \<open>Scanning \<open>NULL\<close> into a string is an error, except for \<open>dedup_original\<close>.\<close>

definition scanMessage :: "MessageRow \<Rightarrow> queue_error + Message" where
  "scanMessage r =
     (case (row_auth_user r, row_subject r, row_message_id_header r, row_date_header r) of
        (Some user, Some subject, Some idHeader, Some dateHeader) \<Rightarrow>
          (case UnmarshalStrings (row_rcpt_to r) of
             None \<Rightarrow> Inl UnmarshalFailed
           | Some rcpts \<Rightarrow>
               Inr \<lparr>msgKey = row_msg_id r, msgSessionID = row_session_id r, msgAuthUser = user,
                    msgClientIP = row_client_ip r, msgMailFrom = row_mail_from r, msgRcptTo = rcpts,
                    msgSize = row_message_size r, msgBodyHash = row_body_hash r,
                    msgDedupOriginal = nullString (row_dedup_original r),
                    msgCreatedAt = timeUnix (row_created_at r), msgCurrentStage = row_current_stage r,
                    msgSubject = subject, msgMessageIDHeader = idHeader, msgDateHeader = dateHeader\<rparr>)
      | _ \<Rightarrow> Inl GetMessageFailed)"

definition GetMessage :: "sql_call \<Rightarrow> string \<Rightarrow> Db \<Rightarrow> queue_error + Message" where
  "GetMessage x i d =
     (if sql_fails x then Inl GetMessageFailed
      else
        (case find (\<lambda>r. row_msg_id r = i) (messages d) of
           None \<Rightarrow> Inl (MessageMissing i)
         | Some r \<Rightarrow> scanMessage r))"

definition UpdateMessageStage :: "sql_call \<Rightarrow> string \<Rightarrow> string \<Rightarrow> Db \<Rightarrow> queue_error option \<times> Db" where
  "UpdateMessageStage x i stage d =
     (if sql_fails x then (Some UpdateStageFailed, d)
      else
        (None,
         d\<lparr>messages :=
             map (\<lambda>r. if row_msg_id r = i then r\<lparr>row_current_stage := stage\<rparr> else r) (messages d)\<rparr>))"

definition ConvertMetadataToMessage ::
  "time \<Rightarrow> string \<Rightarrow> string \<Rightarrow> string \<Rightarrow> string \<Rightarrow> string \<Rightarrow> string list option \<Rightarrow> MessageMetadata \<Rightarrow> string \<Rightarrow>
   Message" where
  "ConvertMetadataToMessage now i sid user ip sender rcpts md hash =
     \<lparr>msgKey = i, msgSessionID = sid, msgAuthUser = user, msgClientIP = ip, msgMailFrom = sender,
      msgRcptTo = rcpts, msgSize = mdSize md, msgBodyHash = hash, msgDedupOriginal = [],
      msgCreatedAt = now, msgCurrentStage = ''parsed'', msgSubject = mdSubject md,
      msgMessageIDHeader = mdMessageID md, msgDateHeader = formatRFC3339 (mdDate md)\<rparr>"

section \<open>The table\<close>

definition rowAt :: "Db \<Rightarrow> string \<Rightarrow> DeliveryRow option" where
  "rowAt d i = find (\<lambda>r. dlv_id r = i) (deliveries d)"

definition dbInv :: "Db \<Rightarrow> bool" where
  "dbInv d \<longleftrightarrow> distinct (map dlv_id (deliveries d))"

lemma dbInv_Enqueue: "dbInv d \<Longrightarrow> dbInv (snd (EnqueueDelivery x i t m r n d))"
  by (auto simp: dbInv_def EnqueueDelivery_def)

lemma dlv_id_updateRow [simp]: "dlv_id (updateRow now u r) = dlv_id r"
  by (simp add: updateRow_def)

lemma map_dlv_id_update:
  "map dlv_id (map (\<lambda>r. if dlv_id r = i then updateRow now u r else r) rs) = map dlv_id rs"
  by (induction rs) auto

lemma dbInv_Update: "dbInv d \<Longrightarrow> dbInv (snd (UpdateDeliveryState x t i u d))"
  using map_dlv_id_update [of i t u "deliveries d"]
  by (simp add: dbInv_def UpdateDeliveryState_def del: map_map)

lemma rowAt_Some: "dbInv d \<Longrightarrow> rowAt d i = Some r \<longleftrightarrow> r \<in> set (deliveries d) \<and> dlv_id r = i"
proof -
  have "distinct (map dlv_id rs) \<Longrightarrow>
      find (\<lambda>r. dlv_id r = i) rs = Some r \<longleftrightarrow> r \<in> set rs \<and> dlv_id r = i" for rs
    by (induction rs) auto
  then show "dbInv d \<Longrightarrow> ?thesis" by (simp add: dbInv_def rowAt_def)
qed

lemma rowAt_Update:
  assumes "UpdateDeliveryState x t i u d = (None, d')"
  shows "rowAt d' k = (if k = i then map_option (updateRow t u) (rowAt d k) else rowAt d k)"
proof -
  have "find (\<lambda>r. dlv_id r = k) (map (\<lambda>r. if dlv_id r = i then updateRow t u r else r) rs) =
      (if k = i then map_option (updateRow t u) (find (\<lambda>r. dlv_id r = k) rs)
       else find (\<lambda>r. dlv_id r = k) rs)" for rs
    by (induction rs) auto
  then show ?thesis using assms by (auto simp: UpdateDeliveryState_def rowAt_def split: if_splits)
qed

lemma rowAt_Enqueue:
  assumes "EnqueueDelivery x i t m c n d = (None, d')"
  shows "rowAt d i = None" and "k \<noteq> i \<Longrightarrow> rowAt d' k = rowAt d k"
    and "\<exists>r. rowAt d' i = Some r \<and> msg_id r = m \<and> recipient r = c \<and> state r = StateQueued \<and>
           attempts r = 0 \<and> max_attempts r = n \<and> next_attempt r = unixSec t"
proof -
  have ap: "find P (xs @ ys) = (case find P xs of None \<Rightarrow> find P ys | Some x \<Rightarrow> Some x)"
    for P :: "DeliveryRow \<Rightarrow> bool" and xs ys
    by (induction xs) auto
  show "rowAt d i = None"
    using assms by (auto simp: EnqueueDelivery_def rowAt_def find_None_iff split: if_splits)
  then show "k \<noteq> i \<Longrightarrow> rowAt d' k = rowAt d k"
    and "\<exists>r. rowAt d' i = Some r \<and> msg_id r = m \<and> recipient r = c \<and> state r = StateQueued \<and>
           attempts r = 0 \<and> max_attempts r = n \<and> next_attempt r = unixSec t"
    using assms by (auto simp: EnqueueDelivery_def rowAt_def ap split: if_splits option.split)
qed

lemma rowAt_Enqueue_fresh:
  assumes "EnqueueDelivery x i t m c n d = (None, d')"
  shows "\<exists>r. rowAt d' i = Some r \<and> msg_id r = m \<and> recipient r = c \<and> state r = StateQueued \<and>
    attempts r = 0 \<and> max_attempts r = n \<and> next_attempt r = unixSec t \<and> created_at r = unixSec t \<and>
    mx_hostname r = None \<and> last_error r = None \<and> delivered_at r = None"
proof -
  have "find (\<lambda>r. dlv_id r = i) (deliveries d) = None"
    using rowAt_Enqueue(1) [OF assms] by (simp add: rowAt_def)
  moreover have "find P (xs @ ys) = (case find P xs of None \<Rightarrow> find P ys | Some x \<Rightarrow> Some x)"
    for P :: "DeliveryRow \<Rightarrow> bool" and xs ys
    by (induction xs) auto
  ultimately show ?thesis using assms by (auto simp: EnqueueDelivery_def rowAt_def split: if_splits)
qed

section \<open>What is pending\<close>

lemma pending_Inr:
  assumes "visits_rows ord" "GetPendingDeliveries ord x now limit d = Inr items"
  shows "\<exists>rs. items = map rowToItem rs \<and> mset rs \<subseteq># mset (filter (pendingRow now) (deliveries d)) \<and>
    sorted (map next_attempt rs) \<and> length rs = min (nat limit) (length (filter (pendingRow now) (deliveries d))) \<and>
    (\<forall>r \<in> set (filter (pendingRow now) (deliveries d)). r \<in> set rs \<or> (\<forall>q \<in> set rs. next_attempt q \<le> next_attempt r))"
proof -
  let ?ps = "filter (pendingRow now) (deliveries d)" and ?ord = "orderByNext ord"
  have o: "mset (?ord ?ps) = mset ?ps" "sorted (map next_attempt (?ord ?ps))"
    using assms(1) by (simp_all add: visits_rows_def orderByNext_def)
  define rs where "rs = take (nat limit) (?ord ?ps)"
  have split: "?ord ?ps = rs @ drop (nat limit) (?ord ?ps)" by (simp add: rs_def)
  have "mset rs \<subseteq># mset ?ps"
    using o(1) split by (metis mset_append mset_subset_eq_add_left)
  moreover have "sorted (map next_attempt rs @ map next_attempt (drop (nat limit) (?ord ?ps)))"
    using o(2) split by (metis map_append)
  then have "sorted (map next_attempt rs)"
    and "\<forall>q \<in> set rs. \<forall>r \<in> set (drop (nat limit) (?ord ?ps)). next_attempt q \<le> next_attempt r"
    by (auto simp: sorted_append)
  moreover have "set ?ps = set rs \<union> set (drop (nat limit) (?ord ?ps))"
    using o(1) split by (metis mset_eq_setD set_append)
  moreover have "length rs = min (nat limit) (length ?ps)"
    using o(1) by (metis length_take mset_eq_length rs_def min.commute)
  moreover have "items = map rowToItem rs"
    using assms(2) by (simp add: GetPendingDeliveries_def rs_def split: if_splits)
  ultimately show ?thesis by (intro exI [of _ rs]) auto
qed

lemma visits_rows_id: "visits_rows (\<lambda>rs. rs)"
  by (simp add: visits_rows_def)

end
