(* ===== verification/ClickHouse.thy ===== *)
theory ClickHouse
  imports Metrics
begin

text \<open>
  \<open>internal/clickhouse/client.go\<close>: the buffered event logger. It sends nothing yet: a flush takes the
  buffer and counts its events as logged. Several goroutines flush at the same time; what each has taken
  under the lock and not yet counted is in \<open>inflight\<close>.
\<close>

record Event =
  EventID :: string
  EventTime :: time
  ev_MsgID :: string
  ev_SessionID :: string
  ev_ClientIP :: string
  ev_ClientPort :: int
  ev_ClientRDNS :: string
  ev_ListenerIP :: string
  ev_ListenerPort :: int
  ev_TLSVersion :: string
  ev_TLSCipher :: string
  ev_SNIHostname :: string
  ev_TLSMode :: string
  ev_AuthUser :: string
  ev_AuthMethod :: string
  ev_AuthResult :: string
  ev_AuthDuration :: int
  ev_MailFrom :: string
  ev_RcptTo :: "string list"
  ev_MessageSize :: int
  ev_Subject :: string
  ev_MessageID :: string
  ev_Date :: string
  ev_FromHeader :: string
  ev_ToHeader :: string
  ev_Stage :: string
  ev_StageDuration :: int
  ev_BodyHash :: string
  ev_DedupDuplicate :: bool
  ev_DedupOriginalMsgID :: string
  ev_DKIMEnabled :: bool
  ev_DKIMSigned :: bool
  ev_DKIMSelector :: string
  ev_DKIMDomain :: string
  ev_DKIMResult :: string
  ev_DKIMError :: string
  ev_Modified :: bool
  ev_ModificationProfile :: string
  ev_HeadersAdded :: "string list"
  ev_HeadersRemoved :: "string list"
  ev_Recipient :: string
  ev_MXHostname :: string
  ev_MXIP :: string
  ev_MXPort :: int
  ev_SMTPCode :: int
  ev_SMTPMessage :: string
  ev_DeliveryDuration :: int
  ev_DeliveryResult :: string
  ev_DeliveryAttempt :: int
  ev_NextRetryTime :: time
  ev_DSNRet :: string
  ev_DSNEnvid :: string
  ev_DSNNotify :: "string list"
  ev_DSNOrcpt :: string
  ev_TotalDuration :: int
  ev_QueueWait :: int
  ev_RateLimited :: bool
  ev_RateLimitType :: string
  ev_ErrorOccurred :: bool
  ev_ErrorMessage :: string
  ev_ErrorCode :: string
  ev_Tags :: "string list"
  ev_CustomFields :: "(string \<times> string) list"

definition zeroEvent :: Event where
  "zeroEvent =
     \<lparr>EventID = [], EventTime = zeroTime, ev_MsgID = [], ev_SessionID = [],
      ev_ClientIP = [], ev_ClientPort = 0, ev_ClientRDNS = [], ev_ListenerIP = [],
      ev_ListenerPort = 0, ev_TLSVersion = [], ev_TLSCipher = [], ev_SNIHostname = [],
      ev_TLSMode = [], ev_AuthUser = [], ev_AuthMethod = [], ev_AuthResult = [],
      ev_AuthDuration = 0, ev_MailFrom = [], ev_RcptTo = [], ev_MessageSize = 0,
      ev_Subject = [], ev_MessageID = [], ev_Date = [], ev_FromHeader = [],
      ev_ToHeader = [], ev_Stage = [], ev_StageDuration = 0, ev_BodyHash = [],
      ev_DedupDuplicate = False, ev_DedupOriginalMsgID = [], ev_DKIMEnabled = False,
      ev_DKIMSigned = False, ev_DKIMSelector = [], ev_DKIMDomain = [], ev_DKIMResult = [],
      ev_DKIMError = [], ev_Modified = False, ev_ModificationProfile = [],
      ev_HeadersAdded = [], ev_HeadersRemoved = [], ev_Recipient = [], ev_MXHostname = [],
      ev_MXIP = [], ev_MXPort = 0, ev_SMTPCode = 0, ev_SMTPMessage = [],
      ev_DeliveryDuration = 0, ev_DeliveryResult = [], ev_DeliveryAttempt = 0,
      ev_NextRetryTime = zeroTime, ev_DSNRet = [], ev_DSNEnvid = [], ev_DSNNotify = [],
      ev_DSNOrcpt = [], ev_TotalDuration = 0, ev_QueueWait = 0, ev_RateLimited = False,
      ev_RateLimitType = [], ev_ErrorOccurred = False, ev_ErrorMessage = [],
      ev_ErrorCode = [], ev_Tags = [], ev_CustomFields = []\<rparr>"

text \<open>
  The configuration, and the client: its buffer size, the buffer, the flushes a full buffer has asked for and that have not
  started, the events each running flush has still to count, the metrics, whether the channel that stops
  the flush worker is closed, and whether the worker has still to make its last flush.
\<close>

record ClientConfig =
  cc_Addresses :: "string list"
  cc_Database :: string
  cc_Username :: string
  cc_Password :: string
  cc_BufferSize :: int
  cc_FlushInterval :: duration
  cc_RetryMaxInterval :: duration
  cc_Compression :: bool

record Client =
  bufferSize :: int
  chBuffer :: "Event list"
  triggered :: nat
  inflight :: "Event list list"
  chMets :: metrics
  chStopped :: bool
  chWorking :: bool

definition freshClient :: "int \<Rightarrow> metrics \<Rightarrow> Client" where
  "freshClient n ms =
     \<lparr>bufferSize = n, chBuffer = [], triggered = 0, inflight = [], chMets = ms,
      chStopped = False, chWorking = True\<rparr>"

text \<open>
  \<open>None\<close> is a panic: \<open>make\<close> takes no negative capacity, a ticker no interval that is not positive.
\<close>

definition NewClient :: "ClientConfig \<Rightarrow> metrics \<Rightarrow> Client option" where
  "NewClient cfg ms =
     (if cc_BufferSize cfg < 0 \<or> cc_FlushInterval cfg \<le> 0 then None
      else Some (freshClient (cc_BufferSize cfg) ms))"

definition LogEvent :: "Event \<Rightarrow> Client \<Rightarrow> Client" where
  "LogEvent event c =
     (let buf = chBuffer c @ [event]
      in c\<lparr>chBuffer := buf,
           triggered := (if bufferSize c \<le> int (length buf) then Suc (triggered c) else triggered c),
           chMets := SetClickHouseBufferSize (int (length buf)) (chMets c)\<rparr>)"

text \<open>The part of \<open>flush\<close> under the lock.\<close>

definition takeBuffer :: "Client \<Rightarrow> Client" where
  "takeBuffer c =
     (if chBuffer c = [] then c else c\<lparr>chBuffer := [], inflight := inflight c @ [chBuffer c]\<rparr>)"

text \<open>The \<open>i\<close>-th running flush counts its next event.\<close>

definition countEvent :: "nat \<Rightarrow> Client \<Rightarrow> Client" where
  "countEvent i c =
     (if i < length (inflight c) then
        (case inflight c ! i of
           [] \<Rightarrow> c
         | e # es \<Rightarrow>
             c\<lparr>inflight := (inflight c)[i := es], chMets := RecordClickHouseEvent ''success'' (chMets c)\<rparr>)
      else c)"

text \<open>A flush that nothing interrupts.\<close>

definition flush :: "Client \<Rightarrow> Client" where
  "flush c =
     (if chBuffer c = [] then c
      else c\<lparr>chBuffer := [],
             chMets := fold (\<lambda>event. RecordClickHouseEvent ''success'') (chBuffer c) (chMets c)\<rparr>)"

text \<open>
  A turn of the flush worker's loop: the timer has fired, or it sees that the client is closed, flushes for
  the last time and ends. It flushes like any other goroutine, by taking the buffer first.
\<close>

datatype flush_wake = FlushTimer | FlushStop

definition workerTurn :: "flush_wake \<Rightarrow> Client \<Rightarrow> Client" where
  "workerTurn wake c =
     (case wake of
        FlushTimer \<Rightarrow> if chWorking c then takeBuffer c else c
      | FlushStop \<Rightarrow> if chWorking c \<and> chStopped c then (takeBuffer c)\<lparr>chWorking := False\<rparr> else c)"

definition GetBufferSize :: "Client \<Rightarrow> int" where
  "GetBufferSize c = int (length (chBuffer c))"

text \<open>\<open>Duration.Milliseconds\<close> truncates towards zero.\<close>

definition milliseconds :: "duration \<Rightarrow> int" where
  "milliseconds d = (if 0 \<le> d then d div 1000000 else - ((- d) div 1000000))"

definition LogConnectionEvent ::
  "time \<Rightarrow> string \<Rightarrow> string \<Rightarrow> string \<Rightarrow> string \<Rightarrow> string \<Rightarrow> string \<Rightarrow> int \<Rightarrow> Client \<Rightarrow> Client" where
  "LogConnectionEvent now sid ip tlsVer cipher sni mode port c =
     LogEvent
       (zeroEvent\<lparr>EventID := sid @ ''-conn'', EventTime := now, ev_SessionID := sid, ev_ClientIP := ip,
          ev_TLSVersion := tlsVer, ev_TLSCipher := cipher, ev_SNIHostname := sni, ev_TLSMode := mode,
          ev_ListenerPort := port, ev_Stage := ''connection''\<rparr>) c"

definition LogAuthEvent ::
  "time \<Rightarrow> string \<Rightarrow> string \<Rightarrow> string \<Rightarrow> string \<Rightarrow> duration \<Rightarrow> Client \<Rightarrow> Client" where
  "LogAuthEvent now sid user method result d c =
     LogEvent
       (zeroEvent\<lparr>EventID := sid @ ''-auth'', EventTime := now, ev_SessionID := sid, ev_AuthUser := user,
          ev_AuthMethod := method, ev_AuthResult := result, ev_AuthDuration := milliseconds d,
          ev_Stage := ''authentication''\<rparr>) c"

definition LogMessageEvent ::
  "time \<Rightarrow> string \<Rightarrow> string \<Rightarrow> string \<Rightarrow> string \<Rightarrow> string \<Rightarrow> string list \<Rightarrow> int \<Rightarrow> Client \<Rightarrow> Client" where
  "LogMessageEvent now msgID sid user ip sender rcpts sz c =
     LogEvent
       (zeroEvent\<lparr>EventID := msgID @ ''-accept'', EventTime := now, ev_MsgID := msgID,
          ev_SessionID := sid, ev_AuthUser := user, ev_ClientIP := ip, ev_MailFrom := sender,
          ev_RcptTo := rcpts, ev_MessageSize := sz, ev_Stage := ''accepted''\<rparr>) c"

definition LogDeliveryEvent ::
  "time \<Rightarrow> string \<Rightarrow> string \<Rightarrow> string \<Rightarrow> string \<Rightarrow> string \<Rightarrow> int \<Rightarrow> string \<Rightarrow> duration \<Rightarrow> int \<Rightarrow>
   Client \<Rightarrow> Client" where
  "LogDeliveryEvent now msgID recipient mxHost mxIP result code msg d attempt c =
     LogEvent
       (zeroEvent\<lparr>EventID := msgID @ ''-'' @ recipient @ ''-dlv'', EventTime := now, ev_MsgID := msgID,
          ev_Recipient := recipient, ev_MXHostname := mxHost, ev_MXIP := mxIP, ev_SMTPCode := code,
          ev_SMTPMessage := msg, ev_DeliveryDuration := milliseconds d, ev_DeliveryResult := result,
          ev_DeliveryAttempt := attempt, ev_Stage := ''delivery''\<rparr>) c"

section \<open>No event is lost or counted twice\<close>

text \<open>
  What happens to a client, in any interleaving: an event is logged; a flush takes the buffer, because
  it was asked for; a flush counts an event; the worker makes a turn.
\<close>

datatype client_event = Logged Event | Flushes | Counts nat | WorkerTurns flush_wake

fun clientStep :: "Client \<Rightarrow> client_event \<Rightarrow> Client" where
  "clientStep c (Logged e) = LogEvent e c"
| "clientStep c Flushes = takeBuffer c"
| "clientStep c (Counts i) = countEvent i c"
| "clientStep c (WorkerTurns wake) = workerTurn wake c"

text \<open>
  \<open>Close\<close> tells the worker to stop and sleeps for 100 ms; \<open>during\<close> is what the other goroutines do in this
  time. It waits for none of them. Closing a closed channel panics (\<open>None\<close>).
\<close>

definition Close :: "client_event list \<Rightarrow> Client \<Rightarrow> Client option" where
  "Close during c =
     (if chStopped c then None else Some (run clientStep (c\<lparr>chStopped := True\<rparr>) during))"

definition loggedCount :: "client_event list \<Rightarrow> nat" where
  "loggedCount es = length (filter (\<lambda>e. case e of Logged x \<Rightarrow> True | _ \<Rightarrow> False) es)"

definition waiting :: "Client \<Rightarrow> nat" where
  "waiting c = length (chBuffer c) + sum_list (map length (inflight c))"

definition counted :: "Client \<Rightarrow> nat" where
  "counted c = counterVal (chMets c) ClickHouseEventsTotal [''success'']"

lemma sum_list_update_length:
  "i < length xs \<Longrightarrow> xs ! i = e # es \<Longrightarrow>
     Suc (sum_list (map length (xs[i := es]))) = sum_list (map length xs)"
proof (induction xs arbitrary: i)
  case (Cons x xs)
  then show ?case by (cases i) auto
qed simp

lemma clientStep_conserves:
  "waiting (clientStep c e) + counted (clientStep c e) =
     waiting c + counted c + (case e of Logged x \<Rightarrow> 1 | _ \<Rightarrow> 0)"
proof (cases e)
  case (Counts i)
  then show ?thesis
    using sum_list_update_length [of i "inflight c"]
    by (auto simp: waiting_def counted_def countEvent_def RecordClickHouseEvent_def split: list.split)
next
  case (WorkerTurns wake)
  then show ?thesis by (cases wake) (auto simp: waiting_def counted_def workerTurn_def takeBuffer_def)
qed (simp_all add: waiting_def counted_def LogEvent_def Let_def takeBuffer_def
    SetClickHouseBufferSize_def)

lemma run_conserves:
  "waiting (run clientStep c es) + counted (run clientStep c es) =
     waiting c + counted c + loggedCount es"
proof (induction es arbitrary: c)
  case (Cons e es)
  then show ?case
    using clientStep_conserves [of c e] by (simp add: loggedCount_def split: client_event.splits)
qed (simp add: loggedCount_def)

text \<open>
  A flush asked for or not, the buffer it leaves is empty: only \<open>LogEvent\<close> makes it longer, and each
  event that fills it asks for a flush.
\<close>

definition clientInv :: "Client \<Rightarrow> bool" where
  "clientInv c \<longleftrightarrow> (bufferSize c \<le> int (length (chBuffer c)) \<and> chBuffer c \<noteq> [] \<longrightarrow> 0 < triggered c)"

interpretation client_machine: event_system "\<lambda>c. chBuffer c = []" clientStep clientInv
proof unfold_locales
  show "clientInv c" if "chBuffer c = []" for c using that by (simp add: clientInv_def)
  show "clientInv (clientStep c e)" if "clientInv c" for c e
    using that
    by (cases e) (auto simp: clientInv_def LogEvent_def takeBuffer_def countEvent_def workerTurn_def Let_def
        split: list.split flush_wake.split)
qed

section \<open>Flushing in one piece and in steps\<close>

lemma counted_fold_record:
  "counterVal (fold (\<lambda>event. RecordClickHouseEvent ''success'') es ms) ClickHouseEventsTotal [''success''] =
     counterVal ms ClickHouseEventsTotal [''success''] + length es"
  by (induction es arbitrary: ms) (simp_all add: RecordClickHouseEvent_def)

lemma run_counts:
  "inflight c = xs @ [es] \<Longrightarrow>
     run clientStep c (replicate (length es) (Counts (length xs))) =
       c\<lparr>inflight := xs @ [[]], chMets := fold (\<lambda>event. RecordClickHouseEvent ''success'') es (chMets c)\<rparr>"
proof (induction es arbitrary: c)
  case (Cons e es)
  let ?c = "c\<lparr>inflight := xs @ [es], chMets := RecordClickHouseEvent ''success'' (chMets c)\<rparr>"
  have "clientStep c (Counts (length xs)) = ?c" using Cons.prems by (simp add: countEvent_def)
  then show ?case using Cons.IH [of ?c] by simp
qed simp

text \<open>A flush that nothing interrupts does what its steps do: it takes the buffer and counts every event.\<close>

lemma flush_steps:
  "run clientStep c (Flushes # replicate (length (chBuffer c)) (Counts (length (inflight c)))) =
     (flush c)\<lparr>inflight := inflight c @ (if chBuffer c = [] then [] else [[]])\<rparr>"
proof (cases "chBuffer c = []")
  case False
  then show ?thesis
    using run_counts [of "takeBuffer c" "inflight c" "chBuffer c"] by (simp add: takeBuffer_def flush_def)
qed (simp add: takeBuffer_def flush_def)

section \<open>Closing\<close>

lemma loggedCount_Cons: "loggedCount (e # es) = (case e of Logged x \<Rightarrow> 1 | _ \<Rightarrow> 0) + loggedCount es"
  by (simp add: loggedCount_def split: client_event.split)

text \<open>The buffer only grows by what is logged, and the worker ends only by its last turn.\<close>

lemma clientStep_buffer:
  "length (chBuffer (clientStep c e)) \<le> length (chBuffer c) + (case e of Logged x \<Rightarrow> 1 | _ \<Rightarrow> 0)"
  "chStopped (clientStep c e) = chStopped c"
  "e \<noteq> WorkerTurns FlushStop \<Longrightarrow> chWorking (clientStep c e) = chWorking c"
  by (cases e; auto simp: LogEvent_def Let_def takeBuffer_def countEvent_def workerTurn_def
      split: list.split flush_wake.split)+

lemma run_buffer: "length (chBuffer (run clientStep c es)) \<le> length (chBuffer c) + loggedCount es"
proof (induction es arbitrary: c)
  case (Cons e es)
  show ?case
    using Cons.IH [of "clientStep c e"] clientStep_buffer(1) [of c e]
    by (simp add: loggedCount_Cons)
qed (simp add: loggedCount_def)

lemma run_stopped: "chStopped (run clientStep c es) = chStopped c"
  by (induction es arbitrary: c) (simp_all add: clientStep_buffer)

lemma run_working: "WorkerTurns FlushStop \<notin> set es \<Longrightarrow> chWorking (run clientStep c es) = chWorking c"
proof (induction es arbitrary: c)
  case (Cons e es)
  have "e \<noteq> WorkerTurns FlushStop" using Cons.prems by auto
  then have "chWorking (clientStep c e) = chWorking c" by (rule clientStep_buffer(3))
  then show ?case using Cons by simp
qed simp

lemma clientStep_idle: "\<not> chWorking c \<Longrightarrow> \<not> chWorking (clientStep c e)"
  by (cases e) (auto simp: LogEvent_def Let_def takeBuffer_def countEvent_def workerTurn_def
      split: list.split flush_wake.split)

lemma run_idle: "\<not> chWorking c \<Longrightarrow> \<not> chWorking (run clientStep c es)"
  by (induction es arbitrary: c) (simp_all add: clientStep_idle)

lemma waiting_sum: "waiting c = length (chBuffer c) + length (concat (inflight c))"
  by (simp add: waiting_def length_concat)

text \<open>C26: When \<open>Close\<close> returns and the worker has had its last turn in the time \<open>Close\<close> sleeps, nothing that was
  logged before this turn is in the buffer: each event has been counted or is in a flush that has not
  come to it, and none is counted twice or lost. Only events that were logged after the turn can be left in
  the buffer. The worker has ended, and closing again panics.\<close>

theorem close_flushes:
  assumes "Close (pre @ WorkerTurns FlushStop # post) c = Some c'" "chWorking c" "WorkerTurns FlushStop \<notin> set pre"
  shows "GetBufferSize c' \<le> int (loggedCount post) \<and>
    counted c' + length (concat (inflight c')) + length (chBuffer c') =
      counted c + length (concat (inflight c)) + length (chBuffer c) + loggedCount pre + loggedCount post \<and>
    \<not> chWorking c' \<and> Close es c' = None"
proof -
  let ?c0 = "c\<lparr>chStopped := True\<rparr>"
  let ?c1 = "run clientStep ?c0 pre"
  let ?c2 = "workerTurn FlushStop ?c1"
  have c': "c' = run clientStep ?c2 post"
    using assms(1) by (simp add: Close_def run_append split: if_splits)
  have c1: "chStopped ?c1" "chWorking ?c1" using run_stopped [of ?c0 pre] run_working [OF assms(3), of ?c0] assms(2) by simp_all
  then have c2: "chBuffer ?c2 = []" "\<not> chWorking ?c2" "chStopped ?c2"
    by (simp_all add: workerTurn_def takeBuffer_def)
  have all: "loggedCount (pre @ WorkerTurns FlushStop # post) = loggedCount pre + loggedCount post"
    by (simp add: loggedCount_def)
  have "waiting c' + counted c' = waiting ?c0 + counted ?c0 + loggedCount (pre @ WorkerTurns FlushStop # post)"
    using run_conserves [of ?c0 "pre @ WorkerTurns FlushStop # post"] c' by (simp add: run_append)
  moreover have "waiting ?c0 = waiting c" "counted ?c0 = counted c" by (simp_all add: waiting_def counted_def)
  moreover have "length (chBuffer c') \<le> loggedCount post" using run_buffer [of ?c2 post] c2(1) c' by simp
  moreover have "chStopped c'" using run_stopped [of ?c2 post] c2(3) c' by simp
  moreover have "\<not> chWorking c'" using run_idle [OF c2(2)] c' by simp
  ultimately show ?thesis using all by (simp add: waiting_sum GetBufferSize_def Close_def)
qed

definition oneEvent :: Client where
  "oneEvent = LogEvent zeroEvent (freshClient 9 [])"

theorem close_flushes_witness:
  "\<exists>c'. Close [WorkerTurns FlushStop, Counts 0] oneEvent = Some c' \<and> GetBufferSize c' = 0 \<and> counted c' = 1"
proof -
  have w: "chWorking oneEvent" "\<not> chStopped oneEvent"
    by (simp_all add: oneEvent_def LogEvent_def Let_def freshClient_def)
  then obtain c' where c': "Close [WorkerTurns FlushStop, Counts 0] oneEvent = Some c'" by (simp add: Close_def)
  have "inflight c' = [[]]"
    using c' by (auto simp: Close_def oneEvent_def LogEvent_def Let_def freshClient_def workerTurn_def takeBuffer_def
        countEvent_def split: if_splits)
  moreover have "counted oneEvent = 0" "inflight oneEvent = []" "length (chBuffer oneEvent) = 1"
    by (simp_all add: oneEvent_def LogEvent_def Let_def freshClient_def counted_def SetClickHouseBufferSize_def counterVal_def)
  ultimately show ?thesis
    using close_flushes [of "[]" "[Counts 0]" oneEvent c' "[]"] c' w by (auto simp: loggedCount_def GetBufferSize_def)
qed

text \<open>When the worker has no turn in that time, \<open>Close\<close> reports success and the events are still in the buffer,
  where they are lost when the process ends.\<close>

theorem close_loses: "Close [] oneEvent = Some c' \<Longrightarrow> GetBufferSize c' = 1 \<and> counted c' = 0"
  by (auto simp: Close_def oneEvent_def LogEvent_def Let_def freshClient_def GetBufferSize_def counted_def
      SetClickHouseBufferSize_def counterVal_def split: if_splits)

theorem close_loses_witness: "\<exists>c'. Close [] oneEvent = Some c' \<and> GetBufferSize c' = 1"
proof -
  have "Close [] oneEvent \<noteq> None" by (simp add: Close_def oneEvent_def LogEvent_def Let_def freshClient_def)
  then obtain c' where "Close [] oneEvent = Some c'" by blast
  with close_loses [OF this] show ?thesis by blast
qed

end
