(* ===== verification/DeliveryWorker.thy ===== *)
theory DeliveryWorker
  imports Queue ClickHouse SpoolStore
begin

text \<open>
  \<open>internal/delivery/worker.go\<close>: the delivery workers. The resolver and the remote servers are the
  environment; what they answer in one delivery is given with the delivery. The calls made to the servers
  are kept in \<open>contacts\<close>, and what the servers have accepted in \<open>wire\<close>. Logging is left out.
\<close>

section \<open>The environment and the state of a delivery\<close>

text \<open>
  A mail server: the error of each step of the dialogue, if any. The text of an error is all that is
  kept of it. When writing the message or ending it gives an error, the server can have accepted a message
  all the same, since its reply was lost: \<open>ms_kept\<close> is what it has then.
\<close>

record mail_server =
  ms_dial :: "string option"
  ms_hello :: "string option"
  ms_mail :: "string \<Rightarrow> string option"
  ms_rcpt :: "string \<Rightarrow> string option"
  ms_data :: "string option"
  ms_write :: "bytes \<Rightarrow> string option"
  ms_close :: "string option"
  ms_kept :: "bytes option"

datatype smtp_call =
    DialCall string | HelloCall string | MailCall string | RcptCall string | DataCall
  | WriteCall bytes | EndDataCall | QuitCall | CloseCall

text \<open>
  The environment of one delivery: the faults of the file system, the text of its errors, DNS (an
  error, or the hosts by preference; an error, or the addresses), the mail servers by address, the
  clock when the next attempt is computed and when the row is updated, the time the delivery took,
  the time of the event and the call of the database.
\<close>

record delivery_env =
  de_faults :: os_faults
  de_errno :: "errno \<Rightarrow> string"
  de_mx :: "string \<Rightarrow> string + string list"
  de_ip :: "string \<Rightarrow> string + string list"
  de_server :: "string \<Rightarrow> mail_server"
  de_retryNow :: time
  de_updateNow :: time
  de_elapsed :: duration
  de_eventNow :: time
  de_sql :: sql_call

record WorkerConfig =
  wc_Workers :: int
  wc_RetrySchedule :: "duration list"
  wc_MaxAttempts :: int
  wc_PollInterval :: duration

text \<open>
  A message a server has accepted, and whether the client got its reply.
\<close>

record accepted_mail =
  am_addr :: string
  am_sender :: string
  am_rcpt :: string
  am_data :: bytes
  am_confirmed :: bool

record delivery_world =
  w_disk :: fs
  w_db :: Db
  w_client :: Client
  wire :: "accepted_mail list"
  contacts :: "smtp_call list"

section \<open>Looking up and delivering\<close>

text \<open>The error of \<open>lookupMX\<close> comes with the host when it is known.\<close>

definition lookupMX :: "delivery_env \<Rightarrow> string \<Rightarrow> string \<times> string \<times> string option" where
  "lookupMX E rcpt =
     (case splitOn CHR ''@'' rcpt of
        [l, dmn] \<Rightarrow>
          (case de_mx E dmn of
             Inl e \<Rightarrow> ([], [], Some (''MX lookup failed: '' @ e))
           | Inr [] \<Rightarrow> ([], [], Some (''no MX records found for '' @ dmn))
           | Inr (h # hs) \<Rightarrow>
               (let mxHost = trimSuffix ''.'' h;
                    failed = ''failed to resolve MX host '' @ mxHost @ '': ''
                in case de_ip E mxHost of
                     Inl e \<Rightarrow> (mxHost, [], Some (failed @ e))
                   | Inr [] \<Rightarrow> (mxHost, [], Some (failed @ ''%!w(<nil>)''))
                   | Inr (ip # ips) \<Rightarrow> (mxHost, ip, None)))
      | _ \<Rightarrow> ([], [], Some (''invalid recipient address: '' @ rcpt)))"

definition deliverSender :: string where
  "deliverSender = ''postmaster@localhost''"

text \<open>
  The result, the calls made and what the servers have accepted. Once connected the connection is closed at
  the end, whatever has happened; after an error of \<open>Write\<close> the message is ended too.
\<close>

definition deliver ::
  "delivery_env \<Rightarrow> string \<Rightarrow> string \<Rightarrow> bytes \<Rightarrow> accepted_mail list \<Rightarrow>
   (int \<times> string \<times> string option) \<times> smtp_call list \<times> accepted_mail list" where
  "deliver E mxHost rcpt msgData ws =
     (let addr = mxHost @ '':25''; S = de_server E addr;
          mail = (\<lambda>d reply. \<lparr>am_addr = addr, am_sender = deliverSender, am_rcpt = rcpt, am_data = d, am_confirmed = reply\<rparr>);
          lost = ws @ (case ms_kept S of None \<Rightarrow> [] | Some d \<Rightarrow> [mail d False]);
          c1 = [DialCall addr]; c2 = c1 @ [HelloCall ''submitter-smtp-daemon'']; c3 = c2 @ [MailCall deliverSender];
          c4 = c3 @ [RcptCall rcpt]; c5 = c4 @ [DataCall]; c6 = c5 @ [WriteCall msgData]; c7 = c6 @ [EndDataCall];
          fail = (\<lambda>m cs ws. ((0, [], Some m), cs, ws))
      in case ms_dial S of
           Some e \<Rightarrow> fail (''failed to connect to '' @ addr @ '': '' @ e) c1 ws
         | None \<Rightarrow>
             (case ms_hello S of
                Some e \<Rightarrow> fail (''HELO failed: '' @ e) (c2 @ [CloseCall]) ws
              | None \<Rightarrow>
                  (case ms_mail S deliverSender of
                     Some e \<Rightarrow> fail (''MAIL FROM failed: '' @ e) (c3 @ [CloseCall]) ws
                   | None \<Rightarrow>
                       (case ms_rcpt S rcpt of
                          Some e \<Rightarrow> fail (''RCPT TO failed: '' @ e) (c4 @ [CloseCall]) ws
                        | None \<Rightarrow>
                            (case ms_data S of
                               Some e \<Rightarrow> fail (''DATA command failed: '' @ e) (c5 @ [CloseCall]) ws
                             | None \<Rightarrow>
                                 (case ms_write S msgData of
                                    Some e \<Rightarrow> fail (''failed to write message data: '' @ e) (c7 @ [CloseCall]) lost
                                  | None \<Rightarrow>
                                      (case ms_close S of
                                         Some e \<Rightarrow> fail (''failed to close data writer: '' @ e) (c7 @ [CloseCall]) lost
                                       | None \<Rightarrow>
                                           ((250, ''OK'', None), c7 @ [QuitCall, CloseCall],
                                            ws @ [mail msgData True]))))))))"

section \<open>Recording the outcome\<close>

text \<open>An error of the database is logged and otherwise ignored.\<close>

definition updateDelivery :: "delivery_env \<Rightarrow> QueueItem \<Rightarrow> delivery_update \<Rightarrow> delivery_world \<Rightarrow> delivery_world" where
  "updateDelivery E item u w =
     w\<lparr>w_db := snd (UpdateDeliveryState (de_sql E) (de_updateNow E) (DlvID item) u (w_db w))\<rparr>"

definition updateDeliverySuccess ::
  "delivery_env \<Rightarrow> QueueItem \<Rightarrow> string \<Rightarrow> string \<Rightarrow> int \<Rightarrow> string \<Rightarrow> delivery_world \<Rightarrow> delivery_world" where
  "updateDeliverySuccess E item mxHost mxIP code msg w =
     updateDelivery E item
       \<lparr>u_state = StateDelivered, u_mxHostname = mxHost, u_mxIP = mxIP, u_error = [],
        u_code = code, u_message = msg, u_next = zeroTime\<rparr> w"

definition updateDeliveryFailed ::
  "delivery_env \<Rightarrow> QueueItem \<Rightarrow> string \<Rightarrow> string \<Rightarrow> string \<Rightarrow> int \<Rightarrow> string \<Rightarrow> delivery_world \<Rightarrow>
   delivery_world" where
  "updateDeliveryFailed E item mxHost mxIP err code msg w =
     updateDelivery E item
       \<lparr>u_state = StatePermFail, u_mxHostname = mxHost, u_mxIP = mxIP, u_error = err,
        u_code = code, u_message = msg, u_next = zeroTime\<rparr> w"

text \<open>
  Indexing the schedule out of range panics (\<open>None\<close>): when the attempts are negative, and when it
  is empty.
\<close>

definition calculateNextRetry :: "WorkerConfig \<Rightarrow> time \<Rightarrow> int \<Rightarrow> time option" where
  "calculateNextRetry cfg now n =
     (let sched = wc_RetrySchedule cfg
      in if n < int (length sched) then
           (if n < 0 then None else Some (now + sched ! nat n))
         else if sched = [] then None
         else Some (now + last sched))"

definition updateDeliveryTempFail ::
  "WorkerConfig \<Rightarrow> delivery_env \<Rightarrow> QueueItem \<Rightarrow> string \<Rightarrow> string \<Rightarrow> string \<Rightarrow> int \<Rightarrow> string \<Rightarrow>
   delivery_world \<Rightarrow> delivery_world option" where
  "updateDeliveryTempFail cfg E item mxHost mxIP err code msg w =
     (case calculateNextRetry cfg (de_retryNow E) (Attempts item) of
        None \<Rightarrow> None
      | Some nextAttempt \<Rightarrow>
          if MaxAttempts item \<le> wrap64 (Attempts item + 1) then
            Some (updateDeliveryFailed E item mxHost mxIP err code msg w)
          else
            Some (updateDelivery E item
              \<lparr>u_state = StateTempFail, u_mxHostname = mxHost, u_mxIP = mxIP, u_error = err,
               u_code = code, u_message = msg, u_next = nextAttempt\<rparr> w))"

definition reportDelivery ::
  "delivery_env \<Rightarrow> QueueItem \<Rightarrow> string \<Rightarrow> string \<Rightarrow> string \<Rightarrow> int \<Rightarrow> string \<Rightarrow> delivery_world \<Rightarrow>
   delivery_world" where
  "reportDelivery E item mxHost mxIP result code msg w =
     (let c = (w_client w)\<lparr>chMets := RecordDelivery result mxHost (de_elapsed E) (chMets (w_client w))\<rparr>
      in w\<lparr>w_client := LogDeliveryEvent (de_eventNow E) (MsgID item) (Recipient item) mxHost mxIP
             result code msg (de_elapsed E) (wrap64 (Attempts item + 1)) c\<rparr>)"

section \<open>One delivery\<close>

text \<open>The stages a message is looked for in, in this order.\<close>

definition readMessage :: "os_faults \<Rightarrow> Spool \<Rightarrow> string \<Rightarrow> fs \<Rightarrow> spool_error + bytes" where
  "readMessage F sp m k =
     (case Read F sp StageSigned m k of
        Inr d \<Rightarrow> Inr d
      | Inl e \<Rightarrow>
          (case Read F sp StageModified m k of
             Inr d \<Rightarrow> Inr d
           | Inl e \<Rightarrow> Read F sp StageParsed m k))"

definition readErrorText :: "(errno \<Rightarrow> string) \<Rightarrow> spool_error \<Rightarrow> string" where
  "readErrorText txt e =
     (case e of
        MessageNotFound st m \<Rightarrow> ''message not found in '' @ stageName st @ '': '' @ m
      | ReadingMessage x \<Rightarrow> ''reading message: '' @ txt x
      | _ \<Rightarrow> [])"

text \<open>
  \<open>None\<close> is a panic, which ends the daemon. The call after a failed read is written with one argument
  less than the function takes; here the missing one is the address of the host, so that the text
  of the error is stored as the error.
\<close>

definition processDelivery ::
  "WorkerConfig \<Rightarrow> Spool \<Rightarrow> delivery_env \<Rightarrow> QueueItem \<Rightarrow> delivery_world \<Rightarrow> delivery_world option" where
  "processDelivery cfg sp E item w =
     (case readMessage (de_faults E) sp (MsgID item) (w_disk w) of
        Inl e \<Rightarrow>
          Some (updateDeliveryFailed E item ''spool_read_error'' [] (readErrorText (de_errno E) e) 0 [] w)
      | Inr msgData \<Rightarrow>
          (case lookupMX E (Recipient item) of
             (mxHost, mxIP, Some e) \<Rightarrow> updateDeliveryTempFail cfg E item mxHost mxIP e 0 [] w
           | (mxHost, mxIP, None) \<Rightarrow>
               (case deliver E mxHost (Recipient item) msgData (wire w) of
                  ((code, msg, Some e), cs, ws) \<Rightarrow>
                    if 500 \<le> code \<and> code < 600 then
                      Some (reportDelivery E item mxHost mxIP ''perm_fail'' code msg
                              (updateDeliveryFailed E item mxHost mxIP e code msg (w\<lparr>wire := ws, contacts := contacts w @ cs\<rparr>)))
                    else
                      map_option (reportDelivery E item mxHost mxIP ''temp_fail'' code msg)
                        (updateDeliveryTempFail cfg E item mxHost mxIP e code msg (w\<lparr>wire := ws, contacts := contacts w @ cs\<rparr>))
                | ((code, msg, None), cs, ws) \<Rightarrow>
                    Some (reportDelivery E item mxHost mxIP ''success'' code msg
                            (updateDeliverySuccess E item mxHost mxIP code msg (w\<lparr>wire := ws, contacts := contacts w @ cs\<rparr>))))))"

section \<open>A batch\<close>

fun processItems ::
  "WorkerConfig \<Rightarrow> Spool \<Rightarrow> (nat \<Rightarrow> delivery_env) \<Rightarrow> nat \<Rightarrow> QueueItem list \<Rightarrow> delivery_world \<Rightarrow>
   delivery_world option" where
  "processItems cfg sp E i [] w = Some w"
| "processItems cfg sp E i (item # items) w =
     (case processDelivery cfg sp (E i) item w of
        None \<Rightarrow> None
      | Some w' \<Rightarrow> processItems cfg sp E (Suc i) items w')"

definition processBatch ::
  "WorkerConfig \<Rightarrow> Spool \<Rightarrow> row_order \<Rightarrow> sql_call \<Rightarrow> time \<Rightarrow> (nat \<Rightarrow> delivery_env) \<Rightarrow> delivery_world \<Rightarrow>
   delivery_world option" where
  "processBatch cfg sp ord x now E w =
     (case GetPendingDeliveries ord x now 10 (w_db w) of
        Inl e \<Rightarrow> Some w
      | Inr items \<Rightarrow> processItems cfg sp E 0 items w)"

text \<open>A worker: a batch at every tick until it is stopped.\<close>

datatype worker_tick = BatchTick row_order sql_call time "nat \<Rightarrow> delivery_env" | StopWorker

fun workerTurns ::
  "WorkerConfig \<Rightarrow> Spool \<Rightarrow> worker_tick list \<Rightarrow> delivery_world \<Rightarrow> delivery_world option" where
  "workerTurns cfg sp [] w = Some w"
| "workerTurns cfg sp (StopWorker # ts) w = Some w"
| "workerTurns cfg sp (BatchTick ord x now E # ts) w =
     (case processBatch cfg sp ord x now E w of
        None \<Rightarrow> None
      | Some w' \<Rightarrow> workerTurns cfg sp ts w')"

text \<open>The loop's ticker panics when the interval is not positive.\<close>

definition workerLoop ::
  "WorkerConfig \<Rightarrow> Spool \<Rightarrow> worker_tick list \<Rightarrow> delivery_world \<Rightarrow> delivery_world option" where
  "workerLoop cfg sp ts w = (if wc_PollInterval cfg \<le> 0 then None else workerTurns cfg sp ts w)"

section \<open>The pool\<close>

text \<open>The pool: how many loops have been started, and whether the channel that stops them is closed.\<close>

record Worker =
  wk_config :: WorkerConfig
  wk_started :: nat
  wk_stopped :: bool

definition NewWorker :: "WorkerConfig \<Rightarrow> Worker" where
  "NewWorker cfg = \<lparr>wk_config = cfg, wk_started = 0, wk_stopped = False\<rparr>"

definition StartWorkers :: "Worker \<Rightarrow> Worker" where
  "StartWorkers p = p\<lparr>wk_started := wk_started p + nat (wc_Workers (wk_config p))\<rparr>"

text \<open>Closing a closed channel panics.\<close>

definition StopWorkers :: "Worker \<Rightarrow> Worker option" where
  "StopWorkers p = (if wk_stopped p then None else Some (p\<lparr>wk_stopped := True\<rparr>))"

end
