(* ===== verification/DeliveryLaws.thy ===== *)
theory DeliveryLaws
  imports DeliveryWorker
begin

text \<open>
  What becomes of a delivery: each attempt is recorded in its row, a delivery ends after its maximal
  number of attempts, and how often its message is sent.
\<close>

section \<open>Attempts that end\<close>

text \<open>Something attempted again until it is final.\<close>

fun attemptRun :: "('x \<Rightarrow> 's \<Rightarrow> 's) \<Rightarrow> ('s \<Rightarrow> bool) \<Rightarrow> 's \<Rightarrow> 'x list \<Rightarrow> 's" where
  "attemptRun act fin s [] = s"
| "attemptRun act fin s (x # xs) = (if fin s then s else attemptRun act fin (act x s) xs)"

locale bounded_attempts =
  fixes act :: "'x \<Rightarrow> 's \<Rightarrow> 's" and good :: "'x \<Rightarrow> bool" and ok :: "'s \<Rightarrow> bool"
    and fin :: "'s \<Rightarrow> bool" and used :: "'s \<Rightarrow> int" and bound :: "'s \<Rightarrow> int"
  assumes act_ok: "ok s \<Longrightarrow> \<not> fin s \<Longrightarrow> good x \<Longrightarrow> ok (act x s)"
    and act_used: "ok s \<Longrightarrow> \<not> fin s \<Longrightarrow> good x \<Longrightarrow>
      used (act x s) = used s + 1 \<and> bound (act x s) = bound s"
    and act_last: "ok s \<Longrightarrow> \<not> fin s \<Longrightarrow> good x \<Longrightarrow> bound s \<le> used s + 1 \<Longrightarrow> fin (act x s)"
begin

lemma attemptRun_ends:
  assumes "ok s" "list_all good xs" "max 1 (bound s - used s) \<le> int (length xs)"
  shows "fin (attemptRun act fin s xs)"
  using assms
proof (induction xs arbitrary: s)
  case (Cons x xs)
  show ?case
  proof (cases "fin s")
    case False
    have g: "good x" using Cons.prems(2) by simp
    note u = act_used [OF Cons.prems(1) False g]
    show ?thesis
    proof (cases "bound s \<le> used s + 1")
      case True
      then have "fin (act x s)" by (rule act_last [OF Cons.prems(1) False g])
      then have "attemptRun act fin (act x s) xs = act x s" by (cases xs) simp_all
      with \<open>fin (act x s)\<close> False show ?thesis by simp
    next
      case nl: False
      have "fin (attemptRun act fin (act x s) xs)"
        by (rule Cons.IH) (use act_ok [OF Cons.prems(1) False g] u nl Cons.prems in auto)
      then show ?thesis using False by simp
    qed
  qed simp
qed simp

lemma attemptRun_used:
  assumes "ok s" "list_all good xs"
  shows "used (attemptRun act fin s xs) \<le> max (used s) (max (used s + 1) (bound s))"
    and "fin s \<Longrightarrow> attemptRun act fin s xs = s"
proof -
  show "used (attemptRun act fin s xs) \<le> max (used s) (max (used s + 1) (bound s))"
    using assms
  proof (induction xs arbitrary: s)
    case (Cons x xs)
    show ?case
    proof (cases "fin s")
      case False
      have g: "good x" using Cons.prems(2) by simp
      note u = act_used [OF Cons.prems(1) False g]
      show ?thesis
      proof (cases "bound s \<le> used s + 1")
        case True
        then have "fin (act x s)" by (rule act_last [OF Cons.prems(1) False g])
        then have "attemptRun act fin (act x s) xs = act x s" by (cases xs) simp_all
        then show ?thesis using False u by simp
      next
        case nl: False
        have "used (attemptRun act fin (act x s) xs) \<le>
            max (used (act x s)) (max (used (act x s) + 1) (bound (act x s)))"
          by (rule Cons.IH) (use act_ok [OF Cons.prems(1) False g] Cons.prems in auto)
        then show ?thesis using False u nl by simp
      qed
    qed simp
  qed simp
  show "fin s \<Longrightarrow> attemptRun act fin s xs = s" by (cases xs) simp_all
qed

end

section \<open>One delivery\<close>

text \<open>The copies a server has accepted in an attempt whose error the client saw: none, or the one it kept.\<close>

definition lostMail :: "delivery_env \<Rightarrow> string \<Rightarrow> accepted_mail list \<Rightarrow> bool" where
  "lostMail E rcpt new \<longleftrightarrow>
     new = [] \<or>
     (\<exists>addr k. ms_kept (de_server E addr) = Some k \<and>
        new = [\<lparr>am_addr = addr, am_sender = deliverSender, am_rcpt = rcpt, am_data = k, am_confirmed = False\<rparr>])"

lemma deliver_D:
  "deliver E h c d ws = ((code, msg, e), cs, ws') \<Longrightarrow>
     (e = None \<longrightarrow> code = 250 \<and>
        ws' = ws @ [\<lparr>am_addr = h @ '':25'', am_sender = deliverSender, am_rcpt = c, am_data = d, am_confirmed = True\<rparr>]) \<and>
     (e \<noteq> None \<longrightarrow> code = 0 \<and> msg = [] \<and> (\<exists>new. lostMail E c new \<and> ws' = ws @ new))"
  by (auto simp: deliver_def Let_def lostMail_def split: option.splits)

lemma w_simps [simp]:
  "w_db (reportDelivery E item h ip res code msg w) = w_db w"
  "w_disk (reportDelivery E item h ip res code msg w) = w_disk w"
  "wire (reportDelivery E item h ip res code msg w) = wire w"
  "contacts (reportDelivery E item h ip res code msg w) = contacts w"
  "w_disk (updateDelivery E item u w) = w_disk w" "wire (updateDelivery E item u w) = wire w"
  "contacts (updateDelivery E item u w) = contacts w"
  "w_db (updateDelivery E item u w) =
     snd (UpdateDeliveryState (de_sql E) (de_updateNow E) (DlvID item) u (w_db w))"
  by (simp_all add: reportDelivery_def updateDelivery_def Let_def)

text \<open>What an attempt did, by the update it recorded.\<close>

definition attempt_outcome ::
  "WorkerConfig \<Rightarrow> Spool \<Rightarrow> delivery_env \<Rightarrow> QueueItem \<Rightarrow> delivery_world \<Rightarrow> delivery_update \<Rightarrow>
   accepted_mail list \<Rightarrow> bool" where
  "attempt_outcome cfg sp E item w u new \<longleftrightarrow>
     (u_state u = StateDelivered \<and>
        (\<exists>h d. readMessage (de_faults E) sp (MsgID item) (w_disk w) = Inr d \<and>
           new = [\<lparr>am_addr = h @ '':25'', am_sender = deliverSender, am_rcpt = Recipient item, am_data = d,
             am_confirmed = True\<rparr>])) \<or>
     (u_state u = StatePermFail \<and> new = [] \<and>
        (\<exists>e. readMessage (de_faults E) sp (MsgID item) (w_disk w) = Inl e)) \<or>
     (u_state u = StatePermFail \<and> lostMail E (Recipient item) new \<and> MaxAttempts item \<le> wrap64 (Attempts item + 1)) \<or>
     (u_state u = StateTempFail \<and> lostMail E (Recipient item) new \<and> wrap64 (Attempts item + 1) < MaxAttempts item \<and>
        calculateNextRetry cfg (de_retryNow E) (Attempts item) = Some (u_next u))"

lemma updateDeliveryTempFail_D:
  "updateDeliveryTempFail cfg E item h ip e code msg w = Some w' \<Longrightarrow>
     \<exists>u. w' = updateDelivery E item u w \<and>
       (u_state u = StatePermFail \<and> MaxAttempts item \<le> wrap64 (Attempts item + 1) \<or>
        u_state u = StateTempFail \<and> wrap64 (Attempts item + 1) < MaxAttempts item \<and>
        calculateNextRetry cfg (de_retryNow E) (Attempts item) = Some (u_next u))"
  by (auto simp: updateDeliveryTempFail_def updateDeliveryFailed_def split: option.splits if_splits
      intro!: exI [of _ "\<lparr>u_state = _, u_mxHostname = _, u_mxIP = _, u_error = _, u_code = _,
        u_message = _, u_next = _\<rparr>"])

lemma processDelivery_D:
  assumes "processDelivery cfg sp E item w = Some w'"
  shows "\<exists>u new. attempt_outcome cfg sp E item w u new \<and> wire w' = wire w @ new \<and> w_disk w' = w_disk w \<and>
    w_db w' = snd (UpdateDeliveryState (de_sql E) (de_updateNow E) (DlvID item) u (w_db w))"
proof (cases "readMessage (de_faults E) sp (MsgID item) (w_disk w)")
  case (Inl e)
  define u where "u = \<lparr>u_state = StatePermFail, u_mxHostname = ''spool_read_error'', u_mxIP = [],
    u_error = readErrorText (de_errno E) e, u_code = 0, u_message = [], u_next = zeroTime\<rparr>"
  have "w' = updateDelivery E item u w"
    using assms Inl by (simp add: processDelivery_def updateDeliveryFailed_def u_def)
  moreover have "attempt_outcome cfg sp E item w u []" using Inl by (simp add: attempt_outcome_def u_def)
  ultimately show ?thesis by (intro exI [of _ u] exI [of _ "[]"]) simp
next
  case (Inr d)
  obtain h ip lk where lk: "lookupMX E (Recipient item) = (h, ip, lk)" by (metis prod_cases3)
  obtain code msg e cs ws where dl: "deliver E h (Recipient item) d (wire w) = ((code, msg, e), cs, ws)"
    by (metis prod.exhaust)
  note D = deliver_D [OF dl]
  let ?w = "w\<lparr>wire := ws, contacts := contacts w @ cs\<rparr>"
  consider (lookup) m where "lk = Some m" "updateDeliveryTempFail cfg E item h ip m 0 [] w = Some w'"
    | (failed) m w1 where "lk = None" "e = Some m"
        "updateDeliveryTempFail cfg E item h ip m code msg ?w = Some w1"
        "w' = reportDelivery E item h ip ''temp_fail'' code msg w1"
    | (sent) "lk = None" "e = None"
        "w' = reportDelivery E item h ip ''success'' code msg (updateDeliverySuccess E item h ip code msg ?w)"
    using assms Inr lk dl D
    by (cases lk; cases e) (auto simp: processDelivery_def)
  then show ?thesis
  proof cases
    case lookup
    from updateDeliveryTempFail_D [OF this(2)] show ?thesis by (auto simp: attempt_outcome_def lostMail_def)
  next
    case failed
    obtain new where new: "lostMail E (Recipient item) new" "ws = wire w @ new" using D failed(2) by auto
    obtain u where u: "w1 = updateDelivery E item u ?w"
      "u_state u = StatePermFail \<and> MaxAttempts item \<le> wrap64 (Attempts item + 1) \<or>
       u_state u = StateTempFail \<and> wrap64 (Attempts item + 1) < MaxAttempts item \<and>
       calculateNextRetry cfg (de_retryNow E) (Attempts item) = Some (u_next u)"
      using updateDeliveryTempFail_D [OF failed(3)] by blast
    then show ?thesis
      using new failed(4) by (intro exI [of _ u] exI [of _ new]) (auto simp: attempt_outcome_def)
  next
    case sent
    define u where "u = \<lparr>u_state = StateDelivered, u_mxHostname = h, u_mxIP = ip, u_error = [],
      u_code = code, u_message = msg, u_next = zeroTime\<rparr>"
    define m where "m = \<lparr>am_addr = h @ '':25'', am_sender = deliverSender, am_rcpt = Recipient item, am_data = d,
      am_confirmed = True\<rparr>"
    have "w' = reportDelivery E item h ip ''success'' code msg
        (updateDelivery E item u (w\<lparr>wire := wire w @ [m], contacts := contacts w @ cs\<rparr>))"
      using sent D by (simp add: updateDeliverySuccess_def u_def m_def)
    moreover have "attempt_outcome cfg sp E item w u [m]"
      using Inr by (auto simp: attempt_outcome_def u_def m_def)
    ultimately show ?thesis by (intro exI [of _ u] exI [of _ "[m]"]) simp
  qed
qed

text \<open>With a retry schedule, no delivery panics.\<close>

lemma calculateNextRetry_Some:
  "wc_RetrySchedule cfg \<noteq> [] \<Longrightarrow> 0 \<le> n \<Longrightarrow> calculateNextRetry cfg now n \<noteq> None"
  by (simp add: calculateNextRetry_def Let_def)

lemma processDelivery_no_panic:
  assumes "wc_RetrySchedule cfg \<noteq> []" "0 \<le> Attempts item"
  shows "\<exists>w'. processDelivery cfg sp E item w = Some w'"
proof -
  have "updateDeliveryTempFail cfg E item h ip e code msg v \<noteq> None" for h ip e code msg v
    using calculateNextRetry_Some [OF assms] by (auto simp: updateDeliveryTempFail_def split: option.split)
  then show ?thesis
    by (auto simp: processDelivery_def split: sum.split prod.split option.split)
qed

section \<open>The life of a delivery\<close>

definition rowFinal :: "DeliveryRow \<Rightarrow> bool" where
  "rowFinal r \<longleftrightarrow> state r \<in> {StateDelivered, StatePermFail}"

text \<open>An attempt at the delivery with the key \<open>i\<close>, on its row as it is.\<close>

definition attemptRow ::
  "WorkerConfig \<Rightarrow> Spool \<Rightarrow> string \<Rightarrow> delivery_env \<Rightarrow> delivery_world \<Rightarrow> delivery_world" where
  "attemptRow cfg sp i E w =
     (case rowAt (w_db w) i of
        None \<Rightarrow> w
      | Some r \<Rightarrow>
          (case processDelivery cfg sp E (rowToItem r) w of None \<Rightarrow> w | Some w' \<Rightarrow> w'))"

definition theRow :: "string \<Rightarrow> delivery_world \<Rightarrow> DeliveryRow" where
  "theRow i w = the (rowAt (w_db w) i)"

text \<open>A row whose attempts and bound are in the range of an integer.\<close>

definition rowOK :: "string \<Rightarrow> delivery_world \<Rightarrow> bool" where
  "rowOK i w \<longleftrightarrow>
     (\<exists>r. rowAt (w_db w) i = Some r \<and> 0 \<le> attempts r \<and> max_attempts r \<le> MaxInt64 \<and>
        (rowFinal r \<or> attempts r < MaxInt64))"

lemma rowToItem_simps [simp]:
  "DlvID (rowToItem r) = dlv_id r" "MsgID (rowToItem r) = msg_id r" "Recipient (rowToItem r) = recipient r"
  "Attempts (rowToItem r) = attempts r" "MaxAttempts (rowToItem r) = max_attempts r"
  by (simp_all add: rowToItem_def)

lemma updateRow_simps [simp]:
  "attempts (updateRow t u r) = attempts r + 1" "max_attempts (updateRow t u r) = max_attempts r"
  "state (updateRow t u r) = u_state u" "next_attempt (updateRow t u r) = unixSec (u_next u)"
  "msg_id (updateRow t u r) = msg_id r" "recipient (updateRow t u r) = recipient r"
  by (simp_all add: updateRow_def)

lemma rowAt_dlv_id: "rowAt d i = Some r \<Longrightarrow> dlv_id r = i"
  by (auto simp: rowAt_def find_Some_iff)

lemma attemptRow_D:
  assumes "rowAt (w_db w) i = Some r" "wc_RetrySchedule cfg \<noteq> []" "0 \<le> attempts r" "\<not> sql_fails (de_sql E)"
  shows "\<exists>u new. attempt_outcome cfg sp E (rowToItem r) w u new \<and>
    rowAt (w_db (attemptRow cfg sp i E w)) i = Some (updateRow (de_updateNow E) u r) \<and>
    (\<forall>k. k \<noteq> i \<longrightarrow> rowAt (w_db (attemptRow cfg sp i E w)) k = rowAt (w_db w) k) \<and>
    wire (attemptRow cfg sp i E w) = wire w @ new \<and> w_disk (attemptRow cfg sp i E w) = w_disk w"
proof -
  obtain w' where w': "processDelivery cfg sp E (rowToItem r) w = Some w'"
    using processDelivery_no_panic [of cfg "rowToItem r" sp E w] assms(2,3) by auto
  then have eq: "attemptRow cfg sp i E w = w'" by (simp add: attemptRow_def assms(1))
  obtain u new where u: "attempt_outcome cfg sp E (rowToItem r) w u new" "wire w' = wire w @ new"
    "w_disk w' = w_disk w"
    "w_db w' = snd (UpdateDeliveryState (de_sql E) (de_updateNow E) i u (w_db w))"
    using processDelivery_D [OF w'] rowAt_dlv_id [OF assms(1)] by auto
  have "UpdateDeliveryState (de_sql E) (de_updateNow E) i u (w_db w) = (None, w_db w')"
    using u(4) assms(4) by (simp add: UpdateDeliveryState_def)
  from rowAt_Update [OF this] show ?thesis
    using u(1-3) assms(1) unfolding eq by (intro exI [of _ u] exI [of _ new]) simp
qed

text \<open>The machine of attempts is one that ends.\<close>

definition goodAttempt :: "WorkerConfig \<Rightarrow> delivery_env \<Rightarrow> bool" where
  "goodAttempt cfg E \<longleftrightarrow> wc_RetrySchedule cfg \<noteq> [] \<and> \<not> sql_fails (de_sql E)"

lemma attempt_step:
  assumes "rowOK i w" "\<not> rowFinal (theRow i w)" "goodAttempt cfg E"
  shows "rowOK i (attemptRow cfg sp i E w) \<and>
    attempts (theRow i (attemptRow cfg sp i E w)) = attempts (theRow i w) + 1 \<and>
    max_attempts (theRow i (attemptRow cfg sp i E w)) = max_attempts (theRow i w) \<and>
    (max_attempts (theRow i w) \<le> attempts (theRow i w) + 1 \<longrightarrow> rowFinal (theRow i (attemptRow cfg sp i E w)))"
proof -
  obtain r where r: "rowAt (w_db w) i = Some r" "0 \<le> attempts r" "max_attempts r \<le> MaxInt64"
    "attempts r < MaxInt64"
    using assms(1,2) by (auto simp: rowOK_def theRow_def)
  obtain u new where u: "attempt_outcome cfg sp E (rowToItem r) w u new"
    "rowAt (w_db (attemptRow cfg sp i E w)) i = Some (updateRow (de_updateNow E) u r)"
    using attemptRow_D [OF r(1) _ r(2), of cfg E sp] assms(3) by (auto simp: goodAttempt_def)
  have wr: "wrap64 (attempts r + 1) = attempts r + 1" using r by (intro wrap64_id) simp
  have st: "u_state u \<in> {StateDelivered, StatePermFail} \<or>
      u_state u = StateTempFail \<and> attempts r + 1 < max_attempts r"
    using u(1) by (auto simp: attempt_outcome_def wr)
  then show ?thesis
    using r u(2) by (auto simp: rowOK_def theRow_def rowFinal_def)
qed

interpretation delivery_attempts: bounded_attempts "attemptRow cfg sp i" "goodAttempt cfg" "rowOK i"
  "\<lambda>w. rowFinal (theRow i w)" "\<lambda>w. attempts (theRow i w)" "\<lambda>w. max_attempts (theRow i w)"
  for cfg sp i
  by unfold_locales (use attempt_step in blast)+

text \<open>
  What the attempts of a delivery have sent: at most one copy each, all of them to its recipient. A copy whose
  reply the client got ends the delivery; the others are the ones their servers kept.
\<close>

abbreviation attemptsAt ::
  "WorkerConfig \<Rightarrow> Spool \<Rightarrow> string \<Rightarrow> delivery_world \<Rightarrow> delivery_env list \<Rightarrow> delivery_world" where
  "attemptsAt cfg sp i w Es \<equiv> attemptRun (attemptRow cfg sp i) (\<lambda>w. rowFinal (theRow i w)) w Es"

definition keptBy :: "delivery_env list \<Rightarrow> accepted_mail \<Rightarrow> bool" where
  "keptBy Es m \<longleftrightarrow> (\<exists>E \<in> set Es. ms_kept (de_server E (am_addr m)) = Some (am_data m))"

definition sentBy :: "Spool \<Rightarrow> delivery_env list \<Rightarrow> delivery_world \<Rightarrow> DeliveryRow \<Rightarrow> accepted_mail list \<Rightarrow> bool \<Rightarrow> bool" where
  "sentBy sp Es w r new dn \<longleftrightarrow>
     list_all (\<lambda>m. am_rcpt m = recipient r) new \<and>
     (if dn then
        new \<noteq> [] \<and> am_confirmed (last new) \<and> list_all (\<lambda>m. \<not> am_confirmed m \<and> keptBy Es m) (butlast new) \<and>
        (\<exists>E \<in> set Es. readMessage (de_faults E) sp (msg_id r) (w_disk w) = Inr (am_data (last new)))
      else list_all (\<lambda>m. \<not> am_confirmed m \<and> keptBy Es m) new)"

lemma attempt_sent:
  assumes "attempt_outcome cfg sp E (rowToItem r) w u new"
  shows "length new \<le> 1" "sentBy sp [E] w r new (u_state u = StateDelivered)"
  using assms by (auto simp: attempt_outcome_def lostMail_def sentBy_def keptBy_def)

lemma sentBy_more:
  assumes "sentBy sp [E] w r new False" "sentBy sp Es w1 r1 new1 dn"
    and "recipient r1 = recipient r" "msg_id r1 = msg_id r" "w_disk w1 = w_disk w"
  shows "sentBy sp (E # Es) w r (new @ new1) dn"
  using assms by (auto simp: sentBy_def keptBy_def list_all_iff butlast_append)

lemma attemptRun_wire:
  assumes "rowOK i w" "\<not> rowFinal (theRow i w)" "list_all (goodAttempt cfg) Es"
  shows "\<exists>new. wire (attemptsAt cfg sp i w Es) = wire w @ new \<and>
    int (length new) \<le> attempts (theRow i (attemptsAt cfg sp i w Es)) - attempts (theRow i w) \<and>
    sentBy sp Es w (theRow i w) new (state (theRow i (attemptsAt cfg sp i w Es)) = StateDelivered)"
  using assms
proof (induction Es arbitrary: w)
  case Nil
  then show ?case by (auto simp: rowFinal_def sentBy_def)
next
  case (Cons E Es)
  let ?w1 = "attemptRow cfg sp i E w"
  obtain r where r: "rowAt (w_db w) i = Some r" "0 \<le> attempts r"
    using Cons.prems(1) by (auto simp: rowOK_def)
  obtain u new where u: "attempt_outcome cfg sp E (rowToItem r) w u new"
    "rowAt (w_db ?w1) i = Some (updateRow (de_updateNow E) u r)" "wire ?w1 = wire w @ new" "w_disk ?w1 = w_disk w"
    using attemptRow_D [OF r(1) _ r(2), of cfg E sp] Cons.prems(3) by (auto simp: goodAttempt_def)
  note sent = attempt_sent [OF u(1)]
  have row: "theRow i w = r" "theRow i ?w1 = updateRow (de_updateNow E) u r"
    using r(1) u(2) by (simp_all add: theRow_def)
  show ?case
  proof (cases "rowFinal (theRow i ?w1)")
    case True
    then have eq: "attemptsAt cfg sp i ?w1 Es = ?w1" by (cases Es) simp_all
    have "sentBy sp (E # Es) w r new (u_state u = StateDelivered)"
      using sent(2) by (auto simp: sentBy_def keptBy_def list_all_iff)
    then show ?thesis using Cons.prems(2) u(3) row sent(1) by (simp add: eq)
  next
    case False
    then have nd: "u_state u \<noteq> StateDelivered" using row(2) by (auto simp: rowFinal_def)
    have ok: "rowOK i ?w1" using attempt_step [OF Cons.prems(1,2), of cfg E sp] Cons.prems(3) by simp
    obtain new1 where new1: "wire (attemptsAt cfg sp i ?w1 Es) = wire ?w1 @ new1"
      "int (length new1) \<le> attempts (theRow i (attemptsAt cfg sp i ?w1 Es)) - attempts (theRow i ?w1)"
      "sentBy sp Es ?w1 (theRow i ?w1) new1 (state (theRow i (attemptsAt cfg sp i ?w1 Es)) = StateDelivered)"
      using Cons.IH [OF ok False] Cons.prems(3) by auto
    have "sentBy sp (E # Es) w r (new @ new1) (state (theRow i (attemptsAt cfg sp i ?w1 Es)) = StateDelivered)"
      by (rule sentBy_more [OF _ new1(3) _ _ u(4)]) (use sent(2) nd row in simp_all)
    then show ?thesis
      using new1(1,2) u(3) row sent(1) Cons.prems(2) by (intro exI [of _ "new @ new1"]) simp
  qed
qed

text \<open>A row that is not pending is not in a batch, and a batch leaves it.\<close>

lemma rowFinal_not_pending: "rowFinal r \<Longrightarrow> \<not> pendingRow now r"
  by (auto simp: rowFinal_def pendingRow_def)

lemma processItems_frame:
  assumes "processItems cfg sp E n items w = Some w'" "\<forall>item \<in> set items. DlvID item \<noteq> i"
  shows "rowAt (w_db w') i = rowAt (w_db w) i"
  using assms
proof (induction items arbitrary: n w)
  case (Cons item items)
  obtain w1 where w1: "processDelivery cfg sp (E n) item w = Some w1"
    "processItems cfg sp E (Suc n) items w1 = Some w'"
    using Cons.prems(1) by (auto split: option.splits)
  obtain u new where u: "w_db w1 = snd (UpdateDeliveryState (de_sql (E n)) (de_updateNow (E n)) (DlvID item) u (w_db w))"
    using processDelivery_D [OF w1(1)] by blast
  have "rowAt (w_db w1) i = rowAt (w_db w) i"
  proof (cases "UpdateDeliveryState (de_sql (E n)) (de_updateNow (E n)) (DlvID item) u (w_db w)")
    case (Pair e d')
    then show ?thesis
      using u rowAt_Update [of "de_sql (E n)" "de_updateNow (E n)" "DlvID item" u "w_db w" d' i] Cons.prems(2)
      by (cases e) (auto simp: UpdateDeliveryState_def split: if_splits)
  qed
  then show ?case using Cons.IH [OF w1(2)] Cons.prems(2) by simp
qed simp

lemma processBatch_frame:
  assumes "processBatch cfg sp ord x now E w = Some w'" "visits_rows ord" "dbInv (w_db w)"
    and "rowAt (w_db w) i = Some r" "\<not> pendingRow now r"
  shows "rowAt (w_db w') i = Some r"
proof (cases "GetPendingDeliveries ord x now 10 (w_db w)")
  case (Inr items)
  obtain rs where rs: "items = map rowToItem rs" "mset rs \<subseteq># mset (filter (pendingRow now) (deliveries (w_db w)))"
    using pending_Inr [OF assms(2) Inr] by blast
  have "dlv_id q \<noteq> i" if "q \<in> set rs" for q
  proof
    assume "dlv_id q = i"
    moreover have "q \<in># mset (filter (pendingRow now) (deliveries (w_db w)))"
      by (rule mset_subset_eqD [OF rs(2)]) (use that in simp)
    then have "q \<in> set (deliveries (w_db w))" "pendingRow now q" by simp_all
    ultimately show False
      using rowAt_Some [OF assms(3), of i q] assms(4,5) by simp
  qed
  then have "\<forall>item \<in> set items. DlvID item \<noteq> i" using rs(1) by auto
  then show ?thesis
    using processItems_frame assms(1,4) Inr by (auto simp: processBatch_def)
qed (use assms in \<open>simp add: processBatch_def\<close>)

section \<open>A batch goes through\<close>

lemma processItems_append:
  "processItems cfg sp E j (xs @ ys) w =
     (case processItems cfg sp E j xs w of
        None \<Rightarrow> None | Some w1 \<Rightarrow> processItems cfg sp E (j + length xs) ys w1)"
  by (induction xs arbitrary: j w) (auto split: option.split)

lemma processItems_total:
  assumes "wc_RetrySchedule cfg \<noteq> []" "list_all (\<lambda>it. 0 \<le> Attempts it) items"
  shows "\<exists>w' new. processItems cfg sp E j items w = Some w' \<and> w_disk w' = w_disk w \<and> wire w' = wire w @ new"
  using assms(2)
proof (induction items arbitrary: j w)
  case (Cons it items)
  obtain w1 where w1: "processDelivery cfg sp (E j) it w = Some w1"
    using processDelivery_no_panic [OF assms(1), of it sp "E j" w] Cons.prems by auto
  obtain new where "wire w1 = wire w @ new" "w_disk w1 = w_disk w"
    using processDelivery_D [OF w1] by blast
  then show ?case using Cons.IH [of "Suc j" w1] Cons.prems w1 by auto
qed simp

text \<open>An environment in which the message \<open>m\<close> is read as \<open>data\<close> and its recipient's server accepts it.\<close>

definition acceptsMail :: "Spool \<Rightarrow> fs \<Rightarrow> string \<Rightarrow> string \<Rightarrow> bytes \<Rightarrow> delivery_env \<Rightarrow> bool" where
  "acceptsMail sp k m c data E \<longleftrightarrow>
     \<not> sql_fails (de_sql E) \<and> readMessage (de_faults E) sp m k = Inr data \<and>
     (case lookupMX E c of
        (h, ip, None) \<Rightarrow>
          (let S = de_server E (h @ '':25'')
           in ms_dial S = None \<and> ms_hello S = None \<and> ms_mail S deliverSender = None \<and> ms_rcpt S c = None \<and>
              ms_data S = None \<and> ms_write S data = None \<and> ms_close S = None)
      | _ \<Rightarrow> False)"

lemma processDelivery_accepted:
  assumes "acceptsMail sp (w_disk w) (MsgID it) (Recipient it) data E" "rowAt (w_db w) (DlvID it) = Some r"
  shows "\<exists>w' h. processDelivery cfg sp E it w = Some w' \<and> w_disk w' = w_disk w \<and>
    state (theRow (DlvID it) w') = StateDelivered \<and>
    wire w' = wire w @ [\<lparr>am_addr = h, am_sender = deliverSender, am_rcpt = Recipient it, am_data = data,
      am_confirmed = True\<rparr>]"
proof -
  obtain h ip where lk: "lookupMX E (Recipient it) = (h, ip, None)"
    using assms(1) by (auto simp: acceptsMail_def split: prod.splits option.splits)
  define u where "u = \<lparr>u_state = StateDelivered, u_mxHostname = h, u_mxIP = ip, u_error = [],
    u_code = 250, u_message = ''OK'', u_next = zeroTime\<rparr>"
  define ws where "ws = wire w @ [\<lparr>am_addr = h @ '':25'', am_sender = deliverSender, am_rcpt = Recipient it, am_data = data,
      am_confirmed = True\<rparr>]"
  obtain cs where dl: "deliver E h (Recipient it) data (wire w) = ((250, ''OK'', None), cs, ws)"
    using assms(1) lk by (simp add: acceptsMail_def deliver_def Let_def ws_def)
  define w' where "w' = reportDelivery E it h ip ''success'' 250 ''OK''
    (updateDelivery E it u (w\<lparr>wire := ws, contacts := contacts w @ cs\<rparr>))"
  have "processDelivery cfg sp E it w = Some w'"
    using assms(1) lk dl
    by (simp add: processDelivery_def acceptsMail_def updateDeliverySuccess_def w'_def u_def)
  moreover obtain d' where d': "UpdateDeliveryState (de_sql E) (de_updateNow E) (DlvID it) u (w_db w) = (None, d')"
    using assms(1) by (simp add: UpdateDeliveryState_def acceptsMail_def)
  have "state (theRow (DlvID it) w') = StateDelivered"
    using rowAt_Update [OF d', of "DlvID it"] assms(2) d' by (simp add: w'_def theRow_def u_def)
  ultimately show ?thesis by (auto simp: w'_def ws_def)
qed

end
