(* ===== verification/DeliveryPool.thy ===== *)
theory DeliveryPool
  imports DeliveryLaws
begin

text \<open>
  \<open>internal/delivery/worker.go\<close>: several workers at the same queue. Each takes a batch and goes through
  it, and nothing keeps two workers from having the same delivery in their batches. The steps of the
  workers are interleaved in any order. A delivery is one step: the workers share the database, which
  it changes once, at its end, and the spool, which nothing changes meanwhile, so only the order in
  which the remote servers accept mail could be another one.
\<close>

section \<open>The steps\<close>

text \<open>\<open>pl_held\<close> holds for each worker what is left of its batch; after a panic nothing happens.\<close>

record pool =
  pl_world :: delivery_world
  pl_held :: "QueueItem list list"
  pl_panicked :: bool

datatype pool_step =
    TakeBatch nat row_order sql_call time
  | DeliverNext nat delivery_env

definition startPool :: "nat \<Rightarrow> delivery_world \<Rightarrow> pool" where
  "startPool n w = \<lparr>pl_world = w, pl_held = replicate n [], pl_panicked = False\<rparr>"

definition poolStep :: "WorkerConfig \<Rightarrow> Spool \<Rightarrow> pool \<Rightarrow> pool_step \<Rightarrow> pool" where
  "poolStep cfg sp p e =
     (if pl_panicked p then p
      else
        (case e of
           TakeBatch k ord x now \<Rightarrow>
             if k < length (pl_held p) \<and> pl_held p ! k = [] then
               (case GetPendingDeliveries ord x now 10 (w_db (pl_world p)) of
                  Inl e \<Rightarrow> p
                | Inr items \<Rightarrow> p\<lparr>pl_held := (pl_held p)[k := items]\<rparr>)
             else p
         | DeliverNext k E \<Rightarrow>
             if k < length (pl_held p) then
               (case pl_held p ! k of
                  [] \<Rightarrow> p
                | item # items \<Rightarrow>
                    (case processDelivery cfg sp E item (pl_world p) of
                       None \<Rightarrow> p\<lparr>pl_panicked := True\<rparr>
                     | Some w \<Rightarrow> p\<lparr>pl_world := w, pl_held := (pl_held p)[k := items]\<rparr>))
             else p))"

text \<open>A worker that is alone does what \<open>processBatch\<close> says.\<close>

lemma poolStep_items:
  assumes "processItems cfg sp E i items w = Some w'"
  shows "run (poolStep cfg sp) \<lparr>pl_world = w, pl_held = [items], pl_panicked = False\<rparr>
      (map (\<lambda>j. DeliverNext 0 (E j)) [i..<i + length items]) =
    \<lparr>pl_world = w', pl_held = [[]], pl_panicked = False\<rparr>"
  using assms
proof (induction items arbitrary: i w)
  case (Cons item items)
  obtain w1 where w1: "processDelivery cfg sp (E i) item w = Some w1"
    "processItems cfg sp E (Suc i) items w1 = Some w'"
    using Cons.prems by (auto split: option.splits)
  have "[i..<i + length (item # items)] = i # [Suc i..<Suc i + length items]"
    using upt_conv_Cons [of i "i + length (item # items)"] by simp
  then show ?case using Cons.IH [OF w1(2)] w1(1) by (simp add: poolStep_def)
qed simp

lemma poolStep_batch:
  assumes "GetPendingDeliveries ord x now 10 (w_db w) = Inr items"
    and "processBatch cfg sp ord x now E w = Some w'"
  shows "run (poolStep cfg sp) (startPool 1 w)
      (TakeBatch 0 ord x now # map (\<lambda>j. DeliverNext 0 (E j)) [0..<length items]) = startPool 1 w'"
  using poolStep_items [of cfg sp E 0 items w w'] assms
  by (simp add: processBatch_def startPool_def poolStep_def)

section \<open>How often one delivery can be attempted\<close>

text \<open>
  The view of one delivery with the bound \<open>m\<close> by \<open>n\<close> workers: its attempts, whether it can still be
  taken, and how many workers hold it as it was when it had attempts left after the next one, and
  how many as it was at its last. Only the first kind can make it pending again.
\<close>

type_synonym claim = "int \<times> bool \<times> nat \<times> nat"

inductive claim_step :: "nat \<Rightarrow> int \<Rightarrow> claim \<Rightarrow> claim \<Rightarrow> bool" for n :: nat and m :: int where
  take_early: "s + f < n \<Longrightarrow> a + 1 < m \<Longrightarrow> claim_step n m (a, True, s, f) (a, True, Suc s, f)"
| take_last: "s + f < n \<Longrightarrow> m \<le> a + 1 \<Longrightarrow> claim_step n m (a, True, s, f) (a, True, s, Suc f)"
| early: "claim_step n m (a, q, Suc s, f) (a + 1, q', s, f)"
| last: "claim_step n m (a, q, s, Suc f) (a + 1, False, s, f)"
| other: "claim_step n m c c"

text \<open>
  A holder of the first kind makes one attempt, after which each of the workers that do not hold the
  delivery as it does can take it and make one more. \<open>earlyCost\<close> is twice the number of these
  attempts for \<open>s\<close> such holders, the sum of \<open>1 + n - j\<close> over the \<open>j\<close> below \<open>s\<close>.
\<close>

definition earlyCost :: "nat \<Rightarrow> nat \<Rightarrow> int" where
  "earlyCost n s = int s * (2 * int n + 3 - int s)"

definition claimBound :: "nat \<Rightarrow> int \<Rightarrow> int" where
  "claimBound n m = max 1 m - 2 + int n * (int n + 3) div 2"

fun claimInv :: "nat \<Rightarrow> int \<Rightarrow> claim \<Rightarrow> bool" where
  "claimInv n m (a, q, s, f) \<longleftrightarrow>
     0 \<le> a \<and> s + f \<le> n \<and>
     (if a + 1 < m then f = 0
      else 2 * a + 2 * int f + (if q then 2 * (int n - int s - int f) else 0) + earlyCost n s \<le> 2 * claimBound n m)"

lemma claimBound_double: "2 * claimBound n m = 2 * max 1 m - 4 + int n * (int n + 3)"
proof -
  have "even (int n * (int n + 3))" by simp
  then show ?thesis by (simp add: claimBound_def)
qed

lemma earlyCost_Suc: "earlyCost n (Suc s) = earlyCost n s + 2 * (1 + int n - int s)"
  by (simp add: earlyCost_def algebra_simps)

lemma earlyCost_bound: "s < n \<Longrightarrow> earlyCost n s + 2 * (int n - int s) \<le> int n * (int n + 3) - 2"
proof -
  assume "s < n"
  then obtain k where n: "n = Suc (s + k)" by (metis less_iff_Suc_add)
  have "0 \<le> int k * (int k + 1)" by simp
  then show ?thesis by (simp add: n earlyCost_def algebra_simps)
qed

lemma earlyCost_nonneg: "s \<le> n \<Longrightarrow> 0 \<le> earlyCost n s"
  by (simp add: earlyCost_def)

lemma claim_step_inv:
  assumes "claim_step n m c c'" "claimInv n m c"
  shows "claimInv n m c'"
  using assms
proof cases
  case (early a q s f q')
  show ?thesis
  proof (cases "a + 1 < m")
    case True
    have "a + 2 < m \<or> 2 * (a + 1) + 2 * (int n - int s) + earlyCost n s \<le> 2 * claimBound n m"
      using True early assms(2) earlyCost_bound [of s n] unfolding claimBound_double by auto
    then show ?thesis using early assms(2) True by (cases q') auto
  next
    case False
    then have "2 * a + 2 * int f + (if q then 2 * (int n - int (Suc s) - int f) else 0) + earlyCost n s +
        2 * (1 + int n - int s) \<le> 2 * claimBound n m" "s + f < n"
      using assms(2) early(1) by (auto simp: earlyCost_Suc)
    then have "2 * (a + 1) + 2 * int f + (if q' then 2 * (int n - int s - int f) else 0) + earlyCost n s
        \<le> 2 * claimBound n m"
      by (cases q; cases q') simp_all
    then show ?thesis using early assms(2) by auto
  qed
next
  case (last a q s f)
  then show ?thesis using assms(2) by (cases q) (auto split: if_splits)
qed (use assms(2) in \<open>auto simp: earlyCost_Suc split: if_splits\<close>)

interpretation claims: step_system "\<lambda>c. fst c = 0 \<and> snd (snd c) = (0, 0) \<and> 1 \<le> n" "claim_step n m" "claimInv n m"
  for n m
proof unfold_locales
  have "2 * n \<le> n * (n + 3) - 2" if "1 \<le> n" for n :: int
  proof -
    have "0 \<le> (n - 1) * (n + 2)" using that by simp
    then show ?thesis by (simp add: algebra_simps)
  qed
  from this [of "int n"]
  show "fst c = 0 \<and> snd (snd c) = (0, 0) \<and> 1 \<le> n \<Longrightarrow> claimInv n m c" for c
    unfolding claimBound_double by (cases c) (auto simp: claimBound_double earlyCost_def)
  show "claim_step n m c c' \<Longrightarrow> claimInv n m c \<Longrightarrow> claimInv n m c'" for c c'
    by (rule claim_step_inv)
qed

lemma claimInv_bound:
  assumes "claimInv n m c" "1 \<le> n"
  shows "fst c \<le> claimBound n m"
proof -
  obtain a q s f where c: "c = (a, q, s, f)" by (metis prod_cases4)
  then have "0 \<le> earlyCost n s" using assms by (intro earlyCost_nonneg) simp
  moreover have "4 \<le> int n * (int n + 3)" using mult_mono [of 1 "int n" 4 "int n + 3"] assms(2) by simp
  ultimately show ?thesis using assms(1) claimBound_double [of n m] by (auto simp: c split: if_splits)
qed

section \<open>The workers take these steps\<close>

text \<open>What a worker holds of the delivery \<open>i\<close>, and the view of the pool.\<close>

definition heldItem :: "string \<Rightarrow> QueueItem list \<Rightarrow> QueueItem option" where
  "heldItem i items = find (\<lambda>it. DlvID it = i) items"

definition holdsEarly :: "string \<Rightarrow> int \<Rightarrow> QueueItem list \<Rightarrow> bool" where
  "holdsEarly i m items = (case heldItem i items of None \<Rightarrow> False | Some it \<Rightarrow> Attempts it + 1 < m)"

definition holdsLast :: "string \<Rightarrow> int \<Rightarrow> QueueItem list \<Rightarrow> bool" where
  "holdsLast i m items = (case heldItem i items of None \<Rightarrow> False | Some it \<Rightarrow> m \<le> Attempts it + 1)"

definition claimOf :: "string \<Rightarrow> int \<Rightarrow> pool \<Rightarrow> claim" where
  "claimOf i m p =
     (let r = theRow i (pl_world p)
      in (attempts r, \<not> rowFinal r, length (filter (holdsEarly i m) (pl_held p)),
          length (filter (holdsLast i m) (pl_held p))))"

definition heldOK :: "string \<Rightarrow> DeliveryRow \<Rightarrow> QueueItem list \<Rightarrow> bool" where
  "heldOK i r items \<longleftrightarrow> distinct (map DlvID items) \<and>
     (\<forall>it \<in> set items. DlvID it = i \<longrightarrow> MaxAttempts it = max_attempts r \<and> 0 \<le> Attempts it \<and> Attempts it \<le> attempts r)"

definition poolInv :: "string \<Rightarrow> int \<Rightarrow> pool \<Rightarrow> bool" where
  "poolInv i m p \<longleftrightarrow> dbInv (w_db (pl_world p)) \<and>
     (\<exists>r. rowAt (w_db (pl_world p)) i = Some r \<and> max_attempts r = m \<and> 0 \<le> attempts r \<and>
        list_all (heldOK i r) (pl_held p))"

lemma fst_claimOf [simp]: "fst (claimOf i m p) = attempts (theRow i (pl_world p))"
  by (simp add: claimOf_def Let_def)

text \<open>A database that answers and orders as it is told.\<close>

fun goodPoolStep :: "pool_step \<Rightarrow> bool" where
  "goodPoolStep (TakeBatch k ord x now) \<longleftrightarrow> visits_rows ord"
| "goodPoolStep (DeliverNext k E) \<longleftrightarrow> \<not> sql_fails (de_sql E)"

lemma holds_disjoint: "length (filter (holdsEarly i m) xs) + length (filter (holdsLast i m) xs) =
    length (filter (\<lambda>x. heldItem i x \<noteq> None) xs)"
  by (induction xs) (auto simp: holdsEarly_def holdsLast_def split: option.splits)

lemma holds_idle:
  assumes "k < length xs" "heldItem i (xs ! k) = None"
  shows "length (filter (holdsEarly i m) xs) + length (filter (holdsLast i m) xs) < length xs"
  unfolding holds_disjoint
  by (rule length_filter_less [of "xs ! k"]) (use assms in auto)

lemma heldItem_batch:
  assumes "dbInv d" "set rs \<subseteq> set (deliveries d)"
  shows "heldItem i (map rowToItem rs) =
    (case rowAt d i of None \<Rightarrow> None | Some r \<Rightarrow> if r \<in> set rs then Some (rowToItem r) else None)"
proof (cases "heldItem i (map rowToItem rs)")
  case None
  then show ?thesis
    using assms rowAt_dlv_id by (fastforce simp: heldItem_def find_None_iff split: option.split)
next
  case (Some it)
  then obtain r where r: "r \<in> set rs" "dlv_id r = i" "it = rowToItem r"
    by (auto simp: heldItem_def find_Some_iff) (metis nth_mem)
  then have "rowAt d i = Some r" using rowAt_Some [OF assms(1)] assms(2) by auto
  then show ?thesis using r Some by simp
qed

lemma take_step:
  assumes inv: "poolInv i m p" and k: "k < length (pl_held p)" "pl_held p ! k = []"
    and ord: "visits_rows ord" and items: "GetPendingDeliveries ord x now 10 (w_db (pl_world p)) = Inr items"
  defines "p' \<equiv> p\<lparr>pl_held := (pl_held p)[k := items]\<rparr>"
  shows "poolInv i m p' \<and> claim_step (length (pl_held p)) m (claimOf i m p) (claimOf i m p')"
proof -
  let ?d = "w_db (pl_world p)"
  obtain r where r: "dbInv ?d" "rowAt ?d i = Some r" "max_attempts r = m" "0 \<le> attempts r"
    "list_all (heldOK i r) (pl_held p)"
    using inv by (auto simp: poolInv_def)
  obtain rs where rs: "items = map rowToItem rs" "mset rs \<subseteq># mset (filter (pendingRow now) (deliveries ?d))"
    using pending_Inr [OF ord items] by blast
  have sub: "set rs \<subseteq> {q \<in> set (deliveries ?d). pendingRow now q}"
    using set_mset_mono [OF rs(2)] by auto
  obtain ys where "mset (filter (pendingRow now) (deliveries ?d)) = mset (rs @ ys)"
    using rs(2) by (metis ex_mset mset_append subset_mset.le_iff_add)
  then have "mset (map dlv_id (filter (pendingRow now) (deliveries ?d))) = mset (map dlv_id (rs @ ys))"
    by (metis mset_map)
  then have "distinct (map dlv_id rs)"
    using r(1) mset_eq_imp_distinct_iff unfolding dbInv_def
    by (metis distinct_append distinct_map_filter map_append)
  moreover have "q = r" if "q \<in> set rs" "dlv_id q = i" for q
    using rowAt_Some [OF r(1), of i q] that sub r(2) by auto
  ultimately have ok: "heldOK i r items"
    using r(4) by (auto simp: heldOK_def rs(1) comp_def)
  have new: "heldItem i items = (if r \<in> set rs then Some (rowToItem r) else None)"
    using heldItem_batch [OF r(1), of rs i] subset_trans [OF sub, of "set (deliveries ?d)"] r(2) rs(1) by auto
  have cnt: "length (filter P ((pl_held p)[k := items])) = length (filter P (pl_held p)) + (if P items then 1 else 0)"
    if "\<not> P []" for P :: "QueueItem list \<Rightarrow> bool"
    using length_filter_update [OF k(1), of P items] that k(2) by simp
  have nil: "heldItem i [] = None" by (simp add: heldItem_def)
  then have e: "\<not> holdsEarly i m []" "\<not> holdsLast i m []" by (simp_all add: holdsEarly_def holdsLast_def)
  have row: "theRow i (pl_world p) = r" by (simp add: theRow_def r(2))
  have idle: "length (filter (holdsEarly i m) (pl_held p)) + length (filter (holdsLast i m) (pl_held p)) < length (pl_held p)"
    using holds_idle [OF k(1)] k(2) nil by simp
  have "poolInv i m p'"
    using r ok by (auto simp: poolInv_def p'_def list_all_iff dest!: set_update_subset_insert [THEN subsetD])
  moreover have "claim_step (length (pl_held p)) m (claimOf i m p) (claimOf i m p')"
  proof (cases "r \<in> set rs")
    case True
    then have "\<not> rowFinal r" using sub rowFinal_not_pending by blast
    moreover have "holdsEarly i m items \<longleftrightarrow> attempts r + 1 < m" "holdsLast i m items \<longleftrightarrow> m \<le> attempts r + 1"
      using True new by (simp_all add: holdsEarly_def holdsLast_def)
    ultimately show ?thesis
      using idle cnt [of "holdsEarly i m", OF e(1)] cnt [of "holdsLast i m", OF e(2)] claim_step.take_early claim_step.take_last
      by (simp add: claimOf_def p'_def Let_def row)
  next
    case False
    then have "\<not> holdsEarly i m items" "\<not> holdsLast i m items"
      using new by (simp_all add: holdsEarly_def holdsLast_def)
    then show ?thesis
      using cnt [of "holdsEarly i m", OF e(1)] cnt [of "holdsLast i m", OF e(2)] claim_step.other by (simp add: claimOf_def p'_def Let_def row)
  qed
  ultimately show ?thesis ..
qed

text \<open>A delivery of another row changes nothing here; one of this row is an attempt.\<close>

lemma heldItem_Cons: "heldItem i (it # items) = (if DlvID it = i then Some it else heldItem i items)"
  by (simp add: heldItem_def)

lemma heldItem_rest: "heldOK i r (it # items) \<Longrightarrow> DlvID it = i \<Longrightarrow> heldItem i items = None"
  by (auto simp: heldOK_def heldItem_def find_None_iff) (metis image_eqI)

lemma rowAt_processDelivery:
  assumes "processDelivery cfg sp E item w = Some w'" "\<not> sql_fails (de_sql E)"
  shows "\<exists>u new. attempt_outcome cfg sp E item w u new \<and> wire w' = wire w @ new \<and>
    (\<forall>k. rowAt (w_db w') k =
      (if k = DlvID item then map_option (updateRow (de_updateNow E) u) (rowAt (w_db w) k) else rowAt (w_db w) k)) \<and>
    (dbInv (w_db w) \<longrightarrow> dbInv (w_db w'))"
proof -
  obtain u new where u: "attempt_outcome cfg sp E item w u new" "wire w' = wire w @ new"
    "w_db w' = snd (UpdateDeliveryState (de_sql E) (de_updateNow E) (DlvID item) u (w_db w))"
    using processDelivery_D [OF assms(1)] by blast
  have "UpdateDeliveryState (de_sql E) (de_updateNow E) (DlvID item) u (w_db w) = (None, w_db w')"
    using u(3) assms(2) by (simp add: UpdateDeliveryState_def)
  from rowAt_Update [OF this] show ?thesis
    using u dbInv_Update [of "w_db w" "de_sql E" "de_updateNow E" "DlvID item" u]
    by (intro exI [of _ u] exI [of _ new]) auto
qed

lemma deliver_step:
  assumes inv: "poolInv i m p" and k: "k < length (pl_held p)" "pl_held p ! k = it # items"
    and pd: "processDelivery cfg sp E it (pl_world p) = Some w'" "\<not> sql_fails (de_sql E)"
    and range: "attempts (theRow i (pl_world p)) < MaxInt64"
  defines "p' \<equiv> p\<lparr>pl_world := w', pl_held := (pl_held p)[k := items]\<rparr>"
  shows "poolInv i m p' \<and> claim_step (length (pl_held p)) m (claimOf i m p) (claimOf i m p')"
    and "DlvID it = i \<Longrightarrow> attempts (theRow i w') = attempts (theRow i (pl_world p)) + 1 \<and>
      length (wire w') \<le> length (wire (pl_world p)) + 1"
proof -
  let ?d = "w_db (pl_world p)"
  obtain r where r: "dbInv ?d" "rowAt ?d i = Some r" "max_attempts r = m" "0 \<le> attempts r"
    "list_all (heldOK i r) (pl_held p)"
    using inv by (auto simp: poolInv_def)
  obtain u new where u: "attempt_outcome cfg sp E it (pl_world p) u new" "wire w' = wire (pl_world p) @ new"
    "\<And>j. rowAt (w_db w') j = (if j = DlvID it then map_option (updateRow (de_updateNow E) u) (rowAt ?d j)
       else rowAt ?d j)" "dbInv (w_db w')"
    using rowAt_processDelivery [OF pd] r(1) by blast
  have row: "theRow i (pl_world p) = r" by (simp add: theRow_def r(2))
  have ok: "heldOK i r (it # items)" using r(5) k by (metis list_all_length)
  have cnt: "length (filter P ((pl_held p)[k := items])) + (if P (it # items) then 1 else 0) =
      length (filter P (pl_held p)) + (if P items then 1 else 0)" for P :: "QueueItem list \<Rightarrow> bool"
    using length_filter_update [OF k(1), of P items] k(2) by simp
  have "poolInv i m p' \<and> claim_step (length (pl_held p)) m (claimOf i m p) (claimOf i m p') \<and>
    (DlvID it = i \<longrightarrow> attempts (theRow i w') = attempts r + 1 \<and> length (wire w') \<le> length (wire (pl_world p)) + 1)"
  proof (cases "DlvID it = i")
    case False
    then have "rowAt (w_db w') i = Some r" using u(3) r(2) by simp
    moreover have "heldItem i (it # items) = heldItem i items" using False by (simp add: heldItem_Cons)
    then have "holdsEarly i m (it # items) = holdsEarly i m items" "holdsLast i m (it # items) = holdsLast i m items"
      by (simp_all add: holdsEarly_def holdsLast_def)
    moreover have "heldOK i r items" using ok by (auto simp: heldOK_def)
    ultimately show ?thesis
      using False r u(4) cnt [of "holdsEarly i m"] cnt [of "holdsLast i m"]
      by (auto simp: poolInv_def p'_def claimOf_def theRow_def list_all_iff intro: claim_step.other
          dest!: set_update_subset_insert [THEN subsetD] split: if_splits)
  next
    case True
    let ?r' = "updateRow (de_updateNow E) u r"
    have r': "rowAt (w_db w') i = Some ?r'" using u(3) r(2) True by simp
    have row': "theRow i w' = ?r'" by (simp add: theRow_def r')
    have it: "MaxAttempts it = m" "0 \<le> Attempts it" "Attempts it \<le> attempts r"
      using ok True r(3) by (auto simp: heldOK_def)
    have wr: "wrap64 (Attempts it + 1) = Attempts it + 1"
      using it range by (intro wrap64_id) (simp add: row)
    have none: "heldItem i items = None" by (rule heldItem_rest [OF ok True])
    have rest: "\<not> holdsEarly i m items" "\<not> holdsLast i m items"
      using none by (simp_all add: holdsEarly_def holdsLast_def)
    have head: "holdsEarly i m (it # items) \<longleftrightarrow> Attempts it + 1 < m" "holdsLast i m (it # items) \<longleftrightarrow> m \<le> Attempts it + 1"
      using True by (simp_all add: holdsEarly_def holdsLast_def heldItem_Cons)
    have new: "length new \<le> 1" using u(1) by (auto simp: attempt_outcome_def lostMail_def)
    have held: "list_all (heldOK i ?r') ((pl_held p)[k := items])"
      using r(5) ok by (auto simp: list_all_iff heldOK_def dest!: set_update_subset_insert [THEN subsetD]) force+
    have "claim_step (length (pl_held p)) m (claimOf i m p) (claimOf i m p')"
    proof (cases "Attempts it + 1 < m")
      case early: True
      then obtain s where s: "length (filter (holdsEarly i m) (pl_held p)) = Suc s"
          "length (filter (holdsEarly i m) ((pl_held p)[k := items])) = s"
        using cnt [of "holdsEarly i m"] head rest by auto
      moreover have "length (filter (holdsLast i m) ((pl_held p)[k := items])) = length (filter (holdsLast i m) (pl_held p))"
        using cnt [of "holdsLast i m"] head rest early by simp
      ultimately show ?thesis
        by (simp add: claimOf_def p'_def Let_def row row' claim_step.early)
    next
      case last: False
      then have "u_state u \<in> {StateDelivered, StatePermFail}"
        using u(1) it(1) wr by (auto simp: attempt_outcome_def)
      then have fin: "rowFinal ?r'" by (simp add: rowFinal_def)
      obtain f where "length (filter (holdsLast i m) (pl_held p)) = Suc f"
          "length (filter (holdsLast i m) ((pl_held p)[k := items])) = f"
        using cnt [of "holdsLast i m"] head rest last by auto
      moreover have "length (filter (holdsEarly i m) ((pl_held p)[k := items])) = length (filter (holdsEarly i m) (pl_held p))"
        using cnt [of "holdsEarly i m"] head rest last by simp
      ultimately show ?thesis
        using fin by (simp add: claimOf_def p'_def Let_def row row' claim_step.last)
    qed
    moreover have "poolInv i m p'" using r r' u(4) held by (auto simp: poolInv_def p'_def)
    ultimately show ?thesis using u(2) new by (simp add: row')
  qed
  then show "poolInv i m p' \<and> claim_step (length (pl_held p)) m (claimOf i m p) (claimOf i m p')"
    and "DlvID it = i \<Longrightarrow> attempts (theRow i w') = attempts (theRow i (pl_world p)) + 1 \<and>
      length (wire w') \<le> length (wire (pl_world p)) + 1"
    by (simp_all add: row)
qed

section \<open>The bound\<close>

text \<open>The mail the remote servers accepted in the attempts at the delivery \<open>i\<close>.\<close>

definition sentBy :: "WorkerConfig \<Rightarrow> Spool \<Rightarrow> string \<Rightarrow> pool \<Rightarrow> pool_step \<Rightarrow> nat" where
  "sentBy cfg sp i p e =
     (case e of
        TakeBatch k ord x now \<Rightarrow> 0
      | DeliverNext k E \<Rightarrow>
          if k < length (pl_held p) \<and> map DlvID (take 1 (pl_held p ! k)) = [i]
          then length (wire (pl_world (poolStep cfg sp p e))) - length (wire (pl_world p)) else 0)"

fun sentCount :: "WorkerConfig \<Rightarrow> Spool \<Rightarrow> string \<Rightarrow> pool \<Rightarrow> pool_step list \<Rightarrow> nat" where
  "sentCount cfg sp i p [] = 0"
| "sentCount cfg sp i p (e # es) = sentBy cfg sp i p e + sentCount cfg sp i (poolStep cfg sp p e) es"

lemma poolStep_claim:
  assumes "poolInv i m p" "goodPoolStep e" "attempts (theRow i (pl_world p)) < MaxInt64"
  shows "poolInv i m (poolStep cfg sp p e) \<and>
    claim_step (length (pl_held p)) m (claimOf i m p) (claimOf i m (poolStep cfg sp p e)) \<and>
    length (pl_held (poolStep cfg sp p e)) = length (pl_held p) \<and>
    attempts (theRow i (pl_world p)) + int (sentBy cfg sp i p e) \<le> attempts (theRow i (pl_world (poolStep cfg sp p e)))"
proof (cases "poolStep cfg sp p e = p \<or> poolStep cfg sp p e = p\<lparr>pl_panicked := True\<rparr>")
  case True
  moreover have "poolInv i m (p\<lparr>pl_panicked := True\<rparr>)" "claimOf i m (p\<lparr>pl_panicked := True\<rparr>) = claimOf i m p"
    using assms(1) by (simp_all add: poolInv_def claimOf_def)
  ultimately show ?thesis
    using assms(1) by (auto simp: sentBy_def intro: claim_step.other split: pool_step.split)
next
  case False
  then consider (take) k ord x now items where "e = TakeBatch k ord x now" "k < length (pl_held p)" "pl_held p ! k = []"
      "GetPendingDeliveries ord x now 10 (w_db (pl_world p)) = Inr items"
      "poolStep cfg sp p e = p\<lparr>pl_held := (pl_held p)[k := items]\<rparr>"
    | (deliver) k E it items w' where "e = DeliverNext k E" "k < length (pl_held p)" "pl_held p ! k = it # items"
      "processDelivery cfg sp E it (pl_world p) = Some w'"
      "poolStep cfg sp p e = p\<lparr>pl_world := w', pl_held := (pl_held p)[k := items]\<rparr>"
    by (auto simp: poolStep_def split: pool_step.splits sum.splits list.splits option.splits if_splits)
  then show ?thesis
  proof cases
    case take
    then show ?thesis
      using take_step [OF assms(1) take(2,3) _ take(4)] assms(2) by (simp add: sentBy_def)
  next
    case deliver
    have "\<not> sql_fails (de_sql E)" using assms(2) deliver(1) by simp
    note D = deliver_step [OF assms(1) deliver(2-4) this assms(3)]
    have "attempts (theRow i (pl_world p)) \<le> attempts (theRow i w')"
      using D(1) by (auto simp: claimOf_def Let_def elim: claim_step.cases)
    then show ?thesis using D deliver by (auto simp: sentBy_def)
  qed
qed

lemma poolRun_claim:
  assumes "poolInv i m p" "list_all goodPoolStep es" "claimInv (length (pl_held p)) m (claimOf i m p)"
    and "1 \<le> length (pl_held p)" "claimBound (length (pl_held p)) m < MaxInt64"
  shows "attempts (theRow i (pl_world (run (poolStep cfg sp) p es))) \<le> claimBound (length (pl_held p)) m \<and>
    attempts (theRow i (pl_world p)) + int (sentCount cfg sp i p es) \<le>
      attempts (theRow i (pl_world (run (poolStep cfg sp) p es)))"
  using assms
proof (induction es arbitrary: p)
  case Nil
  then show ?case using claimInv_bound [OF Nil.prems(3,4)] by simp
next
  case (Cons e es)
  have "attempts (theRow i (pl_world p)) < MaxInt64"
    using claimInv_bound [OF Cons.prems(3,4)] Cons.prems(5) by simp
  then have st: "poolInv i m (poolStep cfg sp p e)"
    "claim_step (length (pl_held p)) m (claimOf i m p) (claimOf i m (poolStep cfg sp p e))"
    "length (pl_held (poolStep cfg sp p e)) = length (pl_held p)"
    "attempts (theRow i (pl_world p)) + int (sentBy cfg sp i p e) \<le> attempts (theRow i (pl_world (poolStep cfg sp p e)))"
    using poolStep_claim [OF Cons.prems(1)] Cons.prems(2) by auto
  have "claimInv (length (pl_held p)) m (claimOf i m (poolStep cfg sp p e))"
    by (rule claim_step_inv [OF st(2) Cons.prems(3)])
  then show ?case
    using Cons.IH [OF st(1)] Cons.prems(2,4,5) st(3,4) by auto
qed

lemma startPool_inv:
  assumes "dbInv (w_db w)" "rowAt (w_db w) i = Some r" "attempts r = 0" "1 \<le> n"
  shows "poolInv i (max_attempts r) (startPool n w)"
    and "claimInv n (max_attempts r) (claimOf i (max_attempts r) (startPool n w))"
proof -
  show "poolInv i (max_attempts r) (startPool n w)"
    using assms by (simp add: poolInv_def startPool_def list_all_iff heldOK_def)
  have "\<not> holdsEarly i m []" "\<not> holdsLast i m []" for m
    by (simp_all add: holdsEarly_def holdsLast_def heldItem_def)
  then show "claimInv n (max_attempts r) (claimOf i (max_attempts r) (startPool n w))"
    using assms by (intro claims.start_inv) (simp add: claimOf_def startPool_def Let_def theRow_def)
qed

end
