(* ===== verification/DeliveryProperties.thy ===== *)
theory DeliveryProperties
  imports DeliveryLaws Config SpoolLifecycle
begin

text \<open>
  The properties of the delivery queue, the workers and the event logger, each with an instance where
  it has hypotheses.
\<close>

section \<open>A delivery for the instances\<close>

definition acceptingServer :: mail_server where
  "acceptingServer = \<lparr>ms_dial = None, ms_hello = None, ms_mail = (\<lambda>_. None), ms_rcpt = (\<lambda>_. None),
     ms_data = None, ms_write = (\<lambda>_. None), ms_close = None, ms_kept = None\<rparr>"

definition rejectingServer :: mail_server where
  "rejectingServer = acceptingServer\<lparr>ms_rcpt := (\<lambda>_. Some ''550 no such user'')\<rparr>"

text \<open>A server whose reply to the end of the message is lost.\<close>

definition lostReplyServer :: mail_server where
  "lostReplyServer = acceptingServer\<lparr>ms_close := Some ''EOF'', ms_kept := Some ''hi''\<rparr>"

definition demoEnv :: "mail_server \<Rightarrow> sql_call \<Rightarrow> delivery_env" where
  "demoEnv S x = \<lparr>de_faults = no_faults, de_errno = (\<lambda>_. []), de_mx = (\<lambda>_. Inr [''mx.d.'']),
     de_ip = (\<lambda>_. Inr [''1.2.3.4'']), de_server = (\<lambda>_. S), de_retryNow = 0, de_updateNow = 0,
     de_elapsed = 0, de_eventNow = 0, de_sql = x\<rparr>"

definition demoWorker :: WorkerConfig where
  "demoWorker = \<lparr>wc_Workers = 1, wc_RetrySchedule = [Minute, Hour], wc_MaxAttempts = 2, wc_PollInterval = Second\<rparr>"

definition dlvSpool :: Spool where
  "dlvSpool = \<lparr>basePath = ''/q'', retention = []\<rparr>"

definition demoRow :: DeliveryRow where
  "demoRow = \<lparr>dlv_id = ''k'', msg_id = ''m'', recipient = ''c@d'', mx_hostname = None, mx_ip = None,
     state = StateQueued, attempts = 0, max_attempts = 2, next_attempt = 0, last_error = None,
     smtp_code = None, smtp_message = None, created_at = 0, updated_at = 0, delivered_at = None\<rparr>"

definition demoWorld :: delivery_world where
  "demoWorld = \<lparr>w_disk = \<lparr>files = [(stagePath dlvSpool StageSigned ''m'', \<lparr>idata = ''hi'', mtime = 0\<rparr>)], dirs = [], trail = []\<rparr>,
     w_db = \<lparr>deliveries = [demoRow], messages = []\<rparr>, w_client = freshClient 100 [], wire = [], contacts = []\<rparr>"

lemma demo_row: "rowAt (w_db demoWorld) ''k'' = Some demoRow" "theRow ''k'' demoWorld = demoRow"
  by (simp_all add: theRow_def rowAt_def demoWorld_def demoRow_def)

lemma demo_rowOK: "rowOK ''k'' demoWorld" "\<not> rowFinal (theRow ''k'' demoWorld)"
  by (simp_all add: rowOK_def demo_row rowFinal_def) (simp_all add: demoRow_def)

lemma demo_good: "list_all (goodAttempt demoWorker) (replicate n (demoEnv S sql_ok))"
  by (simp add: goodAttempt_def demoWorker_def demoEnv_def sql_ok_def list_all_iff)

lemma demo_read: "readMessage no_faults dlvSpool ''m'' (w_disk demoWorld) = Inr ''hi''"
  by (simp add: readMessage_def Read_def readFile_def fileAt_def demoWorld_def del: map_of_files)

lemma demo_lookup: "lookupMX (demoEnv S x) ''c@d'' = (''mx.d'', ''1.2.3.4'', None)"
  by (simp add: lookupMX_def demoEnv_def Let_def trimSuffix_def suffix_def)

section \<open>The life of a delivery\<close>

text \<open>C5: A delivery ends: attempted once per turn while it is pending, with a database that answers
  and a retry schedule, it is delivered or has failed for good after its maximal number of attempts
  at the latest, whatever the resolver, the mail servers and the file system do.\<close>

theorem delivery_ends:
  assumes "rowOK i w" "list_all (goodAttempt cfg) Es"
    and "max 1 (max_attempts (theRow i w) - attempts (theRow i w)) \<le> int (length Es)"
  shows "state (theRow i (attemptRun (attemptRow cfg sp i) (\<lambda>w. rowFinal (theRow i w)) w Es)) \<in>
    {StateDelivered, StatePermFail}"
  using delivery_attempts.attemptRun_ends [OF assms, of sp] unfolding rowFinal_def .

theorem delivery_ends_witness:
  "state (theRow ''k'' (attemptRun (attemptRow demoWorker dlvSpool ''k'') (\<lambda>w. rowFinal (theRow ''k'' w))
     demoWorld (replicate 2 (demoEnv rejectingServer sql_ok)))) \<in> {StateDelivered, StatePermFail}"
  by (rule delivery_ends [OF demo_rowOK(1) demo_good]) (simp add: demo_row, simp add: demoRow_def)



text \<open>A server that accepts the message but whose reply is lost gets it once per attempt, and the delivery ends
  as failed for good.\<close>

theorem lost_reply_resent:
  "(let w = attemptRun (attemptRow demoWorker dlvSpool ''k'') (\<lambda>w. rowFinal (theRow ''k'' w)) demoWorld
       (replicate 3 (demoEnv lostReplyServer sql_ok))
    in (map am_data (wire w), state (theRow ''k'' w))) = ([''hi'', ''hi''], StatePermFail)"
  by code_simp

text \<open>A batch of a worker leaves every delivery that is not pending as it was: delivered ones, failed
  ones, and those whose time has not come.\<close>

theorem batch_leaves_others:
  assumes "processBatch cfg sp ord x now E w = Some w'" "visits_rows ord" "dbInv (w_db w)"
    and "rowAt (w_db w) i = Some r" "\<not> pendingRow now r"
  shows "rowAt (w_db w') i = Some r"
  using processBatch_frame [OF assms] .

definition laterWorld :: delivery_world where
  "laterWorld = demoWorld\<lparr>w_db := \<lparr>deliveries = [demoRow, demoRow\<lparr>dlv_id := ''l'', next_attempt := 9\<rparr>], messages = []\<rparr>\<rparr>"

theorem batch_leaves_others_witness:
  "\<exists>w'. processBatch demoWorker dlvSpool (\<lambda>rs. rs) sql_ok 0 (\<lambda>_. demoEnv acceptingServer sql_ok) laterWorld =
       Some w' \<and> rowAt (w_db w') ''l'' = Some (demoRow\<lparr>dlv_id := ''l'', next_attempt := 9\<rparr>)"
proof -
  have total: "\<exists>w'. processItems demoWorker dlvSpool (\<lambda>_. demoEnv acceptingServer sql_ok) n items w = Some w'"
    if "\<forall>item \<in> set items. 0 \<le> Attempts item" for n items w
    using that
  proof (induction items arbitrary: n w)
    case (Cons item items)
    obtain v where "processDelivery demoWorker dlvSpool (demoEnv acceptingServer sql_ok) item w = Some v"
      using processDelivery_no_panic [of demoWorker item dlvSpool "demoEnv acceptingServer sql_ok" w] Cons.prems
      by (auto simp: demoWorker_def)
    then show ?case using Cons by simp
  qed simp
  have att: "0 \<le> Attempts item"
    if "GetPendingDeliveries (\<lambda>rs. rs) sql_ok 0 10 (w_db laterWorld) = Inr items" "item \<in> set items" for items item
    using that by (auto simp: GetPendingDeliveries_def sql_ok_def laterWorld_def demoRow_def pendingRow_def unixSec_def orderByNext_def sort_key_def)
  obtain items where "GetPendingDeliveries (\<lambda>rs. rs) sql_ok 0 10 (w_db laterWorld) = Inr items"
    by (simp add: GetPendingDeliveries_def sql_ok_def)
  then obtain w' where b: "processBatch demoWorker dlvSpool (\<lambda>rs. rs) sql_ok 0
      (\<lambda>_. demoEnv acceptingServer sql_ok) laterWorld = Some w'"
    using total [of items 0 laterWorld] att by (auto simp: processBatch_def)
  have "dbInv (w_db laterWorld)" "rowAt (w_db laterWorld) ''l'' = Some (demoRow\<lparr>dlv_id := ''l'', next_attempt := 9\<rparr>)"
    "\<not> pendingRow 0 (demoRow\<lparr>dlv_id := ''l'', next_attempt := 9\<rparr>)"
    by (simp_all add: dbInv_def rowAt_def laterWorld_def demoRow_def pendingRow_def unixSec_def)
  from batch_leaves_others [OF b visits_rows_id this] b show ?thesis by blast
qed

text \<open>C33: Every error of the dialogue with the mail server is treated as temporary, also a refusal with a
  permanent code: the code never reaches the worker. Before its last attempt the delivery is
  scheduled again, at the time the schedule gives for the attempts so far, also when the server has
  accepted the message (\<open>ws\<close>) and only its reply was lost.\<close>

theorem rejection_retried:
  assumes "rowAt (w_db w) i = Some r" "readMessage (de_faults E) sp (msg_id r) (w_disk w) = Inr d"
    and "lookupMX E (recipient r) = (h, ip, None)" "deliver E h (recipient r) d (wire w) = ((code, msg, Some e), cs, ws)"
    and "0 \<le> attempts r" "attempts r + 1 < max_attempts r" "max_attempts r \<le> MaxInt64"
    and "wc_RetrySchedule cfg \<noteq> []" "\<not> sql_fails (de_sql E)"
  shows "\<exists>r'. rowAt (w_db (attemptRow cfg sp i E w)) i = Some r' \<and> state r' = StateTempFail \<and>
    attempts r' = attempts r + 1 \<and> wire (attemptRow cfg sp i E w) = ws \<and>
    next_attempt r' = unixSec (de_retryNow E +
      wc_RetrySchedule cfg ! min (nat (attempts r)) (length (wc_RetrySchedule cfg) - 1))"
proof -
  let ?w = "w\<lparr>wire := ws, contacts := contacts w @ cs\<rparr>" and ?it = "rowToItem r"
  have "wrap64 (attempts r + 1) = attempts r + 1" using assms(5-7) by (intro wrap64_id) simp
  moreover obtain t where t: "calculateNextRetry cfg (de_retryNow E) (attempts r) = Some t"
    "t = de_retryNow E + wc_RetrySchedule cfg ! min (nat (attempts r)) (length (wc_RetrySchedule cfg) - 1)"
    using assms(5,8) last_conv_nth [OF assms(8)] by (fastforce simp: calculateNextRetry_def Let_def min_def)
  moreover define u where "u = \<lparr>u_state = StateTempFail, u_mxHostname = h, u_mxIP = ip, u_error = e,
    u_code = code, u_message = msg, u_next = t\<rparr>"
  ultimately have "updateDeliveryTempFail cfg E ?it h ip e code msg ?w = Some (updateDelivery E ?it u ?w)"
    using assms(6) by (simp add: updateDeliveryTempFail_def)
  moreover have "code = 0" using deliver_D [OF assms(4)] by simp
  ultimately have eq: "attemptRow cfg sp i E w = reportDelivery E ?it h ip ''temp_fail'' code msg (updateDelivery E ?it u ?w)"
    using assms(1-4) by (simp add: attemptRow_def processDelivery_def)
  obtain d' where d': "UpdateDeliveryState (de_sql E) (de_updateNow E) i u (w_db w) = (None, d')"
    using assms(9) by (simp add: UpdateDeliveryState_def)
  then show ?thesis
    using rowAt_Update [OF d', of i] assms(1) rowAt_dlv_id [OF assms(1)] t(2) by (simp add: eq u_def)
qed

theorem rejection_retried_witness:
  "\<exists>r'. rowAt (w_db (attemptRow demoWorker dlvSpool ''k'' (demoEnv rejectingServer sql_ok) demoWorld)) ''k'' = Some r' \<and>
     state r' = StateTempFail \<and> next_attempt r' = 60"
proof -
  let ?E = "demoEnv rejectingServer sql_ok"
  have "\<exists>r'. rowAt (w_db (attemptRow demoWorker dlvSpool ''k'' ?E demoWorld)) ''k'' = Some r' \<and> state r' = StateTempFail \<and>
    attempts r' = attempts demoRow + 1 \<and> wire (attemptRow demoWorker dlvSpool ''k'' ?E demoWorld) = wire demoWorld \<and>
    next_attempt r' = unixSec (de_retryNow ?E +
      wc_RetrySchedule demoWorker ! min (nat (attempts demoRow)) (length (wc_RetrySchedule demoWorker) - 1))"
  proof (rule rejection_retried [OF demo_row(1)])
    show "readMessage (de_faults ?E) dlvSpool (msg_id demoRow) (w_disk demoWorld) = Inr ''hi''"
      using demo_read by (simp add: demoEnv_def demoRow_def)
    show "lookupMX ?E (recipient demoRow) = (''mx.d'', ''1.2.3.4'', None)"
      using demo_lookup by (simp add: demoRow_def)
    show "deliver ?E ''mx.d'' (recipient demoRow) ''hi'' (wire demoWorld) =
        ((0, [], Some ''RCPT TO failed: 550 no such user''), [DialCall ''mx.d:25'', HelloCall ''submitter-smtp-daemon'',
          MailCall deliverSender, RcptCall ''c@d'', CloseCall], wire demoWorld)"
      by (simp add: deliver_def demoEnv_def rejectingServer_def acceptingServer_def demoRow_def Let_def)
  qed (simp_all add: demoRow_def demoWorker_def demoEnv_def sql_ok_def)
  then show ?thesis by (auto simp: demoEnv_def demoWorker_def demoRow_def Minute_def unixSec_def)
qed

text \<open>C38: The query for pending deliveries gives, in the order of their times, as many as the limit allows
  of the deliveries that are queued or failed temporarily and due, and none that is left out is due
  before one that is given; every delivery is given at most as often as it is in the table. This does
  not depend on the order in which the database visits the rows.\<close>

theorem pending_exact:
  assumes "visits_rows ord" "GetPendingDeliveries ord x now limit d = Inr items"
  shows "\<exists>rs. items = map rowToItem rs \<and> mset rs \<subseteq># mset (filter (pendingRow now) (deliveries d)) \<and>
    sorted (map next_attempt rs) \<and>
    length rs = min (nat limit) (length (filter (pendingRow now) (deliveries d))) \<and>
    (\<forall>r \<in> set (filter (pendingRow now) (deliveries d)).
       r \<in> set rs \<or> (\<forall>q \<in> set rs. next_attempt q \<le> next_attempt r))"
  using pending_Inr [OF assms] .

theorem pending_exact_witness:
  "\<exists>rs. length rs = 1 \<and> GetPendingDeliveries (\<lambda>rs. rs) sql_ok 0 10 (w_db laterWorld) = Inr (map rowToItem rs)"
proof -
  obtain items where i: "GetPendingDeliveries (\<lambda>rs. rs) sql_ok 0 10 (w_db laterWorld) = Inr items"
    by (simp add: GetPendingDeliveries_def sql_ok_def)
  have "length (filter (pendingRow 0) (deliveries (w_db laterWorld))) = 1"
    by (simp add: laterWorld_def pendingRow_def demoRow_def unixSec_def)
  with pending_exact [OF visits_rows_id i] i show ?thesis by auto
qed

text \<open>When the outcome cannot be recorded the error is ignored and the delivery stays pending: each
  further attempt sends the message again, without an end.\<close>

theorem unrecorded_resent:
  assumes "rowAt (w_db w) i = Some r" "sql_fails (de_sql E)"
    and "readMessage (de_faults E) sp (msg_id r) (w_disk w) = Inr d"
    and "lookupMX E (recipient r) = (h, ip, None)" "\<And>ws. fst (deliver E h (recipient r) d ws) = (250, ''OK'', None)"
  shows "wire ((attemptRow cfg sp i E ^^ n) w) =
      wire w @ replicate n \<lparr>am_addr = h @ '':25'', am_sender = deliverSender, am_rcpt = recipient r, am_data = d, am_confirmed = True\<rparr> \<and>
    rowAt (w_db ((attemptRow cfg sp i E ^^ n) w)) i = Some r \<and>
    w_disk ((attemptRow cfg sp i E ^^ n) w) = w_disk w"
proof (induction n)
  case (Suc n)
  let ?w = "(attemptRow cfg sp i E ^^ n) w"
  obtain cs ws where dl: "deliver E h (recipient r) d (wire ?w) = ((250, ''OK'', None), cs, ws)"
    using assms(5) [of "wire ?w"] by (metis prod.collapse)
  have ws: "ws = wire ?w @ [\<lparr>am_addr = h @ '':25'', am_sender = deliverSender, am_rcpt = recipient r, am_data = d, am_confirmed = True\<rparr>]"
    using deliver_D [OF dl] by simp
  have rd: "readMessage (de_faults E) sp (msg_id r) (w_disk ?w) = Inr d" using assms(3) Suc by simp
  have row: "rowAt (w_db ?w) i = Some r" using Suc by blast
  have "processDelivery cfg sp E (rowToItem r) ?w =
      Some (reportDelivery E (rowToItem r) h ip ''success'' 250 ''OK''
        (updateDeliverySuccess E (rowToItem r) h ip 250 ''OK'' (?w\<lparr>wire := ws, contacts := contacts ?w @ cs\<rparr>)))"
    by (simp add: processDelivery_def rd assms(4) dl)
  then have "attemptRow cfg sp i E ?w =
      reportDelivery E (rowToItem r) h ip ''success'' 250 ''OK''
        (updateDeliverySuccess E (rowToItem r) h ip 250 ''OK'' (?w\<lparr>wire := ws, contacts := contacts ?w @ cs\<rparr>))"
    by (simp add: attemptRow_def row)
  then show ?case
    using Suc assms(2) ws
    by (simp add: updateDeliverySuccess_def UpdateDeliveryState_def replicate_append_same)
qed (simp add: assms(1))

theorem unrecorded_resent_witness:
  "length (wire ((attemptRow demoWorker dlvSpool ''k'' (demoEnv acceptingServer \<lparr>sql_fails = True, sql_fk = True\<rparr>) ^^ 3)
     demoWorld)) = 3"
proof -
  let ?E = "demoEnv acceptingServer \<lparr>sql_fails = True, sql_fk = True\<rparr>"
  have "wire ((attemptRow demoWorker dlvSpool ''k'' ?E ^^ 3) demoWorld) =
      wire demoWorld @ replicate 3 \<lparr>am_addr = ''mx.d'' @ '':25'', am_sender = deliverSender,
        am_rcpt = recipient demoRow, am_data = ''hi'', am_confirmed = True\<rparr> \<and>
    rowAt (w_db ((attemptRow demoWorker dlvSpool ''k'' ?E ^^ 3) demoWorld)) ''k'' = Some demoRow \<and>
    w_disk ((attemptRow demoWorker dlvSpool ''k'' ?E ^^ 3) demoWorld) = w_disk demoWorld"
  proof (rule unrecorded_resent [OF demo_row(1)])
    show "sql_fails (de_sql ?E)" by (simp add: demoEnv_def)
    show "readMessage (de_faults ?E) dlvSpool (msg_id demoRow) (w_disk demoWorld) = Inr ''hi''"
      using demo_read by (simp add: demoEnv_def demoRow_def)
    show "lookupMX ?E (recipient demoRow) = (''mx.d'', ''1.2.3.4'', None)"
      using demo_lookup by (simp add: demoRow_def)
    show "fst (deliver ?E ''mx.d'' (recipient demoRow) ''hi'' ws) = (250, ''OK'', None)" for ws
      by (simp add: deliver_def demoEnv_def acceptingServer_def Let_def)
  qed
  then show ?thesis by (simp add: demoWorld_def)
qed

text \<open>Without a retry schedule, which \<open>Load\<close> accepts, a failed lookup makes the worker panic, also at
  the last attempt, for which no retry is needed.\<close>

theorem empty_schedule_panics:
  assumes "wc_RetrySchedule cfg = []" "readMessage (de_faults E) sp (MsgID item) (w_disk w) = Inr d"
    and "lookupMX E (Recipient item) = (h, ip, Some e)"
  shows "processDelivery cfg sp E item w = None"
  using assms by (simp add: processDelivery_def updateDeliveryTempFail_def calculateNextRetry_def)

definition noSchedule :: "Config \<Rightarrow> Config" where
  "noSchedule c = c\<lparr>cfg_Delivery := (cfg_Delivery c)\<lparr>dlv_RetrySchedule := []\<rparr>\<rparr>"

theorem empty_schedule_panics_witness:
  "\<exists>c. Load (\<lambda>_. Some []) (\<lambda>_ c. Some (noSchedule c)) (\<lambda>_. []) ''f'' = Inr c \<and>
     processDelivery (demoWorker\<lparr>wc_RetrySchedule := dlv_RetrySchedule (cfg_Delivery c)\<rparr>) dlvSpool
       ((demoEnv acceptingServer sql_ok)\<lparr>de_mx := (\<lambda>_. Inr [])\<rparr>) (rowToItem demoRow) demoWorld = None"
proof -
  let ?E = "(demoEnv acceptingServer sql_ok)\<lparr>de_mx := (\<lambda>_. Inr [])\<rparr>"
  let ?cfg = "demoWorker\<lparr>wc_RetrySchedule := []\<rparr>"
  have "configOK (noSchedule DefaultConfig)" using DefaultConfig_OK by (simp add: configOK_def noSchedule_def)
  then have ld: "Load (\<lambda>_. Some []) (\<lambda>_ c. Some (noSchedule c)) (\<lambda>_. []) ''f'' = Inr (noSchedule DefaultConfig)"
    by (simp add: Load_def overrides_empty Validate_None [THEN iffD2])
  have "processDelivery ?cfg dlvSpool ?E (rowToItem demoRow) demoWorld = None"
  proof (rule empty_schedule_panics)
    show "readMessage (de_faults ?E) dlvSpool (MsgID (rowToItem demoRow)) (w_disk demoWorld) = Inr ''hi''"
      using demo_read by (simp add: demoEnv_def demoRow_def)
    show "lookupMX ?E (Recipient (rowToItem demoRow)) = ([], [], Some (''no MX records found for '' @ ''d''))"
      by (simp add: lookupMX_def demoRow_def)
  qed simp
  then show ?thesis using ld by (simp add: noSchedule_def)
qed

section \<open>The event logger\<close>

text \<open>C25: No event is lost and none is counted twice: in any interleaving of logging, of flushes started
  by the timer, by a full buffer or at the end, and of their counting, the events waiting in the
  buffer or in a flush and those counted are together exactly the events that were logged.\<close>

theorem events_conserved:
  "waiting (run clientStep (freshClient n []) es) + counted (run clientStep (freshClient n []) es) = loggedCount es"
  using run_conserves [of "freshClient n []" es] by (simp add: freshClient_def waiting_def counted_def counterVal_def)

end
