(* ===== verification/PoolProperties.thy ===== *)
theory PoolProperties
  imports DeliveryPool DeliveryProperties
begin

text \<open>
  The properties of several workers at one queue, and of a batch as a whole, each with an instance.
\<close>

text \<open>C11: However many workers there are and however their steps are interleaved, while the database answers: a
  delivery is attempted, and its message sent, at most so often, its maximal number of attempts less two
  plus \<open>n (n + 3) / 2\<close> for \<open>n\<close> workers. With one worker this is the maximal number of attempts; with
  more, a worker that holds an old copy of the row can make a finished delivery pending again.\<close>

theorem attempts_bounded:
  assumes "dbInv (w_db w)" "rowAt (w_db w) i = Some r" "attempts r = 0" "1 \<le> n"
    and "max 1 (max_attempts r) - 2 + int n * (int n + 3) div 2 < MaxInt64" "list_all goodPoolStep es"
  shows "int (sentCount cfg sp i (startPool n w) es) \<le>
      attempts (theRow i (pl_world (run (poolStep cfg sp) (startPool n w) es))) \<and>
    attempts (theRow i (pl_world (run (poolStep cfg sp) (startPool n w) es))) \<le>
      max 1 (max_attempts r) - 2 + int n * (int n + 3) div 2"
proof -
  have n: "length (pl_held (startPool n w)) = n" "theRow i (pl_world (startPool n w)) = r"
    using assms(2) by (simp_all add: startPool_def theRow_def)
  show ?thesis
    using poolRun_claim [OF startPool_inv(1) [OF assms(1-4)] assms(6), of cfg sp]
      startPool_inv(2) [OF assms(1-4)] assms(3-5) n
    by (simp add: claimBound_def)
qed

text \<open>Two workers that take the same delivery and both send it.\<close>

definition twiceSent :: "pool_step list" where
  "twiceSent = [TakeBatch 0 (\<lambda>rs. rs) sql_ok 0, TakeBatch 1 (\<lambda>rs. rs) sql_ok 0,
     DeliverNext 0 (demoEnv acceptingServer sql_ok), DeliverNext 1 (demoEnv acceptingServer sql_ok)]"

lemma twiceSent_count: "sentCount demoWorker dlvSpool ''k'' (startPool 2 demoWorld) twiceSent = 2"
  by code_simp

text \<open>A worker that failed to send with an old copy makes a delivered delivery pending again.\<close>

lemma delivered_reset:
  "map (\<lambda>es. state (theRow ''k'' (pl_world (run (poolStep demoWorker dlvSpool) (startPool 2 demoWorld) es))))
     [take 3 twiceSent, take 3 twiceSent @ [DeliverNext 1 (demoEnv rejectingServer sql_ok)]] =
   [StateDelivered, StateTempFail]"
  by code_simp

theorem attempts_bounded_witness:
  "2 \<le> attempts (theRow ''k'' (pl_world (run (poolStep demoWorker dlvSpool) (startPool 2 demoWorld) twiceSent))) \<and>
   attempts (theRow ''k'' (pl_world (run (poolStep demoWorker dlvSpool) (startPool 2 demoWorld) twiceSent))) \<le> 5"
proof -
  have "dbInv (w_db demoWorld)" by (simp add: dbInv_def demoWorld_def)
  moreover have "list_all goodPoolStep twiceSent"
    using visits_rows_id by (simp add: twiceSent_def demoEnv_def sql_ok_def)
  ultimately show ?thesis
    using attempts_bounded [OF _ demo_row(1), of 2 twiceSent demoWorker dlvSpool] twiceSent_count
    by (simp add: demoRow_def)
qed

text \<open>C12: A delivery that was enqueued and is due is delivered by the next batch that is not full, whatever else is in
  the batch, when its message is in the spool and the recipient's server accepts it: the server gets
  exactly this message for this recipient, and the delivery is recorded as delivered.\<close>

theorem queued_delivered:
  assumes "EnqueueDelivery x i t m c n d = (None, w_db w)" "dbInv d" "unixSec t \<le> unixSec now"
    and "visits_rows ord" "\<not> sql_fails y" "length (filter (pendingRow now) (deliveries (w_db w))) \<le> 10"
    and "wc_RetrySchedule cfg \<noteq> []" "list_all (\<lambda>r. 0 \<le> attempts r) (deliveries d)"
    and "\<forall>j. acceptsMail sp (w_disk w) m c data (E j)"
  shows "\<exists>w' as h bs. processBatch cfg sp ord y now E w = Some w' \<and>
    state (theRow i w') = StateDelivered \<and>
    wire w' = wire w @ as @ \<lparr>am_addr = h, am_sender = deliverSender, am_rcpt = c, am_data = data,
      am_confirmed = True\<rparr> # bs"
proof -
  let ?d = "w_db w"
  obtain r where r: "rowAt ?d i = Some r" "msg_id r = m" "recipient r = c" "state r = StateQueued" "attempts r = 0"
    "next_attempt r = unixSec t"
    using rowAt_Enqueue(3) [OF assms(1)] by auto
  have inv: "dbInv ?d" using dbInv_Enqueue [OF assms(2), of x i t m c n] assms(1) by simp
  have "\<exists>q. attempts q = 0 \<and> deliveries ?d = deliveries d @ [q]"
    using assms(1) by (auto simp: EnqueueDelivery_def split: if_splits dest!: sym [of _ "w_db w"])
  then have at0: "0 \<le> attempts q" if "q \<in> set (deliveries ?d)" for q
    using that assms(8) by (auto simp: list_all_iff)
  obtain items where items: "GetPendingDeliveries ord y now 10 ?d = Inr items"
    using assms(5) by (simp add: GetPendingDeliveries_def)
  obtain rs where rs: "items = map rowToItem rs" "mset rs \<subseteq># mset (filter (pendingRow now) (deliveries ?d))"
    "length rs = min 10 (length (filter (pendingRow now) (deliveries ?d)))"
    using pending_Inr [OF assms(4) items] by auto
  have ms: "mset rs = mset (filter (pendingRow now) (deliveries ?d))"
    using rs(2,3) assms(6) mset_subset_size by (metis min.absorb2 less_irrefl size_mset subset_mset.le_neq_trans)
  then have set: "set rs = {q \<in> set (deliveries ?d). pendingRow now q}"
    by (metis mset_eq_setD set_filter)
  have "r \<in> set rs" "dlv_id r = i"
    using r rowAt_Some [OF inv] assms(3) by (auto simp: set pendingRow_def)
  then obtain as bs where sp: "rs = as @ r # bs" by (metis split_list)
  have "mset (map dlv_id rs) = mset (map dlv_id (filter (pendingRow now) (deliveries ?d)))"
    using ms by (metis mset_map)
  then have dist: "distinct (map dlv_id rs)"
    using inv mset_eq_imp_distinct_iff [of "map dlv_id rs"] List.distinct_map_filter unfolding dbInv_def by metis
  then have "i \<notin> dlv_id ` (set as \<union> set bs)" using \<open>dlv_id r = i\<close> by (auto simp: sp)
  then have other: "q \<in> set as \<or> q \<in> set bs \<Longrightarrow> dlv_id q \<noteq> i" for q by blast
  have nonneg: "list_all (\<lambda>it. 0 \<le> Attempts it) (map rowToItem as)" "list_all (\<lambda>it. 0 \<le> Attempts it) (map rowToItem bs)"
    using at0 set by (auto simp: list_all_iff sp)
  obtain w1 ns where w1: "processItems cfg sp E 0 (map rowToItem as) w = Some w1" "w_disk w1 = w_disk w"
    "wire w1 = wire w @ ns"
    using processItems_total [OF assms(7) nonneg(1)] by blast
  have row1: "rowAt (w_db w1) i = Some r"
    using processItems_frame [OF w1(1), of i] other r(1) by simp
  obtain w2 h where w2: "processDelivery cfg sp (E (length as)) (rowToItem r) w1 = Some w2" "w_disk w2 = w_disk w1"
    "state (theRow i w2) = StateDelivered"
    "wire w2 = wire w1 @ [\<lparr>am_addr = h, am_sender = deliverSender, am_rcpt = c, am_data = data,
      am_confirmed = True\<rparr>]"
    using processDelivery_accepted [of sp w1 "rowToItem r" data "E (length as)" r cfg] assms(9) row1 w1(2) r(2,3)
      \<open>dlv_id r = i\<close> by auto
  obtain w3 ms where w3: "processItems cfg sp E (Suc (length as)) (map rowToItem bs) w2 = Some w3" "wire w3 = wire w2 @ ms"
    using processItems_total [OF assms(7) nonneg(2)] by blast
  have "rowAt (w_db w3) i = rowAt (w_db w2) i"
    using processItems_frame [OF w3(1), of i] other by simp
  moreover have "processBatch cfg sp ord y now E w = Some w3"
    using items rs(1) w1(1) w2(1) w3(1) by (simp add: processBatch_def sp processItems_append)
  ultimately show ?thesis
    using w1(3) w2(3,4) w3(2) by (intro exI [of _ w3]) (auto simp: theRow_def)
qed

theorem queued_delivered_witness:
  "\<exists>w' as h bs. processBatch demoWorker dlvSpool (\<lambda>rs. rs) sql_ok 0 (\<lambda>_. demoEnv acceptingServer sql_ok)
       demoWorld = Some w' \<and> state (theRow ''k'' w') = StateDelivered \<and>
     wire w' = wire demoWorld @ as @ \<lparr>am_addr = h, am_sender = deliverSender, am_rcpt = ''c@d'', am_data = ''hi'',
      am_confirmed = True\<rparr> # bs"
proof (rule queued_delivered [OF _ _ _ visits_rows_id])
  show "EnqueueDelivery \<lparr>sql_fails = False, sql_fk = False\<rparr> ''k'' 0 ''m'' ''c@d'' 2 \<lparr>deliveries = [], messages = []\<rparr> =
      (None, w_db demoWorld)"
    by (simp add: EnqueueDelivery_def demoWorld_def demoRow_def unixSec_def)
  show "\<forall>j. acceptsMail dlvSpool (w_disk demoWorld) ''m'' ''c@d'' ''hi'' (demoEnv acceptingServer sql_ok)"
    using demo_read demo_lookup [of acceptingServer sql_ok]
    by (simp add: acceptsMail_def demoEnv_def acceptingServer_def sql_ok_def Let_def)
qed (simp_all add: dbInv_def sql_ok_def demoWorld_def demoWorker_def)

end
