(* ===== verification/MessageProperties.thy ===== *)
theory MessageProperties
  imports Queue
begin

text \<open>
  The properties of messages outside the spool: what the parser finds in a message, what the
  database keeps of it, and the consistency of the two tables.
\<close>

section \<open>Parsing\<close>

lemma Parse_Some:
  assumes "ReadMessage data = Some (h, body)"
  shows "\<exists>m. Parse pal pdate now data = Some m \<and> mdHeaders m = h \<and> mdSize m = int (length data) \<and>
    mdSubject m = headerGet h ''Subject'' \<and> mdMessageID m = headerGet h ''Message-ID'' \<and>
    mdFrom m = headerGet h ''From''"
  using assms by (simp add: Parse_def)

lemma headerGet_headerOf:
  "headerGet (headerOf fs []) key = (case fieldValues key fs of [] \<Rightarrow> [] | v # vs \<Rightarrow> v)"
  by (simp add: headerGet_def map_of_headerOf split: list.split)

text \<open>C13: A message that is written as fields and a body is read back as it was: the parser finds every
  value of every field, whatever the spelling of its name, the first one where it asks for one, and
  the body byte for byte. The values of the
  fields (\<open>goodField\<close>) are not folded over lines and have no blanks around them.\<close>

theorem parse_rendered:
  assumes "list_all goodField fs"
  shows "\<exists>m. Parse pal pdate now (renderMessage fs body) = Some m \<and>
    ParseBody (renderMessage fs body) = Some body \<and>
    (\<forall>key. GetHeaders m (CanonicalMIMEHeaderKey key) = fieldValues key fs) \<and>
    mdSubject m = concat (take 1 (fieldValues ''Subject'' fs)) \<and>
    mdMessageID m = concat (take 1 (fieldValues ''Message-ID'' fs)) \<and>
    mdFrom m = concat (take 1 (fieldValues ''From'' fs))"
proof -
  note rm = ReadMessage_render [OF assms, of body]
  obtain m where m: "Parse pal pdate now (renderMessage fs body) = Some m" "mdHeaders m = headerOf fs []"
    "mdSubject m = headerGet (headerOf fs []) ''Subject''" "mdFrom m = headerGet (headerOf fs []) ''From''"
    "mdMessageID m = headerGet (headerOf fs []) ''Message-ID''"
    using Parse_Some [OF rm, of pal pdate now] by blast
  have first: "headerGet (headerOf fs []) key = concat (take 1 (fieldValues key fs))" for key
    by (simp add: headerGet_headerOf split: list.split)
  have "GetHeaders m (CanonicalMIMEHeaderKey key) = fieldValues key fs" for key
    by (simp add: GetHeaders_def m(2) map_of_headerOf)
  then show ?thesis using m first by (simp add: ParseBody_def rm)
qed

theorem parse_rendered_witness:
  "\<exists>m. Parse (\<lambda>_. None) (\<lambda>_. None) \<lparr>instant = 0, zoneOffset = 0\<rparr>
      (renderMessage [(''subject'', ''hi: there''), (''message-id'', ''<a>'')] ''text'') = Some m \<and>
     mdSubject m = ''hi: there'' \<and> mdMessageID m = ''<a>''"
proof -
  have "list_all goodField [(''subject'', ''hi: there''), (''message-id'', ''<a>'')]" by code_simp
  from parse_rendered [OF this, of "\<lambda>_. None" "\<lambda>_. None" "\<lparr>instant = 0, zoneOffset = 0\<rparr>" "''text''"]
  obtain m where "Parse (\<lambda>_. None) (\<lambda>_. None) \<lparr>instant = 0, zoneOffset = 0\<rparr>
      (renderMessage [(''subject'', ''hi: there''), (''message-id'', ''<a>'')] ''text'') = Some m"
    "mdSubject m = concat (take 1 (fieldValues ''Subject'' [(''subject'', ''hi: there''), (''message-id'', ''<a>'')]))"
    "mdMessageID m = concat (take 1 (fieldValues ''Message-ID'' [(''subject'', ''hi: there''), (''message-id'', ''<a>'')]))"
    by blast
  moreover have "fieldValues ''Subject'' [(''subject'', ''hi: there''), (''message-id'', ''<a>'')] = [''hi: there'']"
    "fieldValues ''Message-ID'' [(''subject'', ''hi: there''), (''message-id'', ''<a>'')] = [''<a>'']"
    by code_simp+
  ultimately show ?thesis by simp
qed

text \<open>A header can only be asked for by the canonical spelling of its name: with any other, as
  \<open>Message-ID\<close>, \<open>GetHeader\<close> finds nothing in any message, although the parser itself does.\<close>

theorem header_spelling:
  assumes "Parse pal pdate now data = Some m" "CanonicalMIMEHeaderKey key \<noteq> key"
  shows "GetHeader m key = [] \<and> GetHeaders m key = []"
proof -
  obtain h b where "ReadMessage data = Some (h, b)" "mdHeaders m = h"
    using assms(1) by (auto simp: Parse_def split: option.splits prod.splits)
  then have "canonicalKeys (mdHeaders m)"
    using readFields_canonical [of "[]" data]
    by (auto simp: ReadMessage_def canonicalKeys_def split: if_splits prod.splits header_end.splits)
  then have "map_of (mdHeaders m) key = None"
    using assms(2) unfolding canonicalKeys_def map_of_eq_None_iff by metis
  then show ?thesis by (simp add: GetHeader_def GetHeaders_def)
qed

theorem header_spelling_witness:
  "\<exists>m. Parse (\<lambda>_. None) (\<lambda>_. None) now (renderMessage [(''Message-ID'', ''<a>'')] []) = Some m \<and>
     mdMessageID m = ''<a>'' \<and> GetHeader m ''Message-ID'' = []"
proof -
  have rm: "ReadMessage (renderMessage [(''Message-ID'', ''<a>'')] []) = Some (headerOf [(''Message-ID'', ''<a>'')] [], [])"
    by (rule ReadMessage_render) code_simp
  obtain m where m: "Parse (\<lambda>_. None) (\<lambda>_. None) now (renderMessage [(''Message-ID'', ''<a>'')] []) = Some m"
    "mdMessageID m = headerGet (headerOf [(''Message-ID'', ''<a>'')] []) ''Message-ID''"
    using Parse_Some [OF rm] by blast
  have "headerGet (headerOf [(''Message-ID'', ''<a>'')] []) ''Message-ID'' = ''<a>''" by code_simp
  moreover have "CanonicalMIMEHeaderKey ''Message-ID'' \<noteq> ''Message-ID''" by code_simp
  ultimately show ?thesis using header_spelling [OF m(1), of "''Message-ID''"] m by simp
qed

section \<open>The message in the database\<close>

lemma find_append: "find P (xs @ ys) = (case find P xs of None \<Rightarrow> find P ys | Some x \<Rightarrow> Some x)"
  by (induction xs) auto

lemma scan_messageRow:
  assumes "\<forall>rs. msgRcptTo m = Some rs \<longrightarrow> list_all validUTF8 rs"
  shows "scanMessage (messageRow m) = Inr (m\<lparr>msgCreatedAt := timeUnix (unixSec (msgCreatedAt m))\<rparr>)"
  using Unmarshal_Marshal [OF assms] by (simp add: scanMessage_def messageRow_def nullString_def)

text \<open>C23: A message that was added is found under its identifier with all of its fields, the recipients
  through their text in JSON, the time cut to seconds; every other message is found as before, and
  the deliveries are the same.\<close>

theorem message_roundtrip:
  assumes "AddMessage x m d = (None, d')" "\<not> sql_fails y"
    and "case msgRcptTo m of None \<Rightarrow> True | Some rs \<Rightarrow> list_all validUTF8 rs"
  shows "GetMessage y (msgKey m) d' = Inr (m\<lparr>msgCreatedAt := timeUnix (unixSec (msgCreatedAt m))\<rparr>) \<and>
    (\<forall>i. i \<noteq> msgKey m \<longrightarrow> GetMessage y i d' = GetMessage y i d) \<and> deliveries d' = deliveries d"
proof -
  have d': "d' = d\<lparr>messages := messages d @ [messageRow m]\<rparr>" "msgKey m \<notin> set (messageIDs d)"
    using assms(1) by (auto simp: AddMessage_def split: if_splits)
  have key: "row_msg_id (messageRow m) = msgKey m" by (simp add: messageRow_def)
  have none: "find (\<lambda>r. row_msg_id r = msgKey m) (messages d) = None"
    using d'(2) by (force simp: find_None_iff)
  have "scanMessage (messageRow m) = Inr (m\<lparr>msgCreatedAt := timeUnix (unixSec (msgCreatedAt m))\<rparr>)"
    using assms(3) by (intro scan_messageRow) auto
  then show ?thesis
    using assms(2) none by (auto simp: GetMessage_def d'(1) find_append key split: option.split)
qed

definition demoMessage :: Message where
  "demoMessage =
     ConvertMetadataToMessage 1500000000 ''m'' ''s'' ''u'' ''10.0.0.1'' ''a@b'' (Some [''c@d'', ''<\"e\">@f''])
       \<lparr>mdMessageID = ''<a>'', mdFrom = ''a@b'', mdTo = [''c@d''], mdCc = [], mdBcc = [], mdSubject = ''hi'',
        mdDate = \<lparr>instant = 0, zoneOffset = 0\<rparr>, mdContentType = [], mdSize = 9, mdHeaders = []\<rparr> ''00''"

theorem message_roundtrip_witness:
  "\<exists>d'. AddMessage sql_ok demoMessage \<lparr>deliveries = [], messages = []\<rparr> = (None, d') \<and>
     GetMessage sql_ok ''m'' d' = Inr (demoMessage\<lparr>msgCreatedAt := 1000000000\<rparr>)"
proof -
  obtain d' where d': "AddMessage sql_ok demoMessage \<lparr>deliveries = [], messages = []\<rparr> = (None, d')"
    by (simp add: AddMessage_def sql_ok_def)
  have "case msgRcptTo demoMessage of None \<Rightarrow> True | Some rs \<Rightarrow> list_all validUTF8 rs" by code_simp
  from message_roundtrip [OF d' _ this, of sql_ok]
  show ?thesis using d' by (simp add: demoMessage_def ConvertMetadataToMessage_def sql_ok_def timeUnix_def unixSec_def)
qed

section \<open>The two tables\<close>

text \<open>
  What the program does to the database, in any order; each call can fail and is on a connection that
  checks foreign keys or on one that does not.
\<close>

datatype queue_event =
    AddsMessage sql_call Message
  | Enqueues sql_call string time string string int
  | Updates sql_call time string delivery_update
  | SetsStage sql_call string string

fun queueStep :: "Db \<Rightarrow> queue_event \<Rightarrow> Db" where
  "queueStep d (AddsMessage x m) = snd (AddMessage x m d)"
| "queueStep d (Enqueues x i t m r n) = snd (EnqueueDelivery x i t m r n d)"
| "queueStep d (Updates x t i u) = snd (UpdateDeliveryState x t i u d)"
| "queueStep d (SetsStage x i st) = snd (UpdateMessageStage x i st d)"

definition queueInv :: "Db \<Rightarrow> bool" where
  "queueInv d \<longleftrightarrow> dbInv d \<and> distinct (messageIDs d)"

lemma map_row_msg_id_stage:
  "map row_msg_id (map (\<lambda>r. if row_msg_id r = i then r\<lparr>row_current_stage := st\<rparr> else r) rs) = map row_msg_id rs"
  by (induction rs) auto

lemma queueStep_inv: "queueInv d \<Longrightarrow> queueInv (queueStep d e)"
proof (cases e)
  case (Updates x t i u)
  assume inv: "queueInv d"
  have "messages (queueStep d e) = messages d" unfolding Updates by (simp add: UpdateDeliveryState_def)
  moreover have "dbInv (queueStep d e)" using inv dbInv_Update unfolding Updates by (simp add: queueInv_def)
  ultimately show ?thesis using inv by (simp add: queueInv_def)
next
  case (SetsStage x i st)
  assume inv: "queueInv d"
  have "messageIDs (queueStep d e) = messageIDs d" "deliveries (queueStep d e) = deliveries d"
    unfolding SetsStage using map_row_msg_id_stage [of i st "messages d"]
    by (simp_all add: UpdateMessageStage_def del: map_map)
  then show ?thesis using inv by (simp add: queueInv_def dbInv_def del: set_map)
qed (auto simp: queueInv_def dbInv_def AddMessage_def EnqueueDelivery_def messageRow_def)

interpretation queue_machine: event_system "\<lambda>d. d = \<lparr>deliveries = [], messages = []\<rparr>" queueStep queueInv
  by unfold_locales (simp_all add: queueInv_def dbInv_def,
    use queueStep_inv in \<open>simp add: queueInv_def dbInv_def\<close>)

text \<open>The updates of a delivery that were made, with their times.\<close>

fun updatesOf :: "string \<Rightarrow> queue_event list \<Rightarrow> (time \<times> delivery_update) list" where
  "updatesOf i (Updates x t j u # es) = (if j = i \<and> \<not> sql_fails x then (t, u) # updatesOf i es else updatesOf i es)"
| "updatesOf i (e # es) = updatesOf i es"
| "updatesOf i [] = []"

lemma updatesOf_append [simp]: "updatesOf i (xs @ ys) = updatesOf i xs @ updatesOf i ys"
  by (induction i xs rule: updatesOf.induct) auto

lemma queueStep_row:
  assumes "rowAt d i = Some r"
  shows "rowAt (queueStep d e) i =
    Some (fold (\<lambda>(t, u). updateRow t u) (updatesOf i [e]) r)"
proof (cases e)
  case (Enqueues x j t m c n)
  obtain err d' where q: "EnqueueDelivery x j t m c n d = (err, d')" by fastforce
  show ?thesis
  proof (cases err)
    case None
    then have "j \<noteq> i" "rowAt d' i = rowAt d i"
      using rowAt_Enqueue(1,2) [of x j t m c n d d'] q assms by (cases "j = i", auto)+
    then show ?thesis using assms q Enqueues by simp
  next
    case (Some y)
    then show ?thesis using assms q Enqueues by (auto simp: EnqueueDelivery_def split: if_splits)
  qed
next
  case (Updates x t j u)
  then show ?thesis
    using assms rowAt_Update [of x t j u d "snd (UpdateDeliveryState x t j u d)" i]
    by (cases "sql_fails x") (auto simp: UpdateDeliveryState_def)
qed (use assms in \<open>simp_all add: rowAt_def AddMessage_def UpdateMessageStage_def\<close>)

lemma run_row:
  "rowAt d i = Some r \<Longrightarrow>
     rowAt (run queueStep d es) i = Some (fold (\<lambda>(t, u). updateRow t u) (updatesOf i es) r)"
proof (induction es arbitrary: d r)
  case (Cons e es)
  have "updatesOf i (e # es) = updatesOf i [e] @ updatesOf i es" using updatesOf_append [of i "[e]" es] by simp
  then show ?case using Cons.IH [OF queueStep_row [OF Cons.prems, of e]] by simp
qed simp

lemma fold_updateRow:
  "dlv_id (fold (\<lambda>(t, u). updateRow t u) us r) = dlv_id r \<and> msg_id (fold (\<lambda>(t, u). updateRow t u) us r) = msg_id r \<and>
   recipient (fold (\<lambda>(t, u). updateRow t u) us r) = recipient r \<and>
   max_attempts (fold (\<lambda>(t, u). updateRow t u) us r) = max_attempts r \<and>
   created_at (fold (\<lambda>(t, u). updateRow t u) us r) = created_at r \<and>
   attempts (fold (\<lambda>(t, u). updateRow t u) us r) = attempts r + int (length us)"
  by (induction us arbitrary: r) (auto simp: updateRow_def)

lemma fold_updateRow_last:
  "us \<noteq> [] \<Longrightarrow> (case last us of (t', u) \<Rightarrow>
     state (fold (\<lambda>(t, u). updateRow t u) us r) = u_state u \<and>
     next_attempt (fold (\<lambda>(t, u). updateRow t u) us r) = unixSec (u_next u) \<and>
     mx_hostname (fold (\<lambda>(t, u). updateRow t u) us r) = Some (u_mxHostname u) \<and>
     last_error (fold (\<lambda>(t, u). updateRow t u) us r) = Some (u_error u) \<and>
     delivered_at (fold (\<lambda>(t, u). updateRow t u) us r) = (if u_state u = StateDelivered then Some (unixSec t') else None))"
  by (cases us rule: rev_cases) (auto simp: updateRow_def)

text \<open>C24: What the row of a delivery says is what was done to it. After it was enqueued, whatever is done to the
  two tables in any order, with any failing calls and on any connections: it is in the table, for the message
  and the recipient it was enqueued for; its attempts are the updates that were made of it and no others,
  and its state, next time, server and error are those of the last one, or queued, due when it was enqueued,
  and none; and it has a time of delivery exactly when the last update delivered it, the time of that
  update.\<close>

theorem queue_history:
  assumes "EnqueueDelivery x i t m c n d = (None, d')"
  shows "case rowAt (run queueStep d' es) i of
      None \<Rightarrow> False
    | Some r \<Rightarrow>
        msg_id r = m \<and> recipient r = c \<and> max_attempts r = n \<and> created_at r = unixSec t \<and>
        attempts r = int (length (updatesOf i es)) \<and>
        (if updatesOf i es = [] then
           state r = StateQueued \<and> next_attempt r = unixSec t \<and> mx_hostname r = None \<and> last_error r = None \<and>
           delivered_at r = None
         else
           (case last (updatesOf i es) of (t', u) \<Rightarrow>
              state r = u_state u \<and> next_attempt r = unixSec (u_next u) \<and> mx_hostname r = Some (u_mxHostname u) \<and>
              last_error r = Some (u_error u) \<and>
              delivered_at r = (if u_state u = StateDelivered then Some (unixSec t') else None)))"
proof -
  obtain r0 where r0: "rowAt d' i = Some r0" "msg_id r0 = m" "recipient r0 = c" "state r0 = StateQueued"
    "attempts r0 = 0" "max_attempts r0 = n" "next_attempt r0 = unixSec t" "created_at r0 = unixSec t"
    "mx_hostname r0 = None" "last_error r0 = None" "delivered_at r0 = None"
    using rowAt_Enqueue_fresh [OF assms] by blast
  then show ?thesis
    using run_row [OF r0(1), of es] fold_updateRow [of "updatesOf i es" r0]
      fold_updateRow_last [of "updatesOf i es" r0]
    by (cases "updatesOf i es = []") (auto split: prod.splits)
qed

theorem queue_history_witness:
  "case rowAt (run queueStep \<lparr>deliveries = [], messages = []\<rparr>
      [AddsMessage sql_ok demoMessage, Enqueues sql_ok ''k'' 5 ''m'' ''c@d'' 3,
       Updates sql_ok 7 ''k'' \<lparr>u_state = StateTempFail, u_mxHostname = ''h'', u_mxIP = [], u_error = ''e'',
         u_code = 0, u_message = [], u_next = 9\<rparr>,
       Updates (sql_ok\<lparr>sql_fails := True\<rparr>) 8 ''k'' \<lparr>u_state = StateDelivered, u_mxHostname = [], u_mxIP = [],
         u_error = [], u_code = 0, u_message = [], u_next = 0\<rparr>]) ''k'' of
     None \<Rightarrow> False | Some r \<Rightarrow> msg_id r = ''m'' \<and> attempts r = 1 \<and> state r = StateTempFail"
proof -
  let ?d = "snd (AddMessage sql_ok demoMessage \<lparr>deliveries = [], messages = []\<rparr>)"
  have "msgKey demoMessage = ''m''" by (simp add: demoMessage_def ConvertMetadataToMessage_def)
  then obtain d' where d': "EnqueueDelivery sql_ok ''k'' 5 ''m'' ''c@d'' 3 ?d = (None, d')"
    by (simp add: AddMessage_def EnqueueDelivery_def sql_ok_def messageRow_def)
  let ?es = "[Updates sql_ok 7 ''k'' \<lparr>u_state = StateTempFail, u_mxHostname = ''h'', u_mxIP = [], u_error = ''e'',
         u_code = 0, u_message = [], u_next = 9\<rparr>,
       Updates (sql_ok\<lparr>sql_fails := True\<rparr>) 8 ''k'' \<lparr>u_state = StateDelivered, u_mxHostname = [], u_mxIP = [],
         u_error = [], u_code = 0, u_message = [], u_next = 0\<rparr>]"
  have "updatesOf ''k'' ?es = [(7, \<lparr>u_state = StateTempFail, u_mxHostname = ''h'', u_mxIP = [], u_error = ''e'',
         u_code = 0, u_message = [], u_next = 9\<rparr>)]"
    by (simp add: sql_ok_def)
  with queue_history [OF d', of ?es] show ?thesis using d' by (simp split: option.splits)
qed

text \<open>The statistics count every delivery once.\<close>

lemma stats_total:
  assumes "GetQueueStats x d = Inr st"
  shows "sum_list (map (\<lambda>s. case st (deliveryStateName s) of None \<Rightarrow> 0 | Some n \<Rightarrow> n)
    [StateQueued, StateDelivering, StateDelivered, StateTempFail, StatePermFail]) = length (deliveries d)"
proof -
  have inj: "deliveryStateName a = deliveryStateName b \<longleftrightarrow> a = b" for a b by (cases a; cases b) auto
  have st: "(case st (deliveryStateName s) of None \<Rightarrow> 0 | Some n \<Rightarrow> n) =
      length (filter (\<lambda>r. state r = s) (deliveries d))" for s
    using assms inj by (auto simp: GetQueueStats_def Let_def split: if_splits)
  have "sum_list (map (\<lambda>s. length (filter (\<lambda>r. state r = s) rs))
      [StateQueued, StateDelivering, StateDelivered, StateTempFail, StatePermFail]) = length rs" for rs
  proof (induction rs)
    case (Cons r rs)
    then show ?case by (cases "state r") simp_all
  qed simp
  then show ?thesis unfolding st .
qed

end
