(* ===== verification/GoSha256.thy ===== *)
theory GoSha256
  imports GoHex "HOL-Library.Word"
begin

unbundle bit_operations_syntax

text \<open>
  What \<open>internal/dedup/dedup.go\<close> uses of \<open>crypto/sha256\<close> and \<open>encoding/hex\<close>: \<open>Sum256\<close> (FIPS 180-4) and
  \<open>EncodeToString\<close>.
\<close>

type_synonym w32 = "32 word"

definition shaK :: "w32 list" where
  "shaK =
     [0x428A2F98, 0x71374491, 0xB5C0FBCF, 0xE9B5DBA5, 0x3956C25B, 0x59F111F1, 0x923F82A4,
      0xAB1C5ED5, 0xD807AA98, 0x12835B01, 0x243185BE, 0x550C7DC3, 0x72BE5D74, 0x80DEB1FE,
      0x9BDC06A7, 0xC19BF174, 0xE49B69C1, 0xEFBE4786, 0x0FC19DC6, 0x240CA1CC, 0x2DE92C6F,
      0x4A7484AA, 0x5CB0A9DC, 0x76F988DA, 0x983E5152, 0xA831C66D, 0xB00327C8, 0xBF597FC7,
      0xC6E00BF3, 0xD5A79147, 0x06CA6351, 0x14292967, 0x27B70A85, 0x2E1B2138, 0x4D2C6DFC,
      0x53380D13, 0x650A7354, 0x766A0ABB, 0x81C2C92E, 0x92722C85, 0xA2BFE8A1, 0xA81A664B,
      0xC24B8B70, 0xC76C51A3, 0xD192E819, 0xD6990624, 0xF40E3585, 0x106AA070, 0x19A4C116,
      0x1E376C08, 0x2748774C, 0x34B0BCB5, 0x391C0CB3, 0x4ED8AA4A, 0x5B9CCA4F, 0x682E6FF3,
      0x748F82EE, 0x78A5636F, 0x84C87814, 0x8CC70208, 0x90BEFFFA, 0xA4506CEB, 0xBEF9A3F7,
      0xC67178F2]"

definition shaInit :: "w32 list" where
  "shaInit =
     [0x6A09E667, 0xBB67AE85, 0x3C6EF372, 0xA54FF53A, 0x510E527F, 0x9B05688C, 0x1F83D9AB,
      0x5BE0CD19]"

definition smallSigma0 :: "w32 \<Rightarrow> w32" where
  "smallSigma0 x = word_rotr 7 x XOR word_rotr 18 x XOR drop_bit 3 x"

definition smallSigma1 :: "w32 \<Rightarrow> w32" where
  "smallSigma1 x = word_rotr 17 x XOR word_rotr 19 x XOR drop_bit 10 x"

definition bigSigma0 :: "w32 \<Rightarrow> w32" where
  "bigSigma0 x = word_rotr 2 x XOR word_rotr 13 x XOR word_rotr 22 x"

definition bigSigma1 :: "w32 \<Rightarrow> w32" where
  "bigSigma1 x = word_rotr 6 x XOR word_rotr 11 x XOR word_rotr 25 x"

text \<open>The padding: a one bit, zeros, and the number of bits in 64 bits, most significant byte first.\<close>

definition shaPad :: "8 word list \<Rightarrow> 8 word list" where
  "shaPad bs =
     (let n = length bs; z = (119 - n mod 64) mod 64; bits = 8 * of_nat n :: 64 word
      in bs @ [0x80] @ replicate z 0 @
         map (\<lambda>k. ucast (drop_bit k bits)) [56, 48, 40, 32, 24, 16, 8, 0])"

fun shaWords :: "8 word list \<Rightarrow> w32 list" where
  "shaWords (a # b # c # d # r) =
     (push_bit 24 (ucast a) OR push_bit 16 (ucast b) OR push_bit 8 (ucast c) OR ucast d) # shaWords r"
| "shaWords _ = []"

text \<open>The schedule of a block of 16 words: \<open>n\<close> more words; the list is kept with the last word first.\<close>

fun shaExtend :: "nat \<Rightarrow> w32 list \<Rightarrow> w32 list" where
  "shaExtend 0 ws = ws"
| "shaExtend (Suc n) ws =
     shaExtend n ((smallSigma1 (ws ! 1) + ws ! 6 + smallSigma0 (ws ! 14) + ws ! 15) # ws)"

fun shaRound :: "w32 list \<Rightarrow> w32 \<times> w32 \<Rightarrow> w32 list" where
  "shaRound [a, b, c, d, e, f, g, h] (k, w) =
     (let t1 = h + bigSigma1 e + ((e AND f) XOR (NOT e AND g)) + k + w;
          t2 = bigSigma0 a + ((a AND b) XOR (a AND c) XOR (b AND c))
      in [t1 + t2, a, b, c, d + t1, e, f, g])"
| "shaRound s kw = s"

definition shaBlock :: "w32 list \<Rightarrow> w32 list \<Rightarrow> w32 list" where
  "shaBlock hs blk =
     map2 (+) hs (foldl shaRound hs (zip shaK (rev (shaExtend 48 (rev blk)))))"

function shaBlocks :: "w32 list \<Rightarrow> w32 list \<Rightarrow> w32 list" where
  "shaBlocks hs ws = (if ws = [] then hs else shaBlocks (shaBlock hs (take 16 ws)) (drop 16 ws))"
  by pat_completeness auto
termination by (relation "measure (\<lambda>(hs, ws). length ws)") auto

declare shaBlocks.simps [simp del]

definition byteOf :: "char \<Rightarrow> 8 word" where
  "byteOf c = of_nat (of_char c)"

definition Sum256 :: "bytes \<Rightarrow> w32 list" where
  "Sum256 body = shaBlocks shaInit (shaWords (shaPad (map byteOf body)))"

text \<open>Eight hexadecimal digits for each of the eight words.\<close>

definition hexWord :: "w32 \<Rightarrow> string" where
  "hexWord w = map (\<lambda>k. hexDigit (unat (drop_bit k w AND 0xF))) [28, 24, 20, 16, 12, 8, 4, 0]"

definition sha256Hex :: "bytes \<Rightarrow> string" where
  "sha256Hex body = concat (map hexWord (Sum256 body))"

end
