(* ===== verification/Dedup.thy ===== *)
theory Dedup
  imports RedisClient GoSha256
begin

text \<open>
  \<open>internal/dedup/dedup.go\<close>: recognising a message that was sent before by the hash of its body, kept
  in Redis for the length of a window. Logging is left out.
\<close>

section \<open>Operations\<close>

record Deduplicator =
  dd_window :: duration
  dd_enabled :: bool

definition NewDeduplicator :: "duration \<Rightarrow> bool \<Rightarrow> Deduplicator" where
  "NewDeduplicator window enabled = \<lparr>dd_window = window, dd_enabled = enabled\<rparr>"

datatype dedup_error = DeletingEntry | GettingStats

definition hashMessage :: "bytes \<Rightarrow> string" where
  "hashMessage body = sha256Hex body"

definition dedupKey :: "string \<Rightarrow> string" where
  "dedupKey hash = ''dedup:'' @ hash"

text \<open>The original identifier, whether the message is a duplicate, and the error.\<close>

type_synonym dedup_result = "string \<times> bool \<times> dedup_error option"

text \<open>The command that stores the identifier of a message that is not known.\<close>

definition storeHash ::
  "'r redis \<Rightarrow> Deduplicator \<Rightarrow> string \<Rightarrow> string \<Rightarrow> ('r, 'z) world_scheme \<Rightarrow>
   dedup_result \<times> ('r, 'z) world_scheme" where
  "storeHash R D key i w =
     (case redis1 R (CSet key i (dd_window D)) (rds w) of
        (ROk, r') \<Rightarrow> (([], False, None), record_metric (RecordDedupCheck False) (set_rds r' w))
      | (_, r') \<Rightarrow> (([], False, None), set_rds r' w))"

definition Check ::
  "'r redis \<Rightarrow> Deduplicator \<Rightarrow> string \<Rightarrow> bytes \<Rightarrow> ('r, 'z) world_scheme \<Rightarrow>
   dedup_result \<times> ('r, 'z) world_scheme" where
  "Check R D i body w =
     (if \<not> dd_enabled D then (([], False, None), w)
      else
        (let key = dedupKey (hashMessage body)
         in case redis1 R (CGet key) (rds w) of
              (RNil, r') \<Rightarrow> storeHash R D key i (set_rds r' w)
            | (RStr orig, r') \<Rightarrow>
                ((orig, True, None), record_metric (RecordDedupCheck True) (set_rds r' w))
            | (_, r') \<Rightarrow> (([], False, None), set_rds r' w)))"

text \<open>Deleting an entry that does not exist is no error.\<close>

definition Delete ::
  "'r redis \<Rightarrow> Deduplicator \<Rightarrow> string \<Rightarrow> ('r, 'z) world_scheme \<Rightarrow>
   dedup_error option \<times> ('r, 'z) world_scheme" where
  "Delete R D hash w =
     (if \<not> dd_enabled D then (None, w)
      else
        (case redis1 R (CDel [dedupKey hash]) (rds w) of
           (RErr e, r') \<Rightarrow> (Some DeletingEntry, set_rds r' w)
         | (_, r') \<Rightarrow> (None, set_rds r' w)))"

definition Stats ::
  "'r redis \<Rightarrow> Deduplicator \<Rightarrow> ('r, 'z) world_scheme \<Rightarrow>
   (dedup_error + nat) \<times> ('r, 'z) world_scheme" where
  "Stats R D w =
     (if \<not> dd_enabled D then (Inr 0, w)
      else
        (case redis1 R (CKeys (dedupKey ''*'')) (rds w) of
           (RStrs ks, r') \<Rightarrow> (Inr (length ks), set_rds r' w)
         | (_, r') \<Rightarrow> (Inl GettingStats, set_rds r' w)))"

section \<open>Checks in a row\<close>

fun checkAll ::
  "'r redis \<Rightarrow> Deduplicator \<Rightarrow> (string \<times> bytes) list \<Rightarrow> ('r, 'z) world_scheme \<Rightarrow>
   dedup_result list \<times> ('r, 'z) world_scheme" where
  "checkAll R D [] w = ([], w)"
| "checkAll R D ((i, body) # ms) w =
     (case Check R D i body w of
        (x, w1) \<Rightarrow> (case checkAll R D ms w1 of (xs, w2) \<Rightarrow> (x # xs, w2)))"

text \<open>
  What they promise: the bodies seen so far with the identifier each was first sent under, and the
  answers that follow from them.
\<close>

fun dedupSpec :: "(bytes \<times> string) list \<Rightarrow> (string \<times> bytes) list \<Rightarrow> dedup_result list" where
  "dedupSpec seen [] = []"
| "dedupSpec seen ((i, body) # ms) =
     (case map_of seen body of
        Some j \<Rightarrow> (j, True, None) # dedupSpec seen ms
      | None \<Rightarrow> ([], False, None) # dedupSpec ((body, i) # seen) ms)"

text \<open>Redis holds what has been seen of the bodies \<open>B\<close>.\<close>

definition dedupAbs ::
  "('r \<Rightarrow> string \<Rightarrow> string option) \<Rightarrow> bytes set \<Rightarrow> (bytes \<times> string) list \<Rightarrow> 'r \<Rightarrow> bool" where
  "dedupAbs look B seen r \<longleftrightarrow> (\<forall>b \<in> B. look r (dedupKey (hashMessage b)) = map_of seen b)"

lemma dedupKey_inj [simp]: "dedupKey a = dedupKey b \<longleftrightarrow> a = b"
  by (simp add: dedupKey_def)

lemma redis_stores_get:
  assumes "redis_stores R look"
  obtains r' where "redis1 R (CGet k) r = (case look r k of None \<Rightarrow> RNil | Some v \<Rightarrow> RStr v, r')" "look r' = look r"
proof -
  have "fst (redis1 R (CGet k) r) = (case look r k of None \<Rightarrow> RNil | Some v \<Rightarrow> RStr v) \<and>
      look (snd (redis1 R (CGet k) r)) = look r"
    using assms unfolding redis_stores_def by blast
  then show ?thesis using that by (cases "redis1 R (CGet k) r") auto
qed

lemma redis_stores_set:
  assumes "redis_stores R look"
  obtains r' where "redis1 R (CSet k v d) r = (ROk, r')" "look r' = (look r)(k \<mapsto> v)"
proof -
  have "fst (redis1 R (CSet k v d) r) = ROk \<and> look (snd (redis1 R (CSet k v d) r)) = (look r)(k \<mapsto> v)"
    using assms unfolding redis_stores_def by blast
  then show ?thesis using that by (cases "redis1 R (CSet k v d) r") auto
qed

lemma Check_refines:
  assumes "redis_stores R look" "dd_enabled D" "inj_on hashMessage B" "body \<in> B"
    and "dedupAbs look B seen (rds w)"
  shows "fst (Check R D i body w) = hd (dedupSpec seen [(i, body)])"
    and "dedupAbs look B (if map_of seen body = None then (body, i) # seen else seen) (rds (snd (Check R D i body w)))"
    and "mets (snd (Check R D i body w)) = RecordDedupCheck (map_of seen body \<noteq> None) (mets w)"
proof -
  let ?k = "dedupKey (hashMessage body)"
  obtain r' where g: "redis1 R (CGet ?k) (rds w) = (case look (rds w) ?k of None \<Rightarrow> RNil | Some v \<Rightarrow> RStr v, r')"
    "look r' = look (rds w)"
    by (rule redis_stores_get [OF assms(1)])
  obtain r2 where s: "redis1 R (CSet ?k i (dd_window D)) r' = (ROk, r2)" "look r2 = (look r')(?k \<mapsto> i)"
    by (rule redis_stores_set [OF assms(1)])
  have lk: "look (rds w) ?k = map_of seen body" using assms(4,5) by (simp add: dedupAbs_def)
  have inj: "hashMessage b = hashMessage body \<longleftrightarrow> b = body" if "b \<in> B" for b
    using assms(3,4) that by (auto dest: inj_onD)
  show "fst (Check R D i body w) = hd (dedupSpec seen [(i, body)])"
    and "dedupAbs look B (if map_of seen body = None then (body, i) # seen else seen) (rds (snd (Check R D i body w)))"
    and "mets (snd (Check R D i body w)) = RecordDedupCheck (map_of seen body \<noteq> None) (mets w)"
    using assms(2,5) g s lk inj
    by (auto simp: Check_def storeHash_def Let_def dedupAbs_def split: option.splits)
qed

lemma checkAll_refines:
  "redis_stores R look \<Longrightarrow> dd_enabled D \<Longrightarrow> inj_on hashMessage B \<Longrightarrow> snd ` set ms \<subseteq> B \<Longrightarrow>
     dedupAbs look B seen (rds w) \<Longrightarrow> fst (checkAll R D ms w) = dedupSpec seen ms"
proof (induction ms arbitrary: seen w)
  case (Cons m ms)
  obtain i body where m: "m = (i, body)" by (cases m)
  obtain x w1 where c: "Check R D i body w = (x, w1)" by (cases "Check R D i body w")
  have "body \<in> B" using Cons.prems(4) m by simp
  note ref = Check_refines [OF Cons.prems(1-3) this Cons.prems(5), of i, unfolded c]
  have "fst (checkAll R D ms w1) = dedupSpec (if map_of seen body = None then (body, i) # seen else seen) ms"
    using Cons.IH [OF Cons.prems(1-3) _ ref(2)] Cons.prems(4) by simp
  then show ?case using ref(1) m c by (auto split: prod.splits option.splits)
qed simp

lemma dedupAbs_empty: "(\<forall>b \<in> B. look r (dedupKey (hashMessage b)) = None) \<Longrightarrow> dedupAbs look B [] r"
  by (simp add: dedupAbs_def)

section \<open>Properties\<close>

text \<open>C15: With a Redis that stores, and no two of the bodies with the same hash, messages checked one after
  the other within the window are answered as the specification says: a body that was seen before is
  a duplicate of the first message with it, any other is unique.\<close>

theorem dedup_exact:
  assumes "redis_stores R look" "dd_enabled D" "inj_on hashMessage (snd ` set ms)"
    and "\<forall>b \<in> snd ` set ms. look (rds w) (dedupKey (hashMessage b)) = None"
  shows "fst (checkAll R D ms w) = dedupSpec [] ms"
  using checkAll_refines [OF assms(1-3) order_refl dedupAbs_empty] assms(4) by blast

theorem dedup_exact_witness:
  "fst (checkAll memRedis (NewDeduplicator Hour True) [(''a'', ''hello''), (''b'', ''hello''), (''c'', ''hello'')]
      \<lparr>rds = [], mets = []\<rparr>) =
    [([], False, None), (''a'', True, None), (''a'', True, None)]"
proof -
  have "fst (checkAll memRedis (NewDeduplicator Hour True) [(''a'', ''hello''), (''b'', ''hello''), (''c'', ''hello'')]
      \<lparr>rds = [], mets = []\<rparr>) = dedupSpec [] [(''a'', ''hello''), (''b'', ''hello''), (''c'', ''hello'')]"
    by (rule dedup_exact [OF redis_stores_memRedis]) (simp_all add: NewDeduplicator_def)
  then show ?thesis by simp
qed

text \<open>The check never stops a message: it gives no error, whatever Redis answers, and a message is only
  called a duplicate when Redis gives the identifier of the original.\<close>

theorem dedup_fail_open:
  "case Check R D i body w of
     ((orig, dup, err), w') \<Rightarrow> err = None \<and>
       (dup \<longleftrightarrow> dd_enabled D \<and> fst (redis1 R (CGet (dedupKey (hashMessage body))) (rds w)) = RStr orig)"
  by (auto simp: Check_def storeHash_def Let_def split: prod.splits reply.splits)

text \<open>Two checks of the same body at the same time: each asks Redis before the other has stored its hash,
  and both messages are called unique.\<close>

lemma dedup_race:
  assumes "redis_stores R look" "look r (dedupKey (hashMessage body)) = None"
  obtains r1 r2 where "redis1 R (CGet (dedupKey (hashMessage body))) r = (RNil, r1)"
    "redis1 R (CGet (dedupKey (hashMessage body))) r1 = (RNil, r2)"
    "fst (storeHash R D (dedupKey (hashMessage body)) i \<lparr>rds = r2, mets = ms\<rparr>) = ([], False, None)"
    "fst (storeHash R D (dedupKey (hashMessage body)) j
       (snd (storeHash R D (dedupKey (hashMessage body)) i \<lparr>rds = r2, mets = ms\<rparr>))) = ([], False, None)"
proof -
  let ?k = "dedupKey (hashMessage body)"
  obtain r1 where r1: "redis1 R (CGet ?k) r = (RNil, r1)" "look r1 = look r"
    using redis_stores_get [OF assms(1), of ?k r] assms(2) by auto
  obtain r2 where r2: "redis1 R (CGet ?k) r1 = (RNil, r2)"
    using redis_stores_get [OF assms(1), of ?k r1] assms(2) r1(2) by auto
  have "fst (storeHash R D k x v) = ([], False, None)" for k x and v :: "'a world"
    by (simp add: storeHash_def split: prod.split reply.split)
  then show ?thesis using that r1 r2 by blast
qed

end
