(* ===== verification/TlsMgr.thy ===== *)
theory TlsMgr
  imports FileSystem GoMail "HOL-Library.Word"
begin

unbundle bit_operations_syntax

text \<open>
  \<open>internal/tlsmgr/manager.go\<close>: the certificates of the TLS listeners, by domain, and their reload when
  a file changes. Cryptography is a parameter: loading a certificate with its key from the bytes of a
  file, decoding the next PEM block of some bytes, and parsing a certificate. \<open>'c\<close> is a loaded
  certificate. The watcher of fsnotify is seen through the events it delivers. \<open>strings.ToLower\<close> is
  that of ASCII letters. Logging is left out.
\<close>

section \<open>State\<close>

record pem_block =
  pemType :: string
  pemBytes :: bytes

record x509 =
  CommonName :: string
  DNSNames :: "string list"

record 'c crypto =
  cr_keyPair :: "bytes \<Rightarrow> 'c option"
  cr_pem :: "bytes \<Rightarrow> (pem_block \<times> bytes) option"
  cr_parse :: "bytes \<Rightarrow> x509 option"

record 'c Manager =
  certsDir :: path
  certs :: "(string \<times> 'c) list"
  minVersion :: "16 word"
  stopClosed :: bool

datatype tls_error =
    CreateWatcher | ReadCertsDir errno | NoValidCertificates path | WatchCertsDir | CloseWatcher
  | ReadCertificate errno | NoCertificateBlock | ParsingCertificate | NoCertificatesAvailable

section \<open>Loading\<close>

text \<open>
  The first block of type \<open>CERTIFICATE\<close>: \<open>Some None\<close> when there is none, \<open>None\<close> when the loop does not end.
\<close>

partial_function (option) findCertificate ::
  "(bytes \<Rightarrow> (pem_block \<times> bytes) option) \<Rightarrow> bytes \<Rightarrow> pem_block option option" where
  "findCertificate dec data =
     (case dec data of
        None \<Rightarrow> Some None
      | Some (b, rest) \<Rightarrow>
          if pemType b = ''CERTIFICATE'' then Some (Some b) else findCertificate dec rest)"

definition certDomains :: "x509 \<Rightarrow> string list" where
  "certDomains x =
     (if CommonName x \<noteq> [] \<and> CommonName x \<noteq> ''*'' then [CommonName x] else []) @ DNSNames x"

definition extractDomainsFromCert ::
  "os_faults \<Rightarrow> 'c crypto \<Rightarrow> path \<Rightarrow> fs \<Rightarrow> (tls_error + string list) option" where
  "extractDomainsFromCert F C p s =
     (case readFile F p s of
        Inl e \<Rightarrow> Some (Inl (ReadCertificate e))
      | Inr certData \<Rightarrow>
          (case findCertificate (cr_pem C) certData of
             None \<Rightarrow> None
           | Some None \<Rightarrow> Some (Inl NoCertificateBlock)
           | Some (Some b) \<Rightarrow>
               (case cr_parse C (pemBytes b) of
                  None \<Rightarrow> Some (Inl ParsingCertificate)
                | Some x \<Rightarrow> Some (Inr (certDomains x)))))"

definition loadKeyPair :: "os_faults \<Rightarrow> 'c crypto \<Rightarrow> path \<Rightarrow> fs \<Rightarrow> 'c option" where
  "loadKeyPair F C p s = (case readFile F p s of Inl e \<Rightarrow> None | Inr d \<Rightarrow> cr_keyPair C d)"

text \<open>What one entry of the directory gives: \<open>Some None\<close> when it is passed over.\<close>

definition loadEntry ::
  "os_faults \<Rightarrow> 'c crypto \<Rightarrow> path \<Rightarrow> fs \<Rightarrow> string \<times> bool \<Rightarrow> ('c \<times> string list) option option" where
  "loadEntry F C d s entry =
     (case entry of (name, isDir) \<Rightarrow>
        if isDir \<or> \<not> suffix ''.pem'' name then Some None
        else
          (let certPath = joinPath [d, name]
           in case loadKeyPair F C certPath s of
                None \<Rightarrow> Some None
              | Some cert \<Rightarrow>
                  (case extractDomainsFromCert F C certPath s of
                     None \<Rightarrow> None
                   | Some (Inl e) \<Rightarrow> Some None
                   | Some (Inr domains) \<Rightarrow>
                       if domains = [] then Some None else Some (Some (cert, domains)))))"

definition normDomain :: "string \<Rightarrow> string" where
  "normDomain d = map toLower (trimSpace d)"

definition registerCert :: "'c \<times> string list \<Rightarrow> (string \<times> 'c) list \<Rightarrow> (string \<times> 'c) list" where
  "registerCert x new = fold (\<lambda>d. AList.update (normDomain d) (fst x)) (snd x) new"

fun loadEntries ::
  "os_faults \<Rightarrow> 'c crypto \<Rightarrow> path \<Rightarrow> fs \<Rightarrow> (string \<times> bool) list \<Rightarrow> (string \<times> 'c) list \<Rightarrow>
   (string \<times> 'c) list option" where
  "loadEntries F C d s [] new = Some new"
| "loadEntries F C d s (entry # es) new =
     (case loadEntry F C d s entry of
        None \<Rightarrow> None
      | Some None \<Rightarrow> loadEntries F C d s es new
      | Some (Some x) \<Rightarrow> loadEntries F C d s es (registerCert x new))"

text \<open>\<open>None\<close>: the call does not return. The manager keeps its certificates when there is an error.\<close>

definition loadCertificates ::
  "os_faults \<Rightarrow> 'c crypto \<Rightarrow> fs \<Rightarrow> 'c Manager \<Rightarrow> (tls_error option \<times> 'c Manager) option" where
  "loadCertificates F C s m =
     (case readDir F (certsDir m) s of
        Inl e \<Rightarrow> Some (Some (ReadCertsDir e), m)
      | Inr entries \<Rightarrow>
          (case loadEntries F C (certsDir m) s entries [] of
             None \<Rightarrow> None
           | Some new \<Rightarrow>
               if new = [] then Some (Some (NoValidCertificates (certsDir m)), m)
               else Some (None, m\<lparr>certs := new\<rparr>)))"

text \<open>
  The watcher can fail to start or to watch the directory; the second part of the result says whether
  it is left open.
\<close>

definition NewManager ::
  "os_faults \<Rightarrow> 'c crypto \<Rightarrow> bool \<Rightarrow> bool \<Rightarrow> fs \<Rightarrow> path \<Rightarrow> 16 word \<Rightarrow>
   ((tls_error + 'c Manager) \<times> bool) option" where
  "NewManager F C watcherFails addFails s d ver =
     (if watcherFails then Some (Inl CreateWatcher, False)
      else
        (case loadCertificates F C s \<lparr>certsDir = d, certs = [], minVersion = ver, stopClosed = False\<rparr> of
           None \<Rightarrow> None
         | Some (Some e, m) \<Rightarrow> Some (Inl e, False)
         | Some (None, m) \<Rightarrow>
             if addFails then Some (Inl WatchCertsDir, False) else Some (Inr m, True)))"

section \<open>Reloading\<close>

text \<open>
  What the loop of \<open>watchCertificates\<close> receives: an event with its operations as a bit set (the bits for
  writing and creating are fsnotify's), with the state of the disk at that moment; an error of the
  watcher; or that a channel is closed.
\<close>

record fsnotify_ops =
  fn_Write :: "32 word"
  fn_Create :: "32 word"

datatype watch_event = WatchFile os_faults fs "32 word" string | WatchError | WatchEnd

definition reloads :: "fsnotify_ops \<Rightarrow> 32 word \<Rightarrow> string \<Rightarrow> bool" where
  "reloads N opn name \<longleftrightarrow>
     (opn AND fn_Write N = fn_Write N \<or> opn AND fn_Create N = fn_Create N) \<and> suffix ''.pem'' name"

definition watchStep :: "fsnotify_ops \<Rightarrow> 'c crypto \<Rightarrow> 'c Manager \<Rightarrow> watch_event \<Rightarrow> 'c Manager option" where
  "watchStep N C m e =
     (case e of
        WatchFile F s opn name \<Rightarrow>
          if reloads N opn name then map_option snd (loadCertificates F C s m) else Some m
      | _ \<Rightarrow> Some m)"

fun watchCertificates ::
  "fsnotify_ops \<Rightarrow> 'c crypto \<Rightarrow> watch_event list \<Rightarrow> 'c Manager \<Rightarrow> 'c Manager option" where
  "watchCertificates N C [] m = Some m"
| "watchCertificates N C (e # es) m =
     (if e = WatchEnd then Some m
      else (case watchStep N C m e of None \<Rightarrow> None | Some m' \<Rightarrow> watchCertificates N C es m'))"

definition Reload :: "os_faults \<Rightarrow> 'c crypto \<Rightarrow> fs \<Rightarrow> 'c Manager \<Rightarrow> (tls_error option \<times> 'c Manager) option" where
  "Reload F C s m = loadCertificates F C s m"

text \<open>
  Closing the channel that stops the loop panics when it is closed already (\<open>None\<close>); the error is that of
  closing the watcher.
\<close>

definition CloseManager :: "bool \<Rightarrow> 'c Manager \<Rightarrow> (tls_error option \<times> 'c Manager) option" where
  "CloseManager closeFails m =
     (if stopClosed m then None
      else Some (if closeFails then Some CloseWatcher else None, m\<lparr>stopClosed := True\<rparr>))"

section \<open>Serving\<close>

text \<open>
  A range over a map starts at an entry of Go's choice: the \<open>it\<close>-th here.
\<close>

definition GetCertificate :: "nat \<Rightarrow> string \<Rightarrow> 'c Manager \<Rightarrow> tls_error + 'c" where
  "GetCertificate it serverName m =
     (case map_of (certs m) (normDomain serverName) of
        Some cert \<Rightarrow> Inr cert
      | None \<Rightarrow>
          if certs m = [] then Inl NoCertificatesAvailable
          else Inr (snd (certs m ! (it mod length (certs m)))))"

record 'c TLSServerConfig =
  tc_MinVersion :: "16 word"
  tc_GetCertificate :: "nat \<Rightarrow> string \<Rightarrow> tls_error + 'c"
  tc_PreferServerCipherSuites :: bool

definition GetTLSConfig :: "'c Manager \<Rightarrow> 'c TLSServerConfig" where
  "GetTLSConfig m =
     \<lparr>tc_MinVersion = minVersion m, tc_GetCertificate = (\<lambda>it name. GetCertificate it name m),
      tc_PreferServerCipherSuites = True\<rparr>"

definition GetCertCount :: "'c Manager \<Rightarrow> nat" where
  "GetCertCount m = length (certs m)"

definition GetDomains :: "'c Manager \<Rightarrow> string list" where
  "GetDomains m = map fst (certs m)"

definition ParseTLSVersion :: "string \<Rightarrow> 16 word" where
  "ParseTLSVersion version =
     (if version = ''1.0'' then 0x0301
      else if version = ''1.1'' then 0x0302
      else if version = ''1.2'' then 0x0303
      else if version = ''1.3'' then 0x0304
      else 0x0303)"

section \<open>Laws\<close>

text \<open>\<open>pem.Decode\<close> takes at least the block it gives from the input.\<close>

definition pem_consumes :: "'c crypto \<Rightarrow> bool" where
  "pem_consumes C \<longleftrightarrow> (\<forall>d b r. cr_pem C d = Some (b, r) \<longrightarrow> length r < length d)"

lemma findCertificate_ends:
  "pem_consumes C \<Longrightarrow> \<exists>x. findCertificate (cr_pem C) d = Some x"
proof (induction d rule: length_induct)
  case (1 d)
  show ?case
  proof (cases "cr_pem C d")
    case (Some p)
    obtain b r where p: "p = (b, r)" by (cases p)
    have "length r < length d" using 1(2) Some p by (auto simp: pem_consumes_def)
    then show ?thesis using 1 Some p by (subst findCertificate.simps) auto
  qed (subst findCertificate.simps, simp)
qed

lemma extractDomains_ends: "pem_consumes C \<Longrightarrow> extractDomainsFromCert F C p s \<noteq> None"
  using findCertificate_ends [of C]
  by (cases "readFile F p s") (auto simp: extractDomainsFromCert_def split: option.split)

lemma loadEntry_ends: "pem_consumes C \<Longrightarrow> \<exists>x. loadEntry F C d s e = Some x"
  using extractDomains_ends [of C F "joinPath [d, fst e]" s]
  by (cases e) (auto simp: loadEntry_def Let_def split: option.split sum.split)

lemma loadEntries_ends: "pem_consumes C \<Longrightarrow> \<exists>new. loadEntries F C d s es acc = Some new"
proof (induction es arbitrary: acc)
  case (Cons e es)
  obtain x where "loadEntry F C d s e = Some x" using loadEntry_ends [OF Cons.prems] by blast
  then show ?case using Cons by (cases x) auto
qed simp

text \<open>What is loaded: the certificates of the entries, in their order.\<close>

definition loaded ::
  "os_faults \<Rightarrow> 'c crypto \<Rightarrow> path \<Rightarrow> fs \<Rightarrow> (string \<times> bool) list \<Rightarrow> ('c \<times> string list) list" where
  "loaded F C d s es = concat (map (\<lambda>e. case loadEntry F C d s e of Some (Some x) \<Rightarrow> [x] | _ \<Rightarrow> []) es)"

lemma loadEntries_loaded:
  "loadEntries F C d s es acc = Some new \<Longrightarrow> new = fold registerCert (loaded F C d s es) acc"
proof (induction es arbitrary: acc)
  case (Cons e es)
  then show ?case by (cases "loadEntry F C d s e") (auto simp: loaded_def split: option.splits)
qed (simp add: loaded_def)

lemma map_of_registerCert:
  "map_of (registerCert x new) d = (if d \<in> normDomain ` set (snd x) then Some (fst x) else map_of new d)"
proof -
  have "map_of (fold (\<lambda>d. AList.update (normDomain d) c) ds new) d =
      (if d \<in> normDomain ` set ds then Some c else map_of new d)" for c ds
    by (induction ds arbitrary: new) auto
  then show ?thesis by (simp add: registerCert_def)
qed

text \<open>The last certificate that names a domain is the one registered for it.\<close>

lemma map_of_fold_registerCert:
  "map_of (fold registerCert xs new) d =
     (case find (\<lambda>x. d \<in> normDomain ` set (snd x)) (rev xs) of
        Some x \<Rightarrow> Some (fst x) | None \<Rightarrow> map_of new d)"
proof (induction xs rule: rev_induct)
  case (snoc x xs)
  then show ?case by (simp add: map_of_registerCert)
qed simp

lemma keys_distinct_registerCert: "keys_distinct new \<Longrightarrow> keys_distinct (registerCert x new)"
proof -
  have "keys_distinct new \<Longrightarrow> keys_distinct (fold (\<lambda>d. AList.update (normDomain d) c) ds new)" for c ds
    by (induction ds arbitrary: new) (auto intro: keys_distinct_update)
  then show "keys_distinct new \<Longrightarrow> ?thesis" by (simp add: registerCert_def)
qed

lemma keys_distinct_loaded: "keys_distinct new \<Longrightarrow> keys_distinct (fold registerCert xs new)"
  by (induction xs arbitrary: new) (auto intro: keys_distinct_registerCert)

section \<open>A manager that was created always serves\<close>

definition managerOK :: "'c Manager \<Rightarrow> bool" where
  "managerOK m \<longleftrightarrow> certs m \<noteq> [] \<and> keys_distinct (certs m)"

lemma loadCertificates_D:
  assumes "loadCertificates F C s m = Some (r, m')"
  shows "r \<noteq> None \<and> m' = m \<or> (\<exists>es. r = None \<and> readDir F (certsDir m) s = Inr es \<and> managerOK m' \<and>
    m' = m\<lparr>certs := fold registerCert (loaded F C (certsDir m) s es) []\<rparr>)"
proof -
  have kd: "keys_distinct (fold registerCert xs [])" for xs :: "('a \<times> string list) list"
    by (rule keys_distinct_loaded) simp
  show ?thesis
    using assms kd
    by (auto simp: loadCertificates_def managerOK_def dest!: loadEntries_loaded
        split: sum.splits option.splits if_splits)
qed

lemma NewManager_OK: "NewManager F C wbad abad s d ver = Some (Inr m, b) \<Longrightarrow> managerOK m"
  by (auto simp: NewManager_def dest!: loadCertificates_D split: if_splits option.splits)

lemma watchStep_OK: "watchStep N C m e = Some m' \<Longrightarrow> managerOK m \<Longrightarrow> managerOK m'"
  by (auto simp: watchStep_def dest!: loadCertificates_D split: watch_event.splits if_splits)

interpretation watch_machine: step_system
  "\<lambda>m. \<exists>F wbad abad s d ver b. NewManager F C wbad abad s d ver = Some (Inr m, b)"
  "\<lambda>m m'. \<exists>e. watchStep N C m e = Some m'" managerOK for C N
  by unfold_locales (auto intro: NewManager_OK watchStep_OK)

lemma watchCertificates_steps:
  "watchCertificates N C es m = Some m' \<Longrightarrow> (\<lambda>m m'. \<exists>e. watchStep N C m e = Some m')\<^sup>*\<^sup>* m m'"
proof (induction es arbitrary: m)
  case (Cons e es)
  then show ?case
    by (auto split: if_splits option.splits intro: converse_rtranclp_into_rtranclp)
qed simp

end
