(* ===== verification/TlsProperties.thy ===== *)
theory TlsProperties
  imports TlsMgr
begin

text \<open>
  The properties of the certificate manager.
\<close>

section \<open>A certificate directory for the instances\<close>

text \<open>Cryptography in which every byte is a certificate block, and names its own domain.\<close>

definition demoCrypto :: "bytes crypto" where
  "demoCrypto =
     \<lparr>cr_keyPair = (\<lambda>d. if d = [] then None else Some d),
      cr_pem = (\<lambda>d. case d of [] \<Rightarrow> None | c # r \<Rightarrow> Some (\<lparr>pemType = ''CERTIFICATE'', pemBytes = [c]\<rparr>, r)),
      cr_parse = (\<lambda>b. Some \<lparr>CommonName = b @ ''.Org'', DNSNames = []\<rparr>)\<rparr>"

definition demoCerts :: fs where
  "demoCerts = \<lparr>files = [(''/c/a.pem'', \<lparr>idata = ''x1'', mtime = 0\<rparr>), (''/c/b.pem'', \<lparr>idata = ''x2'', mtime = 0\<rparr>)],
     dirs = [''/c''], trail = []\<rparr>"

definition demoManager :: "bytes Manager" where
  "demoManager = \<lparr>certsDir = ''/c'', certs = [(''x.org'', ''x2'')], minVersion = 0x0303, stopClosed = False\<rparr>"

lemma demoCrypto_consumes: "pem_consumes demoCrypto"
  by (auto simp: pem_consumes_def demoCrypto_def split: list.splits)

lemma demo_readDir: "readDir no_faults ''/c'' demoCerts = Inr [(''a.pem'', False), (''b.pem'', False)]"
proof -
  have "dirEntries demoCerts ''/c'' = [(''a.pem'', False), (''b.pem'', False)]" by code_simp
  then show ?thesis by (simp add: readDir_def dirExists_def demoCerts_def)
qed

lemma demo_paths: "joinPath [''/c'', ''a.pem''] = ''/c/a.pem''" "joinPath [''/c'', ''b.pem''] = ''/c/b.pem''"
  by code_simp+

lemma demo_find: "findCertificate (cr_pem demoCrypto) (c # d) = Some (Some \<lparr>pemType = ''CERTIFICATE'', pemBytes = [c]\<rparr>)"
  by (subst findCertificate.simps) (simp add: demoCrypto_def)

lemma demo_files: "readFile no_faults ''/c/a.pem'' demoCerts = Inr ''x1''" "readFile no_faults ''/c/b.pem'' demoCerts = Inr ''x2''"
  by (simp_all add: readFile_def fileAt_def demoCerts_def del: map_of_files)

lemma demo_extract:
  "extractDomainsFromCert no_faults demoCrypto ''/c/a.pem'' demoCerts = Some (Inr [''x.Org''])"
  "extractDomainsFromCert no_faults demoCrypto ''/c/b.pem'' demoCerts = Some (Inr [''x.Org''])"
proof -
  have "certDomains (the (cr_parse demoCrypto ''x'')) = [''x.Org'']" "cr_parse demoCrypto ''x'' \<noteq> None"
    by (simp_all add: demoCrypto_def certDomains_def)
  then show "extractDomainsFromCert no_faults demoCrypto ''/c/a.pem'' demoCerts = Some (Inr [''x.Org''])"
    "extractDomainsFromCert no_faults demoCrypto ''/c/b.pem'' demoCerts = Some (Inr [''x.Org''])"
    by (auto simp: extractDomainsFromCert_def demo_files demo_find)
qed

lemma demo_entries:
  "loadEntry no_faults demoCrypto ''/c'' demoCerts (''a.pem'', False) = Some (Some (''x1'', [''x.Org'']))"
  "loadEntry no_faults demoCrypto ''/c'' demoCerts (''b.pem'', False) = Some (Some (''x2'', [''x.Org'']))"
proof -
  have "suffix ''.pem'' ''a.pem''" "suffix ''.pem'' ''b.pem''" by (simp_all add: suffix_def)
  moreover have "cr_keyPair demoCrypto d = (if d = [] then None else Some d)" for d by (simp add: demoCrypto_def)
  ultimately show "loadEntry no_faults demoCrypto ''/c'' demoCerts (''a.pem'', False) = Some (Some (''x1'', [''x.Org'']))"
    "loadEntry no_faults demoCrypto ''/c'' demoCerts (''b.pem'', False) = Some (Some (''x2'', [''x.Org'']))"
    by (simp_all add: loadEntry_def demo_paths loadKeyPair_def demo_extract demo_files)
qed

lemma demo_norm: "normDomain ''x.Org'' = ''x.org''" "normDomain ''X.ORG'' = ''x.org''"
proof -
  have "trimSpace ''x.Org'' = ''x.Org''" "trimSpace ''X.ORG'' = ''X.ORG''" by (simp_all add: trimSpace_visible)
  then show "normDomain ''x.Org'' = ''x.org''" "normDomain ''X.ORG'' = ''x.org''"
    by (simp_all add: normDomain_def toLower_def isUpper_def char_of_def bit_0)
qed

lemma demo_load: "certsDir m = ''/c'' \<Longrightarrow>
  loadCertificates no_faults demoCrypto demoCerts m = Some (None, m\<lparr>certs := [(''x.org'', ''x2'')]\<rparr>)"
  by (simp add: loadCertificates_def demo_readDir demo_entries registerCert_def demo_norm)

lemma demo_New:
  "NewManager no_faults demoCrypto False False demoCerts ''/c'' 0x0303 = Some (Inr demoManager, True)"
  by (simp add: NewManager_def demo_load demoManager_def)

section \<open>Properties\<close>

text \<open>C20: Loading ends, although its loop over the blocks of a file has no bound of its own: when decoding a
  block takes something from the input, a manager is created or refused, and every reload returns.\<close>

theorem loading_ends:
  assumes "pem_consumes C"
  shows "(\<exists>x. NewManager F C watcherFails addFails s d ver = Some x) \<and>
    (\<exists>m'. watchCertificates N C es m = Some m')"
proof -
  have "loadEntries F C d s es acc \<noteq> None" for F d s es acc
    using loadEntries_ends [OF assms, of F d s es acc] by blast
  then have ld: "\<exists>x. loadCertificates F C s m = Some x" for F s m
    by (cases "readDir F (certsDir m) s") (auto simp: loadCertificates_def split: option.split)
  have "\<exists>x. NewManager F C watcherFails addFails s d ver = Some x"
    using ld [of F s "\<lparr>certsDir = d, certs = [], minVersion = ver, stopClosed = False\<rparr>"]
    by (auto simp: NewManager_def split: option.split)
  moreover have "\<exists>m'. watchCertificates N C es m = Some m'"
  proof (induction es arbitrary: m)
    case (Cons e es)
    have "\<exists>m'. watchStep N C m e = Some m'"
    proof (cases e)
      case (WatchFile F s opn name)
      then show ?thesis using ld [of F s m] by (auto simp: watchStep_def)
    qed (simp_all add: watchStep_def)
    then show ?case using Cons by auto
  qed simp
  ultimately show ?thesis by blast
qed

theorem loading_ends_witness:
  "\<exists>x. NewManager no_faults demoCrypto False False demoCerts ''/c'' 0x0303 = Some x"
  using loading_ends [OF demoCrypto_consumes] by blast

text \<open>C21: A manager that was created always serves: after any number of changes in the directory, reloads that
  fail and errors of the watcher, it has a certificate for every client, with or without a server
  name, and one for each of its domains.\<close>

theorem manager_serves:
  assumes "NewManager F C watcherFails addFails s d ver = Some (Inr m, b)"
    and "watchCertificates N C es m = Some m'"
  shows "(\<exists>cert. GetCertificate it serverName m' = Inr cert) \<and> 0 < GetCertCount m' \<and>
    distinct (GetDomains m')"
proof -
  have "managerOK m'"
    by (rule watch_machine.reachable_inv [OF _ watchCertificates_steps [OF assms(2)]]) (use assms(1) in blast)
  then show ?thesis
    by (auto simp: managerOK_def GetCertificate_def GetCertCount_def GetDomains_def split: option.split)
qed

theorem manager_serves_witness:
  "\<exists>cert. GetCertificate 5 ''other.org'' demoManager = Inr cert"
  using manager_serves [OF demo_New, of "\<lparr>fn_Write = 2, fn_Create = 1\<rparr>" "[WatchError]" demoManager 5 "''other.org''"]
  by (simp add: watchStep_def)

text \<open>C39: After a load a client is served the certificate of the last file, in the order of their names, that
  names the domain it asks for, whatever the case of its letters; when no file names it, the
  certificate of some file of the directory.\<close>

theorem certificate_for_domain:
  assumes "loadCertificates F C s m = Some (None, m')" "readDir F (certsDir m) s = Inr es"
  shows "case find (\<lambda>x. normDomain serverName \<in> normDomain ` set (snd x)) (rev (loaded F C (certsDir m) s es)) of
     Some x \<Rightarrow> GetCertificate it serverName m' = Inr (fst x)
   | None \<Rightarrow> GetCertificate it serverName m' \<in> (Inr \<circ> fst) ` set (loaded F C (certsDir m) s es)"
proof -
  let ?xs = "loaded F C (certsDir m) s es"
  have m': "managerOK m'" "certs m' = fold registerCert ?xs []"
    using loadCertificates_D [OF assms(1)] assms(2) by auto
  have mem: "c \<in> fst ` set ?xs" if "map_of (certs m') d = Some c" for d c
  proof -
    have "\<exists>x. find (\<lambda>x. d \<in> normDomain ` set (snd x)) (rev ?xs) = Some x \<and> c = fst x"
      using that [unfolded m'(2) map_of_fold_registerCert]
      by (cases "find (\<lambda>x. d \<in> normDomain ` set (snd x)) (rev ?xs)") simp_all
    then obtain x where x: "find (\<lambda>x. d \<in> normDomain ` set (snd x)) (rev ?xs) = Some x" "c = fst x" by blast
    then have "x \<in> set (rev ?xs)" unfolding find_Some_iff by (metis nth_mem)
    then show ?thesis using x(2) by simp
  qed
  show ?thesis
  proof (cases "find (\<lambda>x. normDomain serverName \<in> normDomain ` set (snd x)) (rev ?xs)")
    case (Some x)
    then show ?thesis by (simp add: GetCertificate_def m'(2) map_of_fold_registerCert)
  next
    case None
    define p where "p = certs m' ! (it mod length (certs m'))"
    have "p \<in> set (certs m')" using m'(1) by (simp add: p_def managerOK_def)
    then have "map_of (certs m') (fst p) = Some (snd p)" using m'(1) by (simp add: managerOK_def)
    then have "snd p \<in> fst ` set ?xs" by (rule mem)
    moreover have "GetCertificate it serverName m' = Inr (snd p)"
      using None m' by (simp add: GetCertificate_def map_of_fold_registerCert managerOK_def p_def)
    ultimately show ?thesis using None by auto
  qed
qed

theorem certificate_for_domain_witness:
  "GetCertificate 0 ''X.ORG'' demoManager = Inr ''x2''"
proof -
  have "loadCertificates no_faults demoCrypto demoCerts demoManager = Some (None, demoManager)"
    by (simp add: demo_load demoManager_def)
  moreover have "readDir no_faults (certsDir demoManager) demoCerts = Inr [(''a.pem'', False), (''b.pem'', False)]"
    by (simp add: demo_readDir demoManager_def)
  ultimately show ?thesis
    using certificate_for_domain [of no_faults demoCrypto demoCerts demoManager demoManager _ 0 "''X.ORG''"]
    by (fastforce simp: loaded_def demo_entries demo_norm demoManager_def)
qed

end
