(* ===== verification/Database.thy ===== *)
theory Database
  imports Prelude
begin

text \<open>
  \<open>internal/db/db.go\<close>: opening the database. A connection is what is done to it; which of the calls of
  \<open>database/sql\<close> fails is an argument. The schema is one script, whose statements the database
  runs; what its tables hold is in \<open>Queue\<close>.
\<close>

datatype sql_statement = JournalWAL | ForeignKeysOn | CreateSchema

record sql_conn =
  cn_path :: string
  cn_maxOpen :: int
  cn_maxIdle :: int
  cn_lifetime :: duration
  cn_done :: "sql_statement list"
  cn_closed :: bool

record db_config =
  dc_Path :: string
  dc_MaxOpenConns :: int
  dc_MaxIdleConns :: int
  dc_ConnMaxLifetime :: duration

datatype db_error = OpeningDatabase | EnablingWAL | EnablingForeignKeys | InitializingSchema

text \<open>Only what succeeds is recorded: a script that fails may have made some of its tables.\<close>

definition execStatement :: "(sql_statement \<Rightarrow> bool) \<Rightarrow> sql_statement \<Rightarrow> sql_conn \<Rightarrow> bool \<times> sql_conn" where
  "execStatement fails st c =
     (if fails st then (False, c) else (True, c\<lparr>cn_done := cn_done c @ [st]\<rparr>))"

definition CloseConn :: "sql_conn \<Rightarrow> sql_conn" where
  "CloseConn c = c\<lparr>cn_closed := True\<rparr>"

definition initSchema :: "(sql_statement \<Rightarrow> bool) \<Rightarrow> sql_conn \<Rightarrow> bool \<times> sql_conn" where
  "initSchema fails c = execStatement fails CreateSchema c"

text \<open>The error, if any, and the connection, if it was opened.\<close>

definition NewDB ::
  "bool \<Rightarrow> (sql_statement \<Rightarrow> bool) \<Rightarrow> db_config \<Rightarrow> db_error option \<times> sql_conn option" where
  "NewDB openFails fails cfg =
     (if openFails then (Some OpeningDatabase, None)
      else
        (let c = \<lparr>cn_path = dc_Path cfg, cn_maxOpen = dc_MaxOpenConns cfg, cn_maxIdle = dc_MaxIdleConns cfg,
                  cn_lifetime = dc_ConnMaxLifetime cfg, cn_done = [], cn_closed = False\<rparr>
         in case execStatement fails JournalWAL c of
              (False, c) \<Rightarrow> (Some EnablingWAL, Some (CloseConn c))
            | (True, c) \<Rightarrow>
                (case execStatement fails ForeignKeysOn c of
                   (False, c) \<Rightarrow> (Some EnablingForeignKeys, Some (CloseConn c))
                 | (True, c) \<Rightarrow>
                     (case initSchema fails c of
                        (False, c) \<Rightarrow> (Some InitializingSchema, Some (CloseConn c))
                      | (True, c) \<Rightarrow> (None, Some c)))))"

text \<open>\<open>Close\<close> of a database whose connection may be nil.\<close>

definition CloseDB :: "sql_conn option \<Rightarrow> sql_conn option" where
  "CloseDB c = map_option CloseConn c"

text \<open>
  What the methods of the pool answer is the library's business: whether a ping fails, a new
  transaction or an error, the statistics. On a nil connection they panic (\<open>None\<close>).
\<close>

record ('tx, 'st) sql_pool =
  pool_pingFails :: "sql_conn \<Rightarrow> bool"
  pool_begin :: "sql_conn \<Rightarrow> 'tx option"
  pool_stats :: "sql_conn \<Rightarrow> 'st"

definition PingDB :: "('tx, 'st) sql_pool \<Rightarrow> sql_conn option \<Rightarrow> bool option" where
  "PingDB P conn = map_option (pool_pingFails P) conn"

definition GetConn :: "sql_conn option \<Rightarrow> sql_conn option" where
  "GetConn conn = conn"

definition BeginTx :: "('tx, 'st) sql_pool \<Rightarrow> sql_conn option \<Rightarrow> 'tx option option" where
  "BeginTx P conn = map_option (pool_begin P) conn"

definition StatsDB :: "('tx, 'st) sql_pool \<Rightarrow> sql_conn option \<Rightarrow> 'st option" where
  "StatsDB P conn = map_option (pool_stats P) conn"

text \<open>The database is ready exactly when nothing failed: then its connection is open, the journal and the
  foreign keys were set before the tables were made. After any error no connection is left open.\<close>

theorem database_opened:
  "case NewDB openFails fails cfg of
     (None, Some c) \<Rightarrow> \<not> openFails \<and> fails ` {JournalWAL, ForeignKeysOn, CreateSchema} = {False} \<and>
        \<not> cn_closed c \<and> cn_done c = [JournalWAL, ForeignKeysOn, CreateSchema]
   | (None, None) \<Rightarrow> False
   | (Some e, None) \<Rightarrow> openFails
   | (Some e, Some c) \<Rightarrow> cn_closed c \<and> CreateSchema \<notin> set (cn_done c)"
  by (simp add: NewDB_def Let_def execStatement_def initSchema_def CloseConn_def)

end
