(* ===== verification/Logger.thy ===== *)
theory Logger
  imports GoStrings
begin

text \<open>
  \<open>internal/logger/logger.go\<close>: the wrapper of zerolog. A logger is the fields of its context; what it
  does is to hand events to zerolog, which are kept here in their order with the level zerolog was
  given to filter them by. What zerolog writes of an event is not modelled.
\<close>

datatype Level = DebugLevel | InfoLevel | WarnLevel | ErrorLevel | FatalLevel

datatype log_field = StrField string string | ErrField string | AnyFields "(string \<times> string) list"

datatype log_text = Msg string | Msgf string "string list"

record Logger =
  logContext :: "log_field list"

record log_event =
  le_level :: Level
  le_fields :: "log_field list"
  le_text :: log_text

text \<open>
  The part of zerolog the program sets: the global level, whether the output is for a console, the
  context of the global logger, the events, and whether a fatal one has ended the daemon.
\<close>

record zerolog =
  zl_level :: Level
  zl_console :: bool
  zl_global :: Logger
  zl_events :: "log_event list"
  zl_exited :: bool

definition parseLevel :: "string \<Rightarrow> Level" where
  "parseLevel level =
     (if level = ''debug'' then DebugLevel
      else if level = ''info'' then InfoLevel
      else if level = ''warn'' then WarnLevel
      else if level = ''error'' then ErrorLevel
      else InfoLevel)"

definition NewLogger :: "string \<Rightarrow> string \<Rightarrow> zerolog \<Rightarrow> Logger \<times> zerolog" where
  "NewLogger level format z =
     (let l = \<lparr>logContext = []\<rparr>
      in (l, z\<lparr>zl_level := parseLevel level, zl_console := (format = ''console''), zl_global := l\<rparr>))"

definition withField :: "log_field \<Rightarrow> Logger \<Rightarrow> Logger" where
  "withField f l = \<lparr>logContext = logContext l @ [f]\<rparr>"

definition WithRequestID :: "string \<Rightarrow> Logger \<Rightarrow> Logger" where
  "WithRequestID requestID = withField (StrField ''request_id'' requestID)"

definition WithSessionID :: "string \<Rightarrow> Logger \<Rightarrow> Logger" where
  "WithSessionID sessionID = withField (StrField ''session_id'' sessionID)"

definition WithMessageID :: "string \<Rightarrow> Logger \<Rightarrow> Logger" where
  "WithMessageID msgID = withField (StrField ''msg_id'' msgID)"

definition WithUser :: "string \<Rightarrow> Logger \<Rightarrow> Logger" where
  "WithUser user = withField (StrField ''user'' user)"

definition WithClientIP :: "string \<Rightarrow> Logger \<Rightarrow> Logger" where
  "WithClientIP ip = withField (StrField ''client_ip'' ip)"

definition WithComponent :: "string \<Rightarrow> Logger \<Rightarrow> Logger" where
  "WithComponent component = withField (StrField ''component'' component)"

definition WithStage :: "string \<Rightarrow> Logger \<Rightarrow> Logger" where
  "WithStage stage = withField (StrField ''stage'' stage)"

definition WithRecipient :: "string \<Rightarrow> Logger \<Rightarrow> Logger" where
  "WithRecipient rcpt = withField (StrField ''recipient'' rcpt)"

definition WithError :: "string \<Rightarrow> Logger \<Rightarrow> Logger" where
  "WithError err = withField (ErrField err)"

definition WithFields :: "(string \<times> string) list \<Rightarrow> Logger \<Rightarrow> Logger" where
  "WithFields fs = withField (AnyFields fs)"

definition Global :: "zerolog \<Rightarrow> Logger" where
  "Global z = zl_global z"

definition emit :: "Level \<Rightarrow> log_text \<Rightarrow> Logger \<Rightarrow> zerolog \<Rightarrow> zerolog" where
  "emit lv t l z =
     (if zl_exited z then z
      else z\<lparr>zl_events := zl_events z @ [\<lparr>le_level = lv, le_fields = logContext l, le_text = t\<rparr>],
             zl_exited := (lv = FatalLevel)\<rparr>)"

definition Debug :: "string \<Rightarrow> Logger \<Rightarrow> zerolog \<Rightarrow> zerolog" where
  "Debug msg = emit DebugLevel (Msg msg)"

definition Info :: "string \<Rightarrow> Logger \<Rightarrow> zerolog \<Rightarrow> zerolog" where
  "Info msg = emit InfoLevel (Msg msg)"

definition Warn :: "string \<Rightarrow> Logger \<Rightarrow> zerolog \<Rightarrow> zerolog" where
  "Warn msg = emit WarnLevel (Msg msg)"

definition LogError :: "string \<Rightarrow> Logger \<Rightarrow> zerolog \<Rightarrow> zerolog" where
  "LogError msg = emit ErrorLevel (Msg msg)"

definition Fatal :: "string \<Rightarrow> Logger \<Rightarrow> zerolog \<Rightarrow> zerolog" where
  "Fatal msg = emit FatalLevel (Msg msg)"

definition Debugf :: "string \<Rightarrow> string list \<Rightarrow> Logger \<Rightarrow> zerolog \<Rightarrow> zerolog" where
  "Debugf format args = emit DebugLevel (Msgf format args)"

definition Infof :: "string \<Rightarrow> string list \<Rightarrow> Logger \<Rightarrow> zerolog \<Rightarrow> zerolog" where
  "Infof format args = emit InfoLevel (Msgf format args)"

definition Warnf :: "string \<Rightarrow> string list \<Rightarrow> Logger \<Rightarrow> zerolog \<Rightarrow> zerolog" where
  "Warnf format args = emit WarnLevel (Msgf format args)"

definition Errorf :: "string \<Rightarrow> string list \<Rightarrow> Logger \<Rightarrow> zerolog \<Rightarrow> zerolog" where
  "Errorf format args = emit ErrorLevel (Msgf format args)"

definition Fatalf :: "string \<Rightarrow> string list \<Rightarrow> Logger \<Rightarrow> zerolog \<Rightarrow> zerolog" where
  "Fatalf format args = emit FatalLevel (Msgf format args)"

text \<open>A context only grows: a field that is set again is there twice.\<close>

lemma context_WithMessageID_twice:
  "logContext (WithMessageID b (WithMessageID a l)) =
     logContext l @ [StrField ''msg_id'' a, StrField ''msg_id'' b]"
  by (simp add: WithMessageID_def withField_def)

text \<open>Nothing is logged after a fatal event.\<close>

lemma emit_Fatal: "zl_events (emit lv t l (emit FatalLevel u k z)) = zl_events (emit FatalLevel u k z)"
  by (simp add: emit_def)

end
