(* ===== verification/Daemon.thy ===== *)
theory Daemon
  imports Session TlsMgr Logger
begin

text \<open>
  \<open>cmd/outbound/main.go\<close>: what the daemon makes of its configuration, and what it serves. Starting is
  one function, from the configuration file to the listeners; it stops where the code exits or
  panics. The workers it starts are in \<open>Spool\<close> and \<open>RateLimit\<close>, the sessions of its listeners in
  \<open>Session\<close>. What the process logs, and what becomes of its servers, is in \<open>DaemonRun\<close>; the web server
  around the handlers is a library.
\<close>

section \<open>From the configuration to the components\<close>

record redis_options =
  ro_Addr :: string
  ro_Password :: string
  ro_DB :: int
  ro_PoolSize :: int
  ro_MaxRetries :: int
  ro_DialTimeout :: duration
  ro_ReadTimeout :: duration
  ro_WriteTimeout :: duration

text \<open>The first address is used; indexing an empty list panics.\<close>

definition redisOptions :: "Config \<Rightarrow> redis_options option" where
  "redisOptions cfg =
     (let r = cfg_Redis cfg
      in case red_Addresses r of
           [] \<Rightarrow> None
         | a # as \<Rightarrow>
             Some \<lparr>ro_Addr = a, ro_Password = red_Password r, ro_DB = red_DB r,
                   ro_PoolSize = red_PoolSize r, ro_MaxRetries = red_MaxRetries r,
                   ro_DialTimeout = red_DialTimeout r, ro_ReadTimeout = red_ReadTimeout r,
                   ro_WriteTimeout = red_WriteTimeout r\<rparr>)"

definition spoolRetention :: "Config \<Rightarrow> (Stage \<times> duration) list" where
  "spoolRetention cfg =
     (let r = spl_Retention (cfg_Spool cfg)
      in [(StageIncoming, ret_Incoming r), (StageParsed, ret_Parsed r), (StageFiltered, ret_Filtered r),
          (StageModified, ret_Modified r), (StageSigned, ret_Signed r),
          (StageDelivering, ret_Delivering r), (StageDone, ret_Done r), (StageFailed, ret_Failed r)])"

definition limiterLimits :: "Config \<Rightarrow> limits" where
  "limiterLimits cfg =
     (let r = cfg_RateLimit cfg
      in \<lparr>userMessagesPerHour = rlu_MessagesPerHour (rate_User r),
          userRecipientsPerHour = rlu_RecipientsPerHour (rate_User r),
          ipConnectionsPerMinute = rli_ConnectionsPerMinute (rate_IP r),
          ipFailedAuthPerHour = rli_FailedAuthPerHour (rate_IP r),
          globalMessagesPerSecond = rlg_MessagesPerSecond (rate_Global r),
          globalConcurrentConns = rlg_ConcurrentConnections (rate_Global r)\<rparr>)"

definition daemonIPAuth :: "Config \<Rightarrow> ip_auth_error + IPAuthenticator option" where
  "daemonIPAuth cfg =
     (let a = auth_IPAllowlist (cfg_Auth cfg)
      in if ipallow_Enabled a then
           (case NewIPAuthenticator (ipallow_IPs a) of Inl e \<Rightarrow> Inl e | Inr x \<Rightarrow> Inr (Some x))
         else Inr None)"

section \<open>Starting\<close>

text \<open>Why the daemon does not start, and the daemon.\<close>

datatype daemon_stop =
    LoadFailed load_error | DuplicateMetrics | NoRedisAddress | TLSFailed tls_error
  | SpoolFailed spool_error | IPAuthFailed ip_auth_error

text \<open>The workers it has started.\<close>

datatype started_worker = WatchCertificates | CleanSpool duration | CleanLimiter

record 'c daemon =
  dm_config :: Config
  dm_logger :: Logger
  dm_metrics :: metrics
  dm_redis :: redis_options
  dm_tls :: "'c Manager"
  dm_spool :: Spool
  dm_limiter :: Limiter
  dm_ipAuth :: "IPAuthenticator option"
  dm_backend :: Backend
  dm_workers :: "started_worker list"

record 'c daemon_env =
  dn_read :: "string \<Rightarrow> bytes option"
  dn_yaml :: "bytes \<Rightarrow> Config \<Rightarrow> Config option"
  dn_env :: env
  dn_registry :: "string list"
  dn_zerolog :: zerolog
  dn_faults :: os_faults
  dn_crypto :: "'c crypto"
  dn_watcherFails :: bool
  dn_addFails :: bool

text \<open>
  The call of \<open>tlsmgr.New\<close> is written without the minimal TLS version; here it is the one of the
  configuration. \<open>None\<close>: the daemon hangs while it loads the certificates.
\<close>

definition daemonTLS :: "'c daemon_env \<Rightarrow> Config \<Rightarrow> fs \<Rightarrow> ((tls_error + 'c Manager) \<times> bool) option" where
  "daemonTLS E cfg s =
     NewManager (dn_faults E) (dn_crypto E) (dn_watcherFails E) (dn_addFails E) s
       (tls_CertsDir (cfg_TLS cfg)) (ParseTLSVersion (tls_MinVersion (cfg_TLS cfg)))"

definition startDaemon ::
  "'c daemon_env \<Rightarrow> string \<Rightarrow> fs \<Rightarrow> ((daemon_stop + 'c daemon) \<times> fs) option" where
  "startDaemon E configPath s =
     (case Load (dn_read E) (dn_yaml E) (dn_env E) configPath of
        Inl e \<Rightarrow> Some (Inl (LoadFailed e), s)
      | Inr cfg \<Rightarrow>
          (let (log, z) = NewLogger (obs_LogLevel (cfg_Observability cfg))
                            (obs_LogFormat (cfg_Observability cfg)) (dn_zerolog E)
           in case NewMetrics (dn_registry E) of
                None \<Rightarrow> Some (Inl DuplicateMetrics, s)
              | Some (met, reg) \<Rightarrow>
                  (case redisOptions cfg of
                     None \<Rightarrow> Some (Inl NoRedisAddress, s)
                   | Some ro \<Rightarrow>
                       (case daemonTLS E cfg s of
                          None \<Rightarrow> None
                        | Some (Inl e, b) \<Rightarrow> Some (Inl (TLSFailed e), s)
                        | Some (Inr tm, b) \<Rightarrow>
                            (case NewSpool (dn_faults E) (spl_BasePath (cfg_Spool cfg)) (spoolRetention cfg) s of
                               (Inl e, s1) \<Rightarrow> Some (Inl (SpoolFailed e), s1)
                             | (Inr sp, s1) \<Rightarrow>
                                 (case daemonIPAuth cfg of
                                    Inl e \<Rightarrow> Some (Inl (IPAuthFailed e), s1)
                                  | Inr ipAuth \<Rightarrow>
                                      Some
                                        (Inr \<lparr>dm_config = cfg, dm_logger = log, dm_metrics = met,
                                              dm_redis = ro, dm_tls = tm, dm_spool = sp,
                                              dm_limiter = NewLimiter (limiterLimits cfg),
                                              dm_ipAuth = ipAuth,
                                              dm_backend = NewBackend cfg sp ipAuth,
                                              dm_workers = [WatchCertificates, CleanSpool (1 * Hour), CleanLimiter]\<rparr>, s1)))))))"

section \<open>Serving\<close>

datatype listen_call = ListenAndServe string | ListenAndServeTLS string | NoListen

definition listenAddr :: "ListenerConfig \<Rightarrow> string" where
  "listenAddr l = lsn_IP l @ '':'' @ showInt (lsn_Port l)"

text \<open>
  The server of a listener and the call that runs it; \<open>s0\<close> is the server as the library makes it. The TLS
  configuration calls the manager back, so that it always has the current certificates.
\<close>

definition serveListener ::
  "'c daemon \<Rightarrow> 'c TLSServerConfig SMTPServer \<Rightarrow> ListenerConfig \<Rightarrow>
   listen_call \<times> 'c TLSServerConfig SMTPServer" where
  "serveListener dm s0 l =
     (let tlsConfig = (if lsn_Mode l \<noteq> ''plaintext'' then Some (GetTLSConfig (dm_tls dm)) else None);
          srv = CreateServer (dm_config dm) tlsConfig s0
      in if lsn_Mode l = ''starttls'' then (ListenAndServe (listenAddr l), srv)
         else if lsn_Mode l = ''implicit_tls'' then (ListenAndServeTLS (listenAddr l), srv)
         else if lsn_Mode l = ''plaintext'' then (ListenAndServe (listenAddr l), srv\<lparr>sv_TLSConfig := None\<rparr>)
         else (NoListen, srv))"

text \<open>The calls the goroutines of all listeners make; what they return is an event of the process.\<close>

definition serveListeners ::
  "'c daemon \<Rightarrow> 'c TLSServerConfig SMTPServer \<Rightarrow> (listen_call \<times> 'c TLSServerConfig SMTPServer) list" where
  "serveListeners dm s0 = map (serveListener dm s0) (smtp_Listeners (cfg_SMTP (dm_config dm)))"

text \<open>The handlers for the health checks: the status and the body.\<close>

definition healthz :: "int \<times> string" where
  "healthz = (200, ''OK'')"

definition readyz :: "nat \<Rightarrow> int \<times> string" where
  "readyz certCount =
     (if certCount = 0 then (503, ''No TLS certificates loaded'') else (200, ''Ready''))"

definition healthRoutes :: "Config \<Rightarrow> string list" where
  "healthRoutes cfg =
     [''/healthz'', ''/readyz''] @ (if obs_MetricsEnabled (cfg_Observability cfg) then [''/metrics''] else [])"

section \<open>A daemon that has started\<close>

lemma startDaemon_D:
  assumes "startDaemon E path s = Some (Inr dm, s')"
  shows "Load (dn_read E) (dn_yaml E) (dn_env E) path = Inr (dm_config dm)"
    and "\<exists>b. daemonTLS E (dm_config dm) s = Some (Inr (dm_tls dm), b)"
    and "NewSpool (dn_faults E) (spl_BasePath (cfg_Spool (dm_config dm))) (spoolRetention (dm_config dm)) s =
      (Inr (dm_spool dm), s')"
    and "dm_backend dm = NewBackend (dm_config dm) (dm_spool dm) (dm_ipAuth dm)"
    and "dm_limiter dm = NewLimiter (limiterLimits (dm_config dm))"
    and "redisOptions (dm_config dm) = Some (dm_redis dm)" "daemonIPAuth (dm_config dm) = Inr (dm_ipAuth dm)"
    and "dm_metrics dm = []"
proof -
  have "Load (dn_read E) (dn_yaml E) (dn_env E) path = Inr (dm_config dm) \<and>
    (\<exists>b. daemonTLS E (dm_config dm) s = Some (Inr (dm_tls dm), b)) \<and>
    NewSpool (dn_faults E) (spl_BasePath (cfg_Spool (dm_config dm))) (spoolRetention (dm_config dm)) s =
      (Inr (dm_spool dm), s') \<and>
    dm_backend dm = NewBackend (dm_config dm) (dm_spool dm) (dm_ipAuth dm) \<and>
    dm_limiter dm = NewLimiter (limiterLimits (dm_config dm)) \<and>
    redisOptions (dm_config dm) = Some (dm_redis dm) \<and> daemonIPAuth (dm_config dm) = Inr (dm_ipAuth dm) \<and>
    dm_metrics dm = []"
    using assms
    by (auto simp: startDaemon_def NewLogger_def Let_def NewMetrics_def split: sum.splits option.splits prod.splits)
  then show "Load (dn_read E) (dn_yaml E) (dn_env E) path = Inr (dm_config dm)"
    and "\<exists>b. daemonTLS E (dm_config dm) s = Some (Inr (dm_tls dm), b)"
    and "NewSpool (dn_faults E) (spl_BasePath (cfg_Spool (dm_config dm))) (spoolRetention (dm_config dm)) s =
      (Inr (dm_spool dm), s')"
    and "dm_backend dm = NewBackend (dm_config dm) (dm_spool dm) (dm_ipAuth dm)"
    and "dm_limiter dm = NewLimiter (limiterLimits (dm_config dm))"
    and "redisOptions (dm_config dm) = Some (dm_redis dm)" "daemonIPAuth (dm_config dm) = Inr (dm_ipAuth dm)"
    and "dm_metrics dm = []"
    by simp_all
qed

lemma NewSpool_fields: "NewSpool F base ret s = (Inr sp, s') \<Longrightarrow> basePath sp = base \<and> retention sp = ret"
  by (auto simp: NewSpool_def Let_def split: prod.splits option.splits)

lemma startDaemon_tlsOK: "startDaemon E path s = Some (Inr dm, s') \<Longrightarrow> managerOK (dm_tls dm)"
  using startDaemon_D(2) [of E path s dm s'] NewManager_OK unfolding daemonTLS_def by blast

end
