(* ===== verification/SystemLaws.thy ===== *)
theory SystemLaws
  imports Daemon DeliveryLaws SpoolLifecycle SessionLaws
begin

text \<open>
  What the components do together: a message that a session of the daemon accepted, in the spool the
  daemon cleans up and the workers read from; and the daemon that was started, as its listeners and
  its health checks see it.
\<close>

section \<open>The time stamp of a message\<close>

lemma Move_inode:
  assumes "Move F sp now m a b s = (None, s')" "validID m" "a \<noteq> b"
    and "fileAt s (stagePath sp a m) = Some \<lparr>idata = d, mtime = now\<rparr>"
  shows "fileAt s' (stagePath sp b m) = Some \<lparr>idata = d, mtime = now\<rparr>"
proof -
  have ne: "stagePath sp a m \<noteq> stagePath sp b m" using assms by simp
  show ?thesis
    using assms(1,4) ne
    by (auto simp: Move_def Let_def split: option.splits prod.splits if_splits
        dest!: rename_D removeFile_D dest: copyFile_D(3) [OF _ ne])
qed

lemma Write_inode:
  assumes "Write F sp now m d s = (None, s')" "validID m"
  shows "fileAt s' (stagePath sp StageIncoming m) = Some \<lparr>idata = d, mtime = now\<rparr>"
proof -
  obtain s3 where "Move F sp now m StageTmp StageIncoming s3 = (None, s')"
    "fileAt s3 (stagePath sp StageTmp m) = Some \<lparr>idata = d, mtime = now\<rparr>"
    using assms(1)
    by (auto simp: Write_def Let_def split: option.splits prod.splits
        dest!: openExcl_D writeFile_D rename_D)
  then show ?thesis using Move_inode assms(2) by auto
qed

section \<open>Clean-up by the daemon\<close>

lemma spoolRetention_incoming:
  "(StageIncoming, ret) \<in> set (spoolRetention cfg) \<Longrightarrow> ret = ret_Incoming (spl_Retention (cfg_Spool cfg))"
  by (auto simp: spoolRetention_def Let_def)

text \<open>A file in \<open>incoming\<close> that is not older than the retention of that stage survives.\<close>

lemma Cleanup_keeps_incoming:
  assumes "properDisk s" "validID m" "retention sp = spoolRetention cfg"
    and "fileAt s (stagePath sp StageIncoming m) = Some n"
    and "timeSub now (mtime n) \<le> ret_Incoming (spl_Retention (cfg_Spool cfg))"
  shows "fileAt (Cleanup F sp now s) (stagePath sp StageIncoming m) = Some n"
proof -
  let ?p = "stagePath sp StageIncoming m"
  have "\<not> (\<exists>(st, ret) \<in> set (retention sp). 0 < ret \<and> dirOf ?p = stageDir sp st \<and> expired now ret (fileAt s ?p))"
    using assms(3-5) spoolRetention_incoming
    by (auto simp: dirOf_stagePath [OF assms(2)] stageDir_inj expired_def)
  then show ?thesis using Cleanup_file [OF assms(1), of F sp now ?p] assms(4) by auto
qed

section \<open>Listeners\<close>

lemma sv_TLSConfig_CreateServer:
  "sv_TLSConfig (CreateServer cfg t s0) = (case t of None \<Rightarrow> sv_TLSConfig s0 | Some c \<Rightarrow> Some c)"
  by (simp add: CreateServer_def)

text \<open>A listener with a mode the configuration accepts: how it is run, and with which TLS configuration.\<close>

lemma serveListener_modes:
  assumes "listenerOK l"
  shows "fst (serveListener dm s0 l) =
      (if lsn_Mode l = ''implicit_tls'' then ListenAndServeTLS (listenAddr l) else ListenAndServe (listenAddr l))"
    and "sv_TLSConfig (snd (serveListener dm s0 l)) =
      (if lsn_Mode l = ''plaintext'' then None else Some (GetTLSConfig (dm_tls dm)))"
    and "sv_MaxMessageBytes (snd (serveListener dm s0 l)) = smtp_MaxMessageSize (cfg_SMTP (dm_config dm))"
  using assms
  by (auto simp: serveListener_def Let_def listenerOK_def sv_TLSConfig_CreateServer)
    (auto simp: CreateServer_def)

lemma managerOK_serves: "managerOK m \<Longrightarrow> \<exists>c. GetCertificate it name m = Inr c"
  by (auto simp: managerOK_def GetCertificate_def split: option.split)

text \<open>
  Every listener of a valid configuration is run in its mode, with a certificate for every client unless it
  is plaintext.
\<close>

lemma listeners_served:
  assumes ok: "configOK (dm_config dm)" and tls: "managerOK (dm_tls dm)"
  shows "list_all2 (\<lambda>l (call, srv).
       call = (if lsn_Mode l = ''implicit_tls'' then ListenAndServeTLS (listenAddr l) else ListenAndServe (listenAddr l)) \<and>
       0 < sv_MaxMessageBytes srv \<and>
       (case sv_TLSConfig srv of
          None \<Rightarrow> lsn_Mode l = ''plaintext''
        | Some tc \<Rightarrow> lsn_Mode l \<noteq> ''plaintext'' \<and> (\<exists>cert. tc_GetCertificate tc it serverName = Inr cert)))
      (smtp_Listeners (cfg_SMTP (dm_config dm))) (serveListeners dm s0) \<and>
    smtp_Listeners (cfg_SMTP (dm_config dm)) \<noteq> [] \<and> readyz (GetCertCount (dm_tls dm)) = (200, ''Ready'')"
proof -
  have cert: "\<exists>cert. tc_GetCertificate (GetTLSConfig (dm_tls dm)) it serverName = Inr cert"
    using managerOK_serves [OF tls] by (simp add: GetTLSConfig_def)
  have "call = (if lsn_Mode l = ''implicit_tls'' then ListenAndServeTLS (listenAddr l) else ListenAndServe (listenAddr l)) \<and>
       0 < sv_MaxMessageBytes srv \<and>
       (case sv_TLSConfig srv of
          None \<Rightarrow> lsn_Mode l = ''plaintext''
        | Some tc \<Rightarrow> lsn_Mode l \<noteq> ''plaintext'' \<and> (\<exists>cert. tc_GetCertificate tc it serverName = Inr cert))"
    if "serveListener dm s0 l = (call, srv)" "listenerOK l" for l call srv
    using serveListener_modes [OF that(2), of dm s0] that(1) ok cert by (simp add: configOK_def)
  then show ?thesis
    using ok tls
    by (auto simp: serveListeners_def list.rel_map list_all_iff configOK_def readyz_def GetCertCount_def managerOK_def
        intro!: list.rel_refl_strong)
qed

section \<open>A message nobody moves\<close>

lemma readMessage_none:
  assumes "\<And>st. st \<in> {StageSigned, StageModified, StageParsed} \<Longrightarrow> fileAt k (stagePath sp st m) = None"
  shows "\<exists>e. readMessage F sp m k = Inl e"
  using assms
  by (auto simp: readMessage_def Read_def readFile_def split: option.splits sum.splits)

text \<open>A delivery whose message cannot be read fails for good, and no mail server is contacted.\<close>

lemma unread_fails:
  assumes "readMessage (de_faults E) sp (MsgID item) (w_disk v) = Inl e"
    and "rowAt (w_db v) (DlvID item) = Some row" "\<not> sql_fails (de_sql E)"
  shows "\<exists>v'. processDelivery cfg sp E item v = Some v' \<and>
    map_option state (rowAt (w_db v') (DlvID item)) = Some StatePermFail \<and> wire v' = wire v \<and> contacts v' = contacts v"
proof -
  define u where "u = \<lparr>u_state = StatePermFail, u_mxHostname = ''spool_read_error'', u_mxIP = [],
    u_error = readErrorText (de_errno E) e, u_code = 0, u_message = [], u_next = zeroTime\<rparr>"
  obtain d' where d': "UpdateDeliveryState (de_sql E) (de_updateNow E) (DlvID item) u (w_db v) = (None, d')"
    using assms(3) by (simp add: UpdateDeliveryState_def)
  have "processDelivery cfg sp E item v = Some (updateDelivery E item u v)"
    by (simp add: processDelivery_def assms(1) updateDeliveryFailed_def u_def)
  then show ?thesis
    using rowAt_Update [OF d', of "DlvID item"] assms(2) d' by (simp add: u_def)
qed

end
