(* ===== verification/DaemonRun.thy ===== *)
theory DaemonRun
  imports SystemLaws
begin

text \<open>
  \<open>cmd/outbound/main.go\<close>: the life of the daemon. A process runs sessions and background workers until
  it is told to stop, and the machine it runs on starts it again, after a shutdown or a crash, on
  the disk it left. What a crash in the middle of an operation leaves on the disk is what the
  operation leaves when every later call fails, so it needs no step of its own. The calls of the
  manager of certificates that do not exist are taken as the ones it has: \<open>StartWatcher\<close> starts its loop,
  and closing \<open>stopTLS\<close> ends it.
\<close>

section \<open>The process\<close>

record 'c process =
  pr_daemon :: "'c daemon"
  pr_stopTLS :: bool
  pr_stopSpool :: bool
  pr_stopRateLimit :: bool
  pr_healthServing :: bool
  pr_redisOpen :: bool
  pr_returned :: "bool list"
  pr_log :: zerolog

text \<open>Before the components are made, Redis is pinged: that it does not answer is only logged.\<close>

definition redisPing :: "string option \<Rightarrow> Logger \<Rightarrow> zerolog \<Rightarrow> zerolog" where
  "redisPing err log =
     (case err of
        Some e \<Rightarrow> Warnf ''Redis connection failed (will use fallback): %v'' [e] log
      | None \<Rightarrow> Info ''Redis connected successfully'' log)"

text \<open>
  The goroutine of the web server, with the error its call returns: none while it serves, and
  \<open>http.ErrServerClosed\<close> after a shutdown.
\<close>

datatype serve_error = ErrServerClosed | ServeError string

definition serveHealth :: "string \<Rightarrow> serve_error option \<Rightarrow> Logger \<Rightarrow> zerolog \<Rightarrow> zerolog" where
  "serveHealth listen err log z =
     (let z1 = Infof ''Starting health/metrics server on %s'' [listen] log z
      in case err of
           Some (ServeError e) \<Rightarrow> Errorf ''Health server error: %v'' [e] log z1
         | _ \<Rightarrow> z1)"

text \<open>
  The goroutine of a listener, before and after its call, which returns only when it fails or when the server
  is closed, which nobody does. The daemon goes on without the listener.
\<close>

definition logListener :: "Logger \<Rightarrow> ListenerConfig \<Rightarrow> zerolog \<Rightarrow> zerolog" where
  "logListener log l = Infof ''Starting SMTP server on %s (mode: %s)'' [listenAddr l, lsn_Mode l] log"

definition listenerReturned :: "nat \<Rightarrow> string option \<Rightarrow> 'c process \<Rightarrow> 'c process" where
  "listenerReturned k err p =
     (let ls = smtp_Listeners (cfg_SMTP (dm_config (pr_daemon p)))
      in if k < length ls \<and> \<not> pr_returned p ! k then
           p\<lparr>pr_returned := (pr_returned p)[k := True],
             pr_log := (case err of
                 None \<Rightarrow> pr_log p
               | Some e \<Rightarrow> Errorf ''SMTP server error on %s: %v'' [listenAddr (ls ! k), e] (dm_logger (pr_daemon p)) (pr_log p))\<rparr>
         else p)"

definition startProcess ::
  "string option \<Rightarrow> serve_error option \<Rightarrow> 'c daemon \<Rightarrow> zerolog \<Rightarrow> 'c process" where
  "startProcess pingErr serveErr dm z =
     (let log = dm_logger dm; obs = cfg_Observability (dm_config dm);
          z0 = snd (NewLogger (obs_LogLevel obs) (obs_LogFormat obs) z);
          ls = smtp_Listeners (cfg_SMTP (dm_config dm));
          z1 = serveHealth (obs_HealthListen obs) serveErr log (redisPing pingErr log z0)
      in \<lparr>pr_daemon = dm, pr_stopTLS = False, pr_stopSpool = False, pr_stopRateLimit = False,
          pr_healthServing = (serveErr = None), pr_redisOpen = True,
          pr_returned = replicate (length ls) False, pr_log = fold (logListener log) ls z1\<rparr>)"

text \<open>What the listeners are doing: the call each is in, unless it has returned.\<close>

definition servingListeners ::
  "'c process \<Rightarrow> 'c TLSServerConfig SMTPServer \<Rightarrow> (listen_call \<times> 'c TLSServerConfig SMTPServer) option list" where
  "servingListeners p s0 =
     map2 (\<lambda>returned run. if returned then None else Some run) (pr_returned p) (serveListeners (pr_daemon p) s0)"

text \<open>The answer to \<open>/readyz\<close>: none when the web server does not run.\<close>

definition readyReply :: "'c process \<Rightarrow> (int \<times> string) option" where
  "readyReply p = (if pr_healthServing p then Some (readyz (GetCertCount (dm_tls (pr_daemon p)))) else None)"

text \<open>
  After the signal: the background workers are stopped, then the web server and the connection to
  Redis are closed. The SMTP servers are not: they accept mail until the process ends.
\<close>

definition shutdownDaemon :: "string \<Rightarrow> string option \<Rightarrow> string option \<Rightarrow> 'c process \<Rightarrow> 'c process" where
  "shutdownDaemon sig healthErr redisErr p =
     (let log = dm_logger (pr_daemon p);
          z1 = Infof ''Received signal %s, shutting down gracefully...'' [sig] log (pr_log p);
          z2 = (case healthErr of None \<Rightarrow> z1 | Some e \<Rightarrow> Errorf ''Health server shutdown error: %v'' [e] log z1);
          z3 = (case redisErr of None \<Rightarrow> z2 | Some e \<Rightarrow> Errorf ''Redis close error: %v'' [e] log z2)
      in p\<lparr>pr_stopTLS := True, pr_stopSpool := True, pr_stopRateLimit := True, pr_healthServing := False,
           pr_redisOpen := False, pr_log := Info ''Shutdown complete'' log z3\<rparr>)"

section \<open>The machine it runs on\<close>

record ('c, 'r) machine =
  mc_proc :: "'c process option"
  mc_world :: "'r sworld"

text \<open>
  What happens: a session hands a message over (any session, in any state), a worker has a tick, the server
  of a listener stops, a signal arrives, the process ends (after its shutdown, or by a crash), and it is
  started. These are all the goroutines of the daemon: it starts no worker that moves messages or delivers.
\<close>

datatype machine_event =
    SessionData call_env string reader Session
  | SpoolTick os_faults time
  | LimiterTick time
  | CertEvent watch_event
  | ListenReturns nat "string option"
  | Signal string "string option" "string option"
  | ProcessEnds
  | ProcessStarts os_faults "string option" "serve_error option"

definition machineStep ::
  "'r redis \<Rightarrow> fsnotify_ops \<Rightarrow> 'c daemon_env \<Rightarrow> string \<Rightarrow> ('c, 'r) machine \<Rightarrow> machine_event \<Rightarrow> ('c, 'r) machine" where
  "machineStep R N E path m e =
     (case (e, mc_proc m) of
        (SessionData x i r sess, Some p) \<Rightarrow>
          m\<lparr>mc_world := snd (snd (Data R (dm_backend (pr_daemon p)) x i r sess (mc_world m)))\<rparr>
      | (SpoolTick F now, Some p) \<Rightarrow>
          if pr_stopSpool p then m
          else m\<lparr>mc_world := (mc_world m)\<lparr>disk := Cleanup F (dm_spool (pr_daemon p)) now (disk (mc_world m))\<rparr>\<rparr>
      | (LimiterTick now, Some p) \<Rightarrow>
          if pr_stopRateLimit p then m
          else m\<lparr>mc_world := (mc_world m)\<lparr>limiter := cleanupLocalBuckets now (limiter (mc_world m))\<rparr>\<rparr>
      | (CertEvent ev, Some p) \<Rightarrow>
          if pr_stopTLS p then m
          else
            (case watchStep N (dn_crypto E) (dm_tls (pr_daemon p)) ev of
               None \<Rightarrow> m
             | Some t \<Rightarrow> m\<lparr>mc_proc := Some (p\<lparr>pr_daemon := (pr_daemon p)\<lparr>dm_tls := t\<rparr>\<rparr>)\<rparr>)
      | (ListenReturns k err, Some p) \<Rightarrow> m\<lparr>mc_proc := Some (listenerReturned k err p)\<rparr>
      | (Signal sig h q, Some p) \<Rightarrow> if pr_stopSpool p then m else m\<lparr>mc_proc := Some (shutdownDaemon sig h q p)\<rparr>
      | (ProcessEnds, _) \<Rightarrow> m\<lparr>mc_proc := None\<rparr>
      | (ProcessStarts F pingErr serveErr, None) \<Rightarrow>
          (case startDaemon (E\<lparr>dn_faults := F\<rparr>) path (disk (mc_world m)) of
             None \<Rightarrow> m
           | Some (Inl stop, s') \<Rightarrow> m\<lparr>mc_world := (mc_world m)\<lparr>disk := s'\<rparr>\<rparr>
           | Some (Inr dm, s') \<Rightarrow>
               m\<lparr>mc_proc := Some (startProcess pingErr serveErr dm (dn_zerolog E)),
                 mc_world := (mc_world m)\<lparr>disk := s', limiter := dm_limiter dm, mets := dm_metrics dm\<rparr>\<rparr>)
      | _ \<Rightarrow> m)"

section \<open>What holds of every machine\<close>

definition processOK :: "'c daemon_env \<Rightarrow> string \<Rightarrow> 'c process \<Rightarrow> bool" where
  "processOK E path p \<longleftrightarrow>
     (let dm = pr_daemon p; cfg = dm_config dm
      in Load (dn_read E) (dn_yaml E) (dn_env E) path = Inr cfg \<and>
         dm_spool dm = \<lparr>basePath = spl_BasePath (cfg_Spool cfg), retention = spoolRetention cfg\<rparr> \<and>
         be_config (dm_backend dm) = cfg \<and> be_spool (dm_backend dm) = dm_spool dm \<and> managerOK (dm_tls dm) \<and>
         length (pr_returned p) = length (smtp_Listeners (cfg_SMTP cfg)))"

definition machineInv :: "'c daemon_env \<Rightarrow> string \<Rightarrow> ('c, 'r) machine \<Rightarrow> bool" where
  "machineInv E path m \<longleftrightarrow>
     (case mc_proc m of None \<Rightarrow> True | Some p \<Rightarrow> processOK E path p) \<and> properDisk (disk (mc_world m))"

text \<open>The identifier of a message is made by the daemon and is a file name.\<close>

fun namedEvent :: "machine_event \<Rightarrow> bool" where
  "namedEvent (SessionData x i r sess) \<longleftrightarrow> validID i"
| "namedEvent _ \<longleftrightarrow> True"

lemma startDaemon_OK:
  assumes "startDaemon (E\<lparr>dn_faults := F\<rparr>) path s = Some (Inr dm, s')"
  shows "processOK E path (startProcess pe se dm z)"
proof -
  note D = startDaemon_D [OF assms]
  have "dm_spool dm = \<lparr>basePath = spl_BasePath (cfg_Spool (dm_config dm)), retention = spoolRetention (dm_config dm)\<rparr>"
    using NewSpool_fields [OF D(3)] by (cases "dm_spool dm") simp
  then show ?thesis
    using D startDaemon_tlsOK [OF assms] by (simp add: processOK_def startProcess_def Let_def NewBackend_def)
qed

text \<open>Starting changes no file, whether it succeeds or not.\<close>

lemma initStages_files: "initStages F sp sts s = (r, s') \<Longrightarrow> files s' = files s"
  by (induction sts arbitrary: s) (auto simp: mkdirAll_def split: option.splits prod.splits if_splits)

lemma NewSpool_files: "NewSpool F base ret s = (r, s') \<Longrightarrow> files s' = files s"
  by (auto simp: NewSpool_def initializeSpool_def Let_def dest: initStages_files split: prod.splits option.splits)

lemma startDaemon_files: "startDaemon E path s = Some (r, s') \<Longrightarrow> files s' = files s"
  by (auto simp: startDaemon_def Let_def dest: NewSpool_files split: sum.splits option.splits prod.splits)

lemma fileAt_cong: "files s' = files s \<Longrightarrow> fileAt s' = fileAt s"
  by (rule ext) (simp add: fileAt_def del: map_of_files)

lemma properDisk_cong: "files s' = files s \<Longrightarrow> properDisk s' = properDisk s"
  by (simp add: properDisk_def fileAt_def del: map_of_files)

text \<open>The names of the files of a message.\<close>

lemma baseOf_message:
  assumes "validID m"
  shows "properName (baseOf (stagePath sp st m))" "properName (baseOf (stagePath sp st m @ ''.tmp''))"
proof -
  have "stagePath sp st m @ ''.tmp'' = stageDir sp st @ slash # (m @ ''.eml.tmp'')"
    using assms by (simp add: stagePath_eq)
  moreover have "properName (m @ ''.eml.tmp'')" using assms by (cases m) auto
  ultimately show "properName (baseOf (stagePath sp st m))" "properName (baseOf (stagePath sp st m @ ''.tmp''))"
    using assms properName_eml [OF assms] by (simp_all add: stagePath_eq baseOf_file)
qed

lemma properDisk_Write:
  assumes "Write F sp now m d s = (r, s')" "validID m" "properDisk s"
  shows "properDisk s'"
  unfolding properDisk_def
proof (intro allI impI)
  fix p
  assume p: "fileAt s' p \<noteq> None"
  show "properName (baseOf p)"
  proof (cases "p \<in> {stagePath sp StageTmp m, stagePath sp StageTmp m @ ''.tmp'', stagePath sp StageIncoming m}")
    case True
    then show ?thesis using baseOf_message [OF assms(2)] by auto
  next
    case False
    then have "fileAt s' p = fileAt s p" using Write_frame [OF assms(1,2), of p] by simp
    then show ?thesis using p assms(3) by (simp add: properDisk_def)
  qed
qed

lemma properDisk_Data:
  assumes "Data R b x i r sess w = (e, sess', w')" "validID i" "properDisk (disk w)"
  shows "properDisk (disk w')"
  using Data_D [OF assms(1)] properDisk_Write [OF _ assms(2,3)] assms(3) by metis

lemma properDisk_Cleanup: "properDisk s \<Longrightarrow> properDisk (Cleanup F sp now s)"
proof -
  assume s: "properDisk s"
  show ?thesis
  proof (rule properDisk_subset [OF s])
    fix p
    from Cleanup_file [OF s, of F sp now p]
    show "fileAt (Cleanup F sp now s) p = fileAt s p \<or> fileAt (Cleanup F sp now s) p = None"
      by (elim disjE conjE) simp_all
  qed
qed

lemma machineStep_inv:
  assumes "namedEvent e" "machineInv E path m"
  shows "machineInv E path (machineStep R N E path m e)"
proof (cases "mc_proc m")
  case None
  have "properDisk s'" if "startDaemon (E\<lparr>dn_faults := F\<rparr>) path (disk (mc_world m)) = Some (r, s')" for F r s'
    using properDisk_cong [OF startDaemon_files [OF that]] assms(2) by (simp add: machineInv_def)
  then show ?thesis
    using assms(2) None startDaemon_OK
    by (auto simp: machineInv_def machineStep_def split: machine_event.split option.split sum.split)
next
  case (Some p)
  have data: "properDisk (disk (snd (snd (Data R b x i r sess (mc_world m)))))" if "validID i" for b x i r sess
    using that assms(2) properDisk_Data by (metis machineInv_def prod.collapse)
  have tls: "processOK E path (p\<lparr>pr_daemon := (pr_daemon p)\<lparr>dm_tls := t\<rparr>\<rparr>)"
    if "watchStep N (dn_crypto E) (dm_tls (pr_daemon p)) ev = Some t" for ev t
    using assms(2) Some watchStep_OK [OF that] by (simp add: machineInv_def processOK_def Let_def)
  show ?thesis
    using assms Some data tls properDisk_Cleanup [of "disk (mc_world m)"]
    by (auto simp: machineInv_def machineStep_def processOK_def Let_def shutdownDaemon_def listenerReturned_def
        split: machine_event.split option.split)
qed

interpretation daemon_machine: step_system
  "\<lambda>m. mc_proc m = None \<and> properDisk (disk (mc_world m))"
  "\<lambda>m m'. \<exists>e. namedEvent e \<and> m' = machineStep R N E path m e" "machineInv E path"
  for R N E path
proof unfold_locales
  show "mc_proc m = None \<and> properDisk (disk (mc_world m)) \<Longrightarrow> machineInv E path m" for m
    by (simp add: machineInv_def)
  show "\<exists>e. namedEvent e \<and> m' = machineStep R N E path m e \<Longrightarrow> machineInv E path m \<Longrightarrow> machineInv E path m'" for m m'
    using machineStep_inv by blast
qed

text \<open>A process that can be reached from a machine without one, on a proper disk.\<close>

lemma machine_process:
  assumes "mc_proc m0 = None" "properDisk (disk (mc_world m0))" "list_all namedEvent es"
    and "run (machineStep R N E path) m0 es = m" "mc_proc m = Some p"
  shows "machineInv E path m" "processOK E path p"
proof -
  show inv: "machineInv E path m"
    using daemon_machine.reachable_inv [OF _ run_steps [OF assms(3)]] assms(1,2,4) by blast
  show "processOK E path p" using inv assms(5) by (simp add: machineInv_def)
qed

section \<open>The listeners\<close>

text \<open>A listener whose call has returned had the event of it.\<close>

definition returnedBy :: "machine_event list \<Rightarrow> ('c, 'r) machine \<Rightarrow> bool" where
  "returnedBy es m \<longleftrightarrow>
     (case mc_proc m of
        None \<Rightarrow> True
      | Some p \<Rightarrow> \<forall>k < length (pr_returned p). pr_returned p ! k \<longrightarrow> (\<exists>err. ListenReturns k err \<in> set es))"

lemma returnedBy_step:
  assumes "returnedBy es m"
  shows "returnedBy (es @ [e]) (machineStep R N E path m e)"
  using assms
  by (cases "mc_proc m"; cases e)
    (auto simp: returnedBy_def machineStep_def listenerReturned_def startProcess_def shutdownDaemon_def Let_def
      split: option.split sum.split if_splits, metis nth_list_update_neq)

lemma returnedBy_run:
  assumes "mc_proc m0 = None"
  shows "returnedBy es (run (machineStep R N E path) m0 es)"
proof (induction es rule: rev_induct)
  case Nil
  then show ?case using assms by (simp add: returnedBy_def)
next
  case (snoc e es)
  then show ?case using returnedBy_step by (simp add: run_append)
qed

section \<open>A message in the spool\<close>

text \<open>
  What can happen while a message with the identifier \<open>i\<close>, written at \<open>t\<close>, is to stay: anything, but that
  another message has its identifier, or that the clean-up comes when it has expired.
\<close>

fun keepsMessage :: "string \<Rightarrow> time \<Rightarrow> duration \<Rightarrow> machine_event \<Rightarrow> bool" where
  "keepsMessage i t ret (SessionData x k r sess) \<longleftrightarrow> validID k \<and> k \<noteq> i"
| "keepsMessage i t ret (SpoolTick F now) \<longleftrightarrow> timeSub now t \<le> ret"
| "keepsMessage i t ret _ \<longleftrightarrow> True"

lemma keepsMessage_named: "keepsMessage i t ret e \<Longrightarrow> namedEvent e"
  by (cases e) auto

lemma stagePath_base: "basePath sp = basePath sp' \<Longrightarrow> stagePath sp st m = stagePath sp' st m"
  by (simp add: stagePath_def stageDir_def)

lemma Data_keeps:
  assumes "Data R b x k r sess w = (e, sess', w')" "validID k" "validID i" "k \<noteq> i"
  shows "fileAt (disk w') (stagePath (be_spool b) st i) = fileAt (disk w) (stagePath (be_spool b) st i)"
  using Data_D [OF assms(1)] Write_frame [OF _ assms(2), of _ _ _ _ _ _ _ "stagePath (be_spool b) st i"] assms(2-4)
  by (metis stagePath_inj tmp_not_stagePath(2))

lemma Data_stage:
  assumes "Data R b x k r sess w = (e, sess', w')" "validID k" "validID i" "st \<noteq> StageTmp" "st \<noteq> StageIncoming"
  shows "fileAt (disk w') (stagePath (be_spool b) st i) = fileAt (disk w) (stagePath (be_spool b) st i)"
  using Data_D [OF assms(1)] Write_frame [OF _ assms(2), of _ _ _ _ _ _ _ "stagePath (be_spool b) st i"] assms(2-5)
  by (metis stagePath_inj tmp_not_stagePath(2))

lemma machineStep_keeps:
  assumes inv: "machineInv E path m" and cfg: "Load (dn_read E) (dn_yaml E) (dn_env E) path = Inr cfg"
    and sp: "sp = \<lparr>basePath = spl_BasePath (cfg_Spool cfg), retention = spoolRetention cfg\<rparr>"
    and i: "validID i" and e: "keepsMessage i (mtime n) (ret_Incoming (spl_Retention (cfg_Spool cfg))) e"
    and at: "fileAt (disk (mc_world m)) (stagePath sp StageIncoming i) = Some n"
  shows "fileAt (disk (mc_world (machineStep R N E path m e))) (stagePath sp StageIncoming i) = Some n"
proof (cases "mc_proc m")
  case None
  have "fileAt s' = fileAt (disk (mc_world m))"
    if "startDaemon (E\<lparr>dn_faults := F\<rparr>) path (disk (mc_world m)) = Some (r, s')" for F r s'
    using fileAt_cong startDaemon_files [OF that] .
  then show ?thesis
    using at None by (auto simp: machineStep_def split: machine_event.split option.split sum.split)
next
  case (Some p)
  have p: "dm_spool (pr_daemon p) = sp" "be_spool (dm_backend (pr_daemon p)) = sp" "properDisk (disk (mc_world m))"
    using inv cfg Some by (auto simp: machineInv_def processOK_def Let_def sp)
  have data: "fileAt (disk (snd (snd (Data R (dm_backend (pr_daemon p)) x k r sess (mc_world m)))))
      (stagePath sp StageIncoming i) = Some n" if "validID k" "k \<noteq> i" for x k r sess
    using Data_keeps [OF _ that(1) i that(2), where R = R and b = "dm_backend (pr_daemon p)" and st = StageIncoming] at p(2)
    by (metis prod.collapse)
  have clean: "fileAt (Cleanup F sp now (disk (mc_world m))) (stagePath sp StageIncoming i) = Some n"
    if "timeSub now (mtime n) \<le> ret_Incoming (spl_Retention (cfg_Spool cfg))" for F now
    using Cleanup_keeps_incoming [OF p(3) i _ at that] by (simp add: sp)
  show ?thesis
    using e Some at p(1) data clean
    by (auto simp: machineStep_def split: machine_event.split option.split)
qed

lemma machineRun_keeps:
  assumes "machineInv E path m" "Load (dn_read E) (dn_yaml E) (dn_env E) path = Inr cfg"
    and "sp = \<lparr>basePath = spl_BasePath (cfg_Spool cfg), retention = spoolRetention cfg\<rparr>" "validID i"
    and "list_all (keepsMessage i (mtime n) (ret_Incoming (spl_Retention (cfg_Spool cfg)))) es"
    and "fileAt (disk (mc_world m)) (stagePath sp StageIncoming i) = Some n"
  shows "fileAt (disk (mc_world (run (machineStep R N E path) m es))) (stagePath sp StageIncoming i) = Some n"
  using assms(1,5,6)
proof (induction es arbitrary: m)
  case (Cons e es)
  have "machineInv E path (machineStep R N E path m e)"
    using Cons.prems(1,2) by (auto intro: machineStep_inv keepsMessage_named)
  moreover have "fileAt (disk (mc_world (machineStep R N E path m e))) (stagePath sp StageIncoming i) = Some n"
    using machineStep_keeps [OF Cons.prems(1) assms(2-4)] Cons.prems(2,3) by simp
  ultimately show ?case using Cons.IH Cons.prems(2) by simp
qed simp

text \<open>Sessions write to \<open>tmp\<close> and \<open>incoming\<close> only, and nothing else makes a file: the other stages stay empty.\<close>

lemma machineStep_unmoved:
  assumes inv: "machineInv E path m" and cfg: "Load (dn_read E) (dn_yaml E) (dn_env E) path = Inr cfg"
    and sp: "sp = \<lparr>basePath = spl_BasePath (cfg_Spool cfg), retention = spoolRetention cfg\<rparr>"
    and i: "validID i" and e: "namedEvent e" and st: "st \<noteq> StageTmp" "st \<noteq> StageIncoming"
    and at: "fileAt (disk (mc_world m)) (stagePath sp st i) = None"
  shows "fileAt (disk (mc_world (machineStep R N E path m e))) (stagePath sp st i) = None"
proof (cases "mc_proc m")
  case None
  have "fileAt s' = fileAt (disk (mc_world m))"
    if "startDaemon (E\<lparr>dn_faults := F\<rparr>) path (disk (mc_world m)) = Some (r, s')" for F r s'
    using fileAt_cong startDaemon_files [OF that] .
  then show ?thesis
    using at None by (auto simp: machineStep_def split: machine_event.split option.split sum.split)
next
  case (Some p)
  have p: "dm_spool (pr_daemon p) = sp" "be_spool (dm_backend (pr_daemon p)) = sp" "properDisk (disk (mc_world m))"
    using inv cfg Some by (auto simp: machineInv_def processOK_def Let_def sp)
  have data: "fileAt (disk (snd (snd (Data R (dm_backend (pr_daemon p)) x k r sess (mc_world m))))) (stagePath sp st i) = None"
    if "validID k" for x k r sess
    using Data_stage [OF _ that i st, where R = R and b = "dm_backend (pr_daemon p)"] at p(2) by (metis prod.collapse)
  have clean: "fileAt (Cleanup F sp now (disk (mc_world m))) (stagePath sp st i) = None" for F now
    using Cleanup_file [OF p(3), of F sp now "stagePath sp st i"] at by auto
  show ?thesis
    using e Some at p(1) data clean
    by (auto simp: machineStep_def split: machine_event.split option.split)
qed

lemma machineRun_unmoved:
  assumes "machineInv E path m" "Load (dn_read E) (dn_yaml E) (dn_env E) path = Inr cfg"
    and "sp = \<lparr>basePath = spl_BasePath (cfg_Spool cfg), retention = spoolRetention cfg\<rparr>" "validID i"
    and "list_all namedEvent es" "st \<noteq> StageTmp" "st \<noteq> StageIncoming"
    and "fileAt (disk (mc_world m)) (stagePath sp st i) = None"
  shows "fileAt (disk (mc_world (run (machineStep R N E path) m es))) (stagePath sp st i) = None"
  using assms(1,5,8)
proof (induction es arbitrary: m)
  case (Cons e es)
  have "machineInv E path (machineStep R N E path m e)"
    using Cons.prems(1,2) by (auto intro: machineStep_inv)
  moreover have "fileAt (disk (mc_world (machineStep R N E path m e))) (stagePath sp st i) = None"
    using machineStep_unmoved [OF Cons.prems(1) assms(2-4) _ assms(6,7)] Cons.prems(2,3) by simp
  ultimately show ?case using Cons.IH Cons.prems(2) by simp
qed simp

text \<open>What a session of a running daemon accepted is in the spool as the client sent it.\<close>

lemma accepted_inode:
  assumes "machineInv E path m" "mc_proc m = Some p"
    and "Data R (dm_backend (pr_daemon p)) (F, t) i r sess w = (None, sess', w')" "validID i"
    and "smtp_MaxMessageSize (cfg_SMTP (dm_config (pr_daemon p))) < MaxInt64"
  shows "fileAt (disk w') (stagePath (dm_spool (pr_daemon p)) StageIncoming i) = Some \<lparr>idata = fst r, mtime = t\<rparr>"
proof -
  have p: "configOK (dm_config (pr_daemon p))" "be_config (dm_backend (pr_daemon p)) = dm_config (pr_daemon p)"
    "be_spool (dm_backend (pr_daemon p)) = dm_spool (pr_daemon p)"
    using assms(1,2) Load_OK by (auto simp: machineInv_def processOK_def Let_def)
  obtain buf where buf: "readLimited (wrap64 (smtp_MaxMessageSize (cfg_SMTP (dm_config (pr_daemon p))) + 1)) r = (buf, False)"
    "int (length buf) \<le> smtp_MaxMessageSize (cfg_SMTP (dm_config (pr_daemon p)))"
    "Write F (dm_spool (pr_daemon p)) t i buf (disk w) = (None, disk w')"
    using Data_success [OF assms(3)] p by auto
  have "r = (buf, False)"
    using readLimited_whole [OF _ _ buf(1,2)] p(1) assms(5) by (simp add: configOK_def)
  then show ?thesis using Write_inode [OF buf(3) assms(4)] by simp
qed

end
