(* ===== verification/Spec2Isabelle.thy ===== *)
theory Spec2Isabelle
  imports LimitProperties SessionProperties AuthProperties PoolProperties MessageProperties
    Dedup TlsProperties Database DaemonRun
begin

text \<open>
  A verification of the SMTP submission daemon (Go, \<open>cmd/outbound\<close> and \<open>internal/\<close>): it accepts mail
  from authenticated clients, keeps it in a spool of stages and delivers it.

  \<^bold>\<open>The program.\<close> \<open>main\<close> loads the configuration, creates the components and runs one SMTP server per
  configured listener. For each connection the backend opens a session: it checks the rate limits,
  authenticates the client by its address or with its password in Redis, and \<open>Data\<close> writes the
  message to the stage \<open>incoming\<close> of the spool. Delivery workers take pending rows of a queue in SQLite,
  read the message from the spool, send it to the server of the recipient, and record the outcome.
  Beside them: the parser of messages, deduplication by hash in Redis, the certificates of the
  listeners, metrics, the buffered events for ClickHouse, and the logger.

  \<^bold>\<open>Conventions\<close> (\<open>Prelude\<close>). A Go string or byte slice is a list of characters, one per byte. \<open>int\<close> and
  \<open>int64\<close> are integers whose arithmetic wraps by \<open>wrap64\<close> where it can overflow; a time is the number
  of nanoseconds since 1970, a duration a number of nanoseconds. Hashes and addresses are words. An
  error is a value of a datatype, \<open>None\<close> in the result of a step a panic or a call that does not
  return. State is passed explicitly, in records that a component extends with its own fields.
  Identifiers the code draws at random, and the times at which it reads the clock, are arguments.
  Operations under a mutex are one step; operations in several steps are interleaved where it matters.

  \<^bold>\<open>Theories\<close>, in the order of their imports, with the files they model.
  \<^item> \<open>Prelude\<close>: integers, time, collections of rules, and the locales \<open>step_system\<close> and \<open>event_system\<close>
    of state machines with an invariant, which the sessions, the queue, the ClickHouse client, the
    connection counter and the certificate watcher instantiate.
  \<^item> \<open>GoStrings\<close>, \<open>FilePath\<close>, \<open>FileSystem\<close>, \<open>GoHex\<close>, \<open>GoJson\<close>, \<open>GoTime\<close>, \<open>GoMail\<close>, \<open>GoSha256\<close>, \<open>IPAddr\<close>: what
    the program uses of Go's standard library. The file system is a disk of named inodes whose calls
    can each fail, as \<open>os_faults\<close> says, and a write can stop at any byte.
  \<^item> \<open>Metrics\<close>: \<open>internal/metrics/metrics.go\<close>, the table of collectors and every recording method.
  \<^item> \<open>Spool\<close> (\<open>internal/spool/spool.go\<close>), with \<open>SpoolLaws\<close> (what each operation does on every branch, and
    every state the disk goes through), \<open>SpoolStore\<close> (the interface \<open>message_store\<close> of the spool and its
    interpretation), \<open>SpoolHousekeeping\<close> and \<open>SpoolLifecycle\<close> (listing, clean-up, creation),
    \<open>SpoolRefinement\<close> (the spool as a table of messages, and that it refines it), \<open>SpoolProperties\<close>.
  \<^item> \<open>RedisClient\<close>: the commands and replies of a Redis server, a parameter.
  \<^item> \<open>RateLimit\<close> (\<open>internal/ratelimit/ratelimit.go\<close>), \<open>RateLimitLaws\<close>, \<open>ConnectionCounter\<close> (check and count
    of connections in any interleaving, the locales \<open>connection_limits\<close> and \<open>bounded_race\<close>),
    \<open>RecipientCounter\<close> (the same for the recipients of a user, which are read and added in two calls of
    Redis; the locales \<open>recipient_limits\<close> and \<open>recipient_race\<close>), \<open>LimitProperties\<close>.
  \<^item> \<open>IPAuth\<close> (\<open>internal/auth/ipauth.go\<close>, and \<open>extractIP\<close> of the session), \<open>RedisAuth\<close>
    (\<open>internal/auth/redis.go\<close>), \<open>ConfigData\<close> and \<open>Config\<close> (\<open>internal/config/config.go\<close>), \<open>AuthProperties\<close>.
  \<^item> \<open>Session\<close>: \<open>internal/smtpserver/backend.go\<close> and \<open>session.go\<close>. \<open>SessionLaws\<close> treats a session as
    a machine whose events are the calls of the SMTP library, in any order; \<open>SessionProperties\<close>.
  \<^item> \<open>Parser\<close> (\<open>internal/parser/parser.go\<close>), \<open>Queue\<close> (\<open>internal/queue/queue.go\<close> and the two tables it uses
    of \<open>internal/db/schema.go\<close>), \<open>MessageProperties\<close>; \<open>Database\<close> (\<open>internal/db/db.go\<close>).
  \<^item> \<open>ClickHouse\<close>: \<open>internal/clickhouse/client.go\<close>, with flushes that overlap the logging, and a \<open>Close\<close> that waits
    for no other goroutine.
  \<^item> \<open>DeliveryWorker\<close> (\<open>internal/delivery/worker.go\<close>), \<open>DeliveryLaws\<close> (one attempt, the locale
    \<open>bounded_attempts\<close> of what is retried a bounded number of times), \<open>DeliveryProperties\<close>;
    \<open>DeliveryPool\<close> (several workers, their steps interleaved: a simulation into the claims of one delivery,
    and the bound on these), \<open>PoolProperties\<close>.
  \<^item> \<open>Dedup\<close> (\<open>internal/dedup/dedup.go\<close>), a refinement of a specification over the list of bodies seen.
  \<^item> \<open>TlsMgr\<close> (\<open>internal/tlsmgr/manager.go\<close>), \<open>TlsProperties\<close>; \<open>Logger\<close> (\<open>internal/logger/logger.go\<close>).
  \<^item> \<open>Daemon\<close> (\<open>cmd/outbound/main.go\<close>: starting, listeners, health checks), \<open>SystemLaws\<close>, and \<open>DaemonRun\<close>
    (the same file: the running process, its shutdown, and the machine that starts it again); this
    theory has the properties of the components together.

  \<^bold>\<open>What is shown.\<close> The spool: writing is atomic under every failure and crash, moves lose nothing,
  clean-up removes exactly what has expired, and all of it refines a table of messages. The limits: bounds on what is let through by the
  counters in memory and in Redis, and on concurrent connections. Sessions: only authenticated
  clients send, an accepted message is in the spool byte for byte, everything is counted once. The
  authenticators: the list of networks and the passwords decide exactly. Queue and workers: a row is what was
  done to its delivery, the pending rows come exactly and in order; a delivery that is due is delivered by the
  next batch when the server accepts it; one worker ends each delivery, and sends it at most once unless a
  server accepts the message and its reply is lost; several attempt it a bounded number of times. Messages: round
  trips through the parser and through the database. Events, certificates, deduplication, metrics and
  configuration: conservation, availability, refinement and typing. Together: as long as a
  daemon runs it serves every listener whose call has not failed, and an accepted message stays in the spool until it expires,
  through shutdowns, crashes and restarts, but is not delivered,
  since no part of the program moves it from \<open>incoming\<close> to a stage the workers read.

  \<^bold>\<open>Parameters\<close> stand for what is not in the repository: the Redis server, the resolver and the remote
  mail servers, the faults of SQLite and of the system calls, the YAML decoder, X.509 and PEM decoding,
  the events of fsnotify, and of Go's \<open>net/mail\<close> the parsers of address lists and dates. What a
  property needs of them is a hypothesis, satisfied by a concrete instance in its witness.

  \<^bold>\<open>Bounds.\<close> No definition has fuel. Loops are recursions with a measure, except the one over the PEM
  blocks of a file (\<open>findCertificate\<close>), which has no bound in the code and can fail to return; that
  loading returns is a theorem (\<open>loading_ends\<close>). Loops that run until they are stopped take the
  sequence of their turns as an argument. The bound of \<open>n (n + 3) / 2\<close> in the attempts of \<open>n\<close> workers is
  explained at \<open>claimBound\<close>.

  \<^bold>\<open>Departures.\<close> Three calls of the source do not compile: a missing argument in \<open>processDelivery\<close>
  (taken to be empty), and in \<open>main\<close> the calls of \<open>tlsmgr\<close> and of \<open>ListenAndServeTLS\<close>, for which the operations
  these packages have for the purpose are taken. \<open>strings.ToLower\<close> is that of ASCII letters. JSON
  numbers, objects and escapes beyond what a list of strings needs are not treated.

  \<^bold>\<open>Not modelled:\<close> what the web server and the SMTP server do between their calls of the handlers, both
  being libraries. The tables of the schema no code uses; the text zerolog writes; the test scripts, the
  deployment files and the documentation.
\<close>

section \<open>A daemon for the instances\<close>

definition sysConfig :: Config where
  "sysConfig = DefaultConfig\<lparr>cfg_TLS := (cfg_TLS DefaultConfig)\<lparr>tls_CertsDir := ''/c''\<rparr>,
     cfg_Spool := (cfg_Spool DefaultConfig)\<lparr>spl_BasePath := ''/q''\<rparr>\<rparr>"

definition sysEnv :: "bytes daemon_env" where
  "sysEnv = \<lparr>dn_read = (\<lambda>_. Some []), dn_yaml = (\<lambda>_ _. Some sysConfig), dn_env = (\<lambda>_. []), dn_registry = [],
     dn_zerolog = \<lparr>zl_level = DebugLevel, zl_console = False, zl_global = \<lparr>logContext = []\<rparr>, zl_events = [],
       zl_exited = False\<rparr>,
     dn_faults = no_faults, dn_crypto = demoCrypto, dn_watcherFails = False, dn_addFails = False\<rparr>"

definition sysSpool :: Spool where
  "sysSpool = \<lparr>basePath = ''/q'', retention = spoolRetention sysConfig\<rparr>"

definition sysDisk :: fs where
  "sysDisk = snd (NewSpool no_faults ''/q'' (spoolRetention sysConfig) demoCerts)"

lemma sys_Load: "Load (dn_read sysEnv) (dn_yaml sysEnv) (dn_env sysEnv) ''f'' = Inr sysConfig"
  by (simp add: Load_def sysEnv_def applyEnvOverrides_def envSet_def sysConfig_def DefaultConfig_def
      Validate_def Let_def)

lemma sys_NewSpool: "NewSpool no_faults ''/q'' (spoolRetention sysConfig) demoCerts = (Inr sysSpool, sysDisk)"
proof -
  have "fst (initializeSpool no_faults sysSpool demoCerts) = None" by code_simp
  then show ?thesis
    by (auto simp: sysDisk_def NewSpool_def Let_def sysSpool_def split: prod.splits option.splits)
qed

lemma sys_start: "\<exists>dm. startDaemon sysEnv ''f'' demoCerts = Some (Inr dm, sysDisk) \<and>
  dm_config dm = sysConfig \<and> dm_spool dm = sysSpool \<and> dm_tls dm = demoManager \<and>
  dm_backend dm = NewBackend sysConfig sysSpool None"
proof -
  have cfg: "tls_CertsDir (cfg_TLS sysConfig) = ''/c''" "tls_MinVersion (cfg_TLS sysConfig) = ''1.2''"
    "spl_BasePath (cfg_Spool sysConfig) = ''/q''" "red_Addresses (cfg_Redis sysConfig) = [''localhost:6379'']"
    "ipallow_Enabled (auth_IPAllowlist (cfg_Auth sysConfig)) = False"
    by (simp_all add: sysConfig_def DefaultConfig_def)
  have e: "dn_faults sysEnv = no_faults" "dn_crypto sysEnv = demoCrypto" "dn_watcherFails sysEnv = False"
    "dn_addFails sysEnv = False" "dn_registry sysEnv = []"
    by (simp_all add: sysEnv_def)
  have tm: "daemonTLS sysEnv sysConfig demoCerts = Some (Inr demoManager, True)"
    using demo_New by (simp add: daemonTLS_def cfg e ParseTLSVersion_def)
  have "\<exists>ro. redisOptions sysConfig = Some ro" by (simp add: redisOptions_def Let_def cfg)
  then obtain ro where ro: "redisOptions sysConfig = Some ro" by blast
  have ip: "daemonIPAuth sysConfig = Inr None" by (simp add: daemonIPAuth_def Let_def cfg)
  show ?thesis
    by (simp add: startDaemon_def sys_Load NewLogger_def Let_def NewMetrics_fresh ro tm cfg e sys_NewSpool ip)
qed

section \<open>Properties\<close>

text \<open>A daemon that has started serves every listener of its configuration: each is run in its mode; exactly
  the plaintext ones offer no TLS, the others have a certificate for every client; and the daemon
  reports that it is ready.\<close>

theorem daemon_listens:
  assumes "startDaemon E path s = Some (Inr dm, s')"
  shows "list_all2 (\<lambda>l (call, srv).
       call = (if lsn_Mode l = ''implicit_tls'' then ListenAndServeTLS (listenAddr l) else ListenAndServe (listenAddr l)) \<and>
       0 < sv_MaxMessageBytes srv \<and>
       (case sv_TLSConfig srv of
          None \<Rightarrow> lsn_Mode l = ''plaintext''
        | Some tc \<Rightarrow> lsn_Mode l \<noteq> ''plaintext'' \<and> (\<exists>cert. tc_GetCertificate tc it serverName = Inr cert)))
      (smtp_Listeners (cfg_SMTP (dm_config dm))) (serveListeners dm s0) \<and>
    smtp_Listeners (cfg_SMTP (dm_config dm)) \<noteq> [] \<and> readyz (GetCertCount (dm_tls dm)) = (200, ''Ready'')"
  using listeners_served [OF Load_OK [OF startDaemon_D(1) [OF assms]] startDaemon_tlsOK [OF assms]] .

theorem daemon_listens_witness:
  "\<exists>dm. startDaemon sysEnv ''f'' demoCerts = Some (Inr dm, sysDisk) \<and> (\<forall>s0. length (serveListeners dm s0) = 1) \<and>
     readyz (GetCertCount (dm_tls dm)) = (200, ''Ready'')"
proof -
  obtain dm where dm: "startDaemon sysEnv ''f'' demoCerts = Some (Inr dm, sysDisk)" "dm_config dm = sysConfig"
    using sys_start by blast
  have "length (smtp_Listeners (cfg_SMTP sysConfig)) = 1" by (simp add: sysConfig_def DefaultConfig_def)
  with daemon_listens [OF dm(1), of 0 "[]"] list_all2_lengthD [OF conjunct1 [OF daemon_listens [OF dm(1), of 0 "[]"]]] dm
  show ?thesis by auto
qed

text \<open>A message that a session of the daemon accepted stays in the spool: whatever clean-up does, with any
  failing calls, until the message is older than the retention of \<open>incoming\<close> it is read back
  from there byte for byte as the client sent it.\<close>

theorem accepted_kept:
  assumes "startDaemon E path s = Some (Inr dm, s')"
    and "Data R (dm_backend dm) (F, t) i r sess w = (None, sess', w')" "validID i"
    and "smtp_MaxMessageSize (cfg_SMTP (dm_config dm)) < MaxInt64" "properDisk (disk w')"
    and "timeSub now t \<le> ret_Incoming (spl_Retention (cfg_Spool (dm_config dm)))"
  shows "Read no_faults (dm_spool dm) StageIncoming i (Cleanup G (dm_spool dm) now (disk w')) = Inr (fst r)"
proof -
  have ok: "configOK (dm_config dm)" using Load_OK startDaemon_D(1) [OF assms(1)] by blast
  have be: "be_config (dm_backend dm) = dm_config dm" "be_spool (dm_backend dm) = dm_spool dm"
    using startDaemon_D(4) [OF assms(1)] by (simp_all add: NewBackend_def)
  have ret: "retention (dm_spool dm) = spoolRetention (dm_config dm)"
    using NewSpool_fields startDaemon_D(3) [OF assms(1)] by blast
  obtain buf where buf: "readLimited (wrap64 (smtp_MaxMessageSize (cfg_SMTP (dm_config dm)) + 1)) r = (buf, False)"
    "int (length buf) \<le> smtp_MaxMessageSize (cfg_SMTP (dm_config dm))"
    "Write F (dm_spool dm) t i buf (disk w) = (None, disk w')"
    using Data_success [OF assms(2)] be by auto
  have r: "r = (buf, False)"
    using readLimited_whole [OF _ _ buf(1,2)] ok assms(4) by (simp add: configOK_def)
  have "fileAt (Cleanup G (dm_spool dm) now (disk w')) (stagePath (dm_spool dm) StageIncoming i) =
      Some \<lparr>idata = buf, mtime = t\<rparr>"
    using Cleanup_keeps_incoming [OF assms(5,3) ret Write_inode [OF buf(3) assms(3)]] assms(6) by simp
  then show ?thesis by (simp add: Read_no_faults msgAt_def r)
qed

definition sysWritten :: fs where
  "sysWritten = snd (Write no_faults sysSpool 7 ''id'' ''hello'' sysDisk)"

lemma sys_Write: "Write no_faults sysSpool 7 ''id'' ''hello'' sysDisk = (None, sysWritten)"
proof -
  have "fst (Write no_faults sysSpool 7 ''id'' ''hello'' sysDisk) = None" by code_simp
  then show ?thesis by (simp add: sysWritten_def prod_eq_iff)
qed

lemma sys_proper: "properDisk sysWritten"
proof -
  have "list_all (\<lambda>p. properName (baseOf p)) (map fst (files sysWritten))" by code_simp
  then show ?thesis
    by (fastforce simp: properDisk_def list_all_iff fileAt_def simp del: map_of_files dest: map_of_SomeD)
qed

definition sysWorld :: "unit sworld" where
  "sysWorld = \<lparr>rds = (), mets = [], limiter = NewLimiter (limiterLimits sysConfig), disk = sysDisk\<rparr>"

lemma sys_Data: "\<exists>w'. Data (oneRedis ''pw'') (NewBackend sysConfig sysSpool None) (no_faults, 7) ''id''
    (''hello'', False) readySession sysWorld = (None, readySession, w') \<and> disk w' = sysWritten"
proof -
  have s: "sscanfD ''pw'' = None" by (simp add: sscanfD_def parseDigits_def isDigit_def)
  have "CheckUserRecipients (oneRedis ''pw'') ''u'' 1 sysWorld = (None, sysWorld\<lparr>rds := rds sysWorld\<rparr>)"
    using s by (simp add: recipient_defs currentCount_def wrap64_def NewLimiter_def
        limiterLimits_def sysConfig_def DefaultConfig_def sysWorld_def oneRedis_def)
  then show ?thesis
    using sys_Write by (simp add: Data_def readySession_def demoSession_def NewBackend_def sysConfig_def DefaultConfig_def
        readLimited_def wrap64_def Let_def sysWorld_def)
qed

theorem accepted_kept_witness:
  "Read no_faults sysSpool StageIncoming ''id'' (Cleanup no_faults sysSpool Hour sysWritten) = Inr ''hello''"
proof -
  obtain dm where dm: "startDaemon sysEnv ''f'' demoCerts = Some (Inr dm, sysDisk)" "dm_config dm = sysConfig"
    "dm_spool dm = sysSpool" "dm_backend dm = NewBackend sysConfig sysSpool None"
    using sys_start by blast
  obtain w' where w': "Data (oneRedis ''pw'') (dm_backend dm) (no_faults, 7) ''id'' (''hello'', False)
      readySession sysWorld = (None, readySession, w')" "disk w' = sysWritten"
    using sys_Data dm(4) by auto
  have cfg: "smtp_MaxMessageSize (cfg_SMTP sysConfig) < MaxInt64"
    "timeSub Hour 7 \<le> ret_Incoming (spl_Retention (cfg_Spool sysConfig))"
    by (simp_all add: sysConfig_def DefaultConfig_def timeSub_def Hour_def)
  from accepted_kept [OF dm(1) w'(1), of Hour no_faults] show ?thesis
    using cfg sys_proper w'(2) dm by simp
qed

text \<open>C1: A message that the daemon accepted is not lost: whatever happens then, sessions with other messages,
  clean-up with failing calls, shutdowns, crashes and restarts, even ones that fail, it is read back
  from \<open>incoming\<close> byte for byte as the client sent it, until it is older than the retention of that stage. The
  configured maximal size of a message must be below the largest 64-bit integer.\<close>

theorem accepted_durable:
  assumes "mc_proc m0 = None" "properDisk (disk (mc_world m0))" "list_all namedEvent es0"
    and "run (machineStep R N E path) m0 es0 = m" "mc_proc m = Some p"
    and "Data R (dm_backend (pr_daemon p)) (F, t) i r sess (mc_world m) = (None, sess', w')" "validID i"
    and "smtp_MaxMessageSize (cfg_SMTP (dm_config (pr_daemon p))) < MaxInt64"
    and "list_all (keepsMessage i t (ret_Incoming (spl_Retention (cfg_Spool (dm_config (pr_daemon p)))))) es"
  shows "Read no_faults (dm_spool (pr_daemon p)) StageIncoming i
      (disk (mc_world (run (machineStep R N E path) (m\<lparr>mc_world := w'\<rparr>) es))) = Inr (fst r)"
proof -
  note inv = machine_process(1) [OF assms(1-5)] and p = machine_process(2) [OF assms(1-5)]
  have inv': "machineInv E path (m\<lparr>mc_world := w'\<rparr>)"
    using inv properDisk_Data [OF assms(6,7)] by (simp add: machineInv_def)
  have "fileAt (disk w') (stagePath (dm_spool (pr_daemon p)) StageIncoming i) = Some \<lparr>idata = fst r, mtime = t\<rparr>"
    by (rule accepted_inode [OF inv assms(5-8)])
  then have "fileAt (disk (mc_world (run (machineStep R N E path) (m\<lparr>mc_world := w'\<rparr>) es)))
      (stagePath (dm_spool (pr_daemon p)) StageIncoming i) = Some \<lparr>idata = fst r, mtime = t\<rparr>"
    using p assms(7,9) by (intro machineRun_keeps [OF inv']) (simp_all add: processOK_def Let_def)
  then show ?thesis by (simp add: Read_no_faults msgAt_def)
qed

definition sysMachine :: "(bytes, unit) machine" where
  "sysMachine = \<lparr>mc_proc = None, mc_world = sysWorld\<lparr>disk := demoCerts\<rparr>\<rparr>"

definition sysEvents :: "machine_event list" where
  "sysEvents =
     [Signal ''terminated'' None None, SessionData (no_faults, 8) ''id2'' (''bye'', False) readySession,
      ProcessEnds, ProcessStarts no_faults None None, SpoolTick no_faults Hour]"

abbreviation sysStep :: "(bytes, unit) machine \<Rightarrow> machine_event \<Rightarrow> (bytes, unit) machine" where
  "sysStep \<equiv> machineStep (oneRedis ''pw'') \<lparr>fn_Write = 2, fn_Create = 1\<rparr> sysEnv ''f''"

lemma demoCerts_proper: "properDisk demoCerts"
proof -
  have "list_all (\<lambda>p. properName (baseOf p)) (map fst (files demoCerts))" by code_simp
  then show ?thesis
    by (fastforce simp: properDisk_def list_all_iff fileAt_def simp del: map_of_files dest: map_of_SomeD)
qed

theorem accepted_durable_witness:
  "\<exists>m p w'. run sysStep sysMachine [ProcessStarts no_faults None None] = m \<and> mc_proc m = Some p \<and>
     Data (oneRedis ''pw'') (dm_backend (pr_daemon p)) (no_faults, 7) ''id'' (''hello'', False) readySession
       (mc_world m) = (None, readySession, w') \<and>
     Read no_faults sysSpool StageIncoming ''id''
       (disk (mc_world (run sysStep (m\<lparr>mc_world := w'\<rparr>) sysEvents))) = Inr ''hello''"
proof -
  let ?p = "\<lambda>dm. startProcess None None dm (dn_zerolog sysEnv)"
  obtain dm where dm: "startDaemon sysEnv ''f'' demoCerts = Some (Inr dm, sysDisk)" "dm_config dm = sysConfig"
    "dm_spool dm = sysSpool" "dm_backend dm = NewBackend sysConfig sysSpool None"
    using sys_start by blast
  have lim: "dm_limiter dm = NewLimiter (limiterLimits sysConfig)" "dm_metrics dm = []"
    using startDaemon_D [OF dm(1)] dm(2) by simp_all
  have E: "sysEnv\<lparr>dn_faults := no_faults\<rparr> = sysEnv" by (simp add: sysEnv_def)
  have m: "run sysStep sysMachine [ProcessStarts no_faults None None] = \<lparr>mc_proc = Some (?p dm), mc_world = sysWorld\<rparr>"
    using dm(1) lim by (simp add: machineStep_def sysMachine_def E sysWorld_def)
  have pr: "pr_daemon (?p dm) = dm" by (simp add: startProcess_def Let_def)
  obtain w' where w': "Data (oneRedis ''pw'') (dm_backend dm) (no_faults, 7) ''id'' (''hello'', False)
      readySession sysWorld = (None, readySession, w')" "disk w' = sysWritten"
    using sys_Data dm(4) by auto
  have "Read no_faults (dm_spool (pr_daemon (?p dm))) StageIncoming ''id''
      (disk (mc_world (run sysStep (\<lparr>mc_proc = Some (?p dm), mc_world = sysWorld\<rparr>\<lparr>mc_world := w'\<rparr>) sysEvents))) =
      Inr (fst (''hello'', False))"
    by (rule accepted_durable [OF _ _ _ m, where p = "?p dm" and F = no_faults and t = 7 and sess = readySession])
      (use w' demoCerts_proper in \<open>simp_all add: pr dm(2) sysMachine_def sysEvents_def sysConfig_def
        DefaultConfig_def timeSub_def Hour_def\<close>)
  then show ?thesis using m w' pr dm(3) by auto
qed

text \<open>C22: As long as a daemon runs, every listener of its configuration is being served unless its own call has
  returned: whatever has happened on the machine, restarts, certificate files that were changed,
  removed or cannot be read, other listeners that failed, and a shutdown that has begun. It is run in
  its mode; exactly the plaintext ones offer no TLS, and the others have a certificate for every
  client. The web server, as long as it runs, answers that the daemon is ready.\<close>

theorem always_served:
  assumes "mc_proc m0 = None" "properDisk (disk (mc_world m0))" "list_all namedEvent es"
    and "run (machineStep R N E path) m0 es = m" "mc_proc m = Some p"
    and "smtp_Listeners (cfg_SMTP (dm_config (pr_daemon p))) = ls"
  shows "ls \<noteq> [] \<and> length (servingListeners p s0) = length ls \<and>
    list_all (\<lambda>k. case servingListeners p s0 ! k of
        None \<Rightarrow> \<exists>err. ListenReturns k err \<in> set es
      | Some (call, srv) \<Rightarrow>
          call = (if lsn_Mode (ls ! k) = ''implicit_tls'' then ListenAndServeTLS (listenAddr (ls ! k))
                  else ListenAndServe (listenAddr (ls ! k))) \<and>
          0 < sv_MaxMessageBytes srv \<and>
          (case sv_TLSConfig srv of
             None \<Rightarrow> lsn_Mode (ls ! k) = ''plaintext''
           | Some tc \<Rightarrow> lsn_Mode (ls ! k) \<noteq> ''plaintext'' \<and> (\<exists>cert. tc_GetCertificate tc it serverName = Inr cert)))
      [0..<length ls] \<and>
    readyReply p = (if pr_healthServing p then Some (200, ''Ready'') else None)"
proof -
  note p = machine_process(2) [OF assms(1-5)]
  let ?runs = "serveListeners (pr_daemon p) s0"
  have served: "list_all2 (\<lambda>l (call, srv).
       call = (if lsn_Mode l = ''implicit_tls'' then ListenAndServeTLS (listenAddr l) else ListenAndServe (listenAddr l)) \<and>
       0 < sv_MaxMessageBytes srv \<and>
       (case sv_TLSConfig srv of
          None \<Rightarrow> lsn_Mode l = ''plaintext''
        | Some tc \<Rightarrow> lsn_Mode l \<noteq> ''plaintext'' \<and> (\<exists>cert. tc_GetCertificate tc it serverName = Inr cert))) ls ?runs"
    "ls \<noteq> []" "readyz (GetCertCount (dm_tls (pr_daemon p))) = (200, ''Ready'')"
    using listeners_served [of "pr_daemon p" it serverName s0] p Load_OK assms(6) by (auto simp: processOK_def Let_def)
  have len: "length ?runs = length ls" "length (pr_returned p) = length ls"
    using list_all2_lengthD [OF served(1)] p assms(6) by (simp_all add: processOK_def Let_def)
  have ret: "\<exists>err. ListenReturns k err \<in> set es" if "k < length ls" "pr_returned p ! k" for k
    using returnedBy_run [OF assms(1), of es R N E path] assms(4,5) len(2) that by (auto simp: returnedBy_def)
  show ?thesis
    using served len ret list_all2_nthD [OF served(1)]
    by (auto simp: servingListeners_def list_all_iff readyReply_def split: prod.split)
qed

text \<open>The directory of the certificates is emptied while the daemon runs.\<close>

theorem always_served_witness:
  "\<exists>p. mc_proc (run sysStep sysMachine [ProcessStarts no_faults None None,
       CertEvent (WatchFile no_faults (demoCerts\<lparr>files := []\<rparr>) 2 ''/c/a.pem'')]) = Some p \<and>
     (\<forall>s0. list_all (\<lambda>x. x \<noteq> None) (servingListeners p s0) \<and> length (servingListeners p s0) = 1) \<and>
     readyReply p = Some (200, ''Ready'')"
proof -
  let ?es = "[ProcessStarts no_faults None None, CertEvent (WatchFile no_faults (demoCerts\<lparr>files := []\<rparr>) 2 ''/c/a.pem'')]"
  obtain dm where dm: "startDaemon sysEnv ''f'' demoCerts = Some (Inr dm, sysDisk)" "dm_config dm = sysConfig"
    using sys_start by blast
  have E: "sysEnv\<lparr>dn_faults := no_faults\<rparr> = sysEnv" by (simp add: sysEnv_def)
  have "\<exists>p. mc_proc (run sysStep sysMachine ?es) = Some p \<and> dm_config (pr_daemon p) = sysConfig \<and> pr_healthServing p"
    using dm by (auto simp: machineStep_def sysMachine_def E startProcess_def Let_def split: option.split)
  then obtain p where p: "mc_proc (run sysStep sysMachine ?es) = Some p" "dm_config (pr_daemon p) = sysConfig"
    "pr_healthServing p" by blast
  have len: "length (smtp_Listeners (cfg_SMTP sysConfig)) = 1" by (simp add: sysConfig_def DefaultConfig_def)
  have "length (servingListeners p s0) = 1 \<and> servingListeners p s0 ! 0 \<noteq> None \<and> readyReply p = Some (200, ''Ready'')" for s0
    using always_served [OF _ _ _ refl p(1) refl, of s0 0 "[]"] demoCerts_proper len p(2,3)
    by (auto simp: sysMachine_def split: option.splits)
  then have "list_all (\<lambda>x. x \<noteq> None) (servingListeners p s0) \<and> length (servingListeners p s0) = 1 \<and>
      readyReply p = Some (200, ''Ready'')" for s0
    by (auto simp: list_all_length)
  then show ?thesis using p(1) by blast
qed

text \<open>A daemon that cannot listen, for instance because the port is in use, goes on and says that it is ready.\<close>

theorem ready_without_listeners:
  "\<exists>p. mc_proc (run sysStep sysMachine [ProcessStarts no_faults None None,
       ListenReturns 0 (Some ''address already in use'')]) = Some p \<and>
     (\<forall>s0. servingListeners p s0 = [None]) \<and> readyReply p = Some (200, ''Ready'')"
proof -
  obtain dm where dm: "startDaemon sysEnv ''f'' demoCerts = Some (Inr dm, sysDisk)" "dm_config dm = sysConfig"
    "dm_tls dm = demoManager"
    using sys_start by blast
  have E: "sysEnv\<lparr>dn_faults := no_faults\<rparr> = sysEnv" by (simp add: sysEnv_def)
  have len: "length (smtp_Listeners (cfg_SMTP sysConfig)) = 1" by (simp add: sysConfig_def DefaultConfig_def)
  have "readyz (GetCertCount demoManager) = (200, ''Ready'')" using daemon_listens [OF dm(1)] dm(3) by simp
  moreover obtain l where "smtp_Listeners (cfg_SMTP sysConfig) = [l]" using len by (auto simp: length_Suc_conv)
  ultimately show ?thesis
    using dm by (auto simp: machineStep_def sysMachine_def E startProcess_def Let_def listenerReturned_def
        servingListeners_def serveListeners_def readyReply_def)
qed

text \<open>C14: Accepting a message is not delivering it. Whatever happens on the machine of the daemon, sessions that
  accept the message, clean-up, restarts: no message comes from \<open>incoming\<close> to one of the stages the
  workers read, so that a delivery of it by a worker on this spool fails for good at the first
  attempt, without a call to a mail server.\<close>

theorem unmoved_fails:
  assumes "mc_proc m0 = None" "properDisk (disk (mc_world m0))" "list_all namedEvent es"
    and "Load (dn_read E) (dn_yaml E) (dn_env E) path = Inr c" "validID i"
    and "sp = \<lparr>basePath = spl_BasePath (cfg_Spool c), retention = spoolRetention c\<rparr>"
    and "list_all (\<lambda>st. msgAt sp (disk (mc_world m0)) st i = None) [StageSigned, StageModified, StageParsed]"
    and "w_disk v = disk (mc_world (run (machineStep R N E path) m0 es))" "MsgID item = i"
    and "rowAt (w_db v) (DlvID item) = Some row" "\<not> sql_fails (de_sql D)"
  shows "\<exists>v'. processDelivery cfg sp D item v = Some v' \<and>
    map_option state (rowAt (w_db v') (DlvID item)) = Some StatePermFail \<and> wire v' = wire v \<and> contacts v' = contacts v"
proof -
  have inv: "machineInv E path m0" using assms(1,2) by (simp add: machineInv_def)
  have "fileAt (w_disk v) (stagePath sp st i) = None" if "st \<in> {StageSigned, StageModified, StageParsed}" for st
    using machineRun_unmoved [OF inv assms(4,6,5,3), of st R N] assms(7,8) that by (auto simp: msgAt_def)
  then obtain e where "readMessage (de_faults D) sp (MsgID item) (w_disk v) = Inl e"
    using readMessage_none [of "w_disk v" sp i "de_faults D"] assms(9) by blast
  then show ?thesis by (rule unread_fails [OF _ assms(10,11)])
qed

text \<open>The message \<open>id\<close> is accepted by a session of the daemon, and a worker attempts its delivery.\<close>

theorem unmoved_fails_witness:
  "let k = disk (mc_world (run sysStep sysMachine
       [ProcessStarts no_faults None None, SessionData (no_faults, 7) ''id'' (''hello'', False) readySession]));
     v = demoWorld\<lparr>w_disk := k, w_db := \<lparr>deliveries = [demoRow\<lparr>msg_id := ''id''\<rparr>], messages = []\<rparr>\<rparr>
   in Read no_faults sysSpool StageIncoming ''id'' k = Inr ''hello'' \<and>
     (\<exists>v'. processDelivery demoWorker sysSpool (demoEnv acceptingServer sql_ok) (rowToItem (demoRow\<lparr>msg_id := ''id''\<rparr>)) v = Some v' \<and>
       map_option state (rowAt (w_db v') ''k'') = Some StatePermFail \<and> contacts v' = [])"
proof -
  let ?es = "[ProcessStarts no_faults None None, SessionData (no_faults, 7) ''id'' (''hello'', False) readySession]"
  let ?v = "demoWorld\<lparr>w_disk := disk (mc_world (run sysStep sysMachine ?es)),
    w_db := \<lparr>deliveries = [demoRow\<lparr>msg_id := ''id''\<rparr>], messages = []\<rparr>\<rparr>"
  let ?i = "rowToItem (demoRow\<lparr>msg_id := ''id''\<rparr>)"
  obtain dm where dm: "startDaemon sysEnv ''f'' demoCerts = Some (Inr dm, sysDisk)" "dm_config dm = sysConfig"
    "dm_spool dm = sysSpool" "dm_backend dm = NewBackend sysConfig sysSpool None"
    using sys_start by blast
  have lim: "dm_limiter dm = NewLimiter (limiterLimits sysConfig)" "dm_metrics dm = []"
    using startDaemon_D [OF dm(1)] dm(2) by simp_all
  have E: "sysEnv\<lparr>dn_faults := no_faults\<rparr> = sysEnv" by (simp add: sysEnv_def)
  obtain w' where w': "Data (oneRedis ''pw'') (NewBackend sysConfig sysSpool None) (no_faults, 7) ''id'' (''hello'', False)
      readySession sysWorld = (None, readySession, w')" "disk w' = sysWritten"
    using sys_Data by auto
  have k: "disk (mc_world (run sysStep sysMachine ?es)) = sysWritten"
    using dm lim w' by (simp add: machineStep_def sysMachine_def E startProcess_def Let_def sysWorld_def)
  have "fileAt sysWritten (stagePath sysSpool StageIncoming ''id'') = Some \<lparr>idata = ''hello'', mtime = 7\<rparr>"
    by (rule Write_inode [OF sys_Write]) simp
  then have rd: "Read no_faults sysSpool StageIncoming ''id'' sysWritten = Inr ''hello''"
    by (simp add: Read_no_faults msgAt_def)
  have start: "mc_proc sysMachine = None" by (simp add: sysMachine_def)
  have none: "list_all (\<lambda>st. msgAt sysSpool demoCerts st ''id'' = None) [StageSigned, StageModified, StageParsed]"
    by code_simp
  have "\<exists>v'. processDelivery demoWorker sysSpool (demoEnv acceptingServer sql_ok) ?i ?v = Some v' \<and>
      map_option state (rowAt (w_db v') (DlvID ?i)) = Some StatePermFail \<and> wire v' = wire ?v \<and> contacts v' = contacts ?v"
    by (rule unmoved_fails [where es = ?es and row = "demoRow\<lparr>msg_id := ''id''\<rparr>", OF start _ _ sys_Load])
      (use none demoCerts_proper in \<open>simp_all add: sysMachine_def sysWorld_def sysSpool_def sysConfig_def rowToItem_def
        demoRow_def rowAt_def demoEnv_def sql_ok_def\<close>)
  then show ?thesis using rd unfolding Let_def k by (auto simp: demoRow_def demoWorld_def)
qed

end
